(* ===== verification/Prelude.thy ===== *)
theory Prelude
  imports Main
begin

text \<open>
  Shared vocabulary of the development: the JavaScript values the handlers of
  \<^verbatim>\<open>src/index.js\<close> read from parsed JSON request bodies and write into JSON
  responses, the ECMAScript operations on them that the code relies on
  (\<^verbatim>\<open>String.prototype.split\<close> with a one-character separator, array indexing
  that yields \<^verbatim>\<open>undefined\<close> out of range, property access, template-literal
  string conversion), and the generic lemmas about them.  Strings are byte
  strings (\<^typ>\<open>char\<close> is a byte): the UTF-8 view that bcrypt, the JWT
  encoder and SQLite all take of a JavaScript string.
\<close>

named_theorems js_simps "evaluation rules of the JavaScript value model"

section \<open>JavaScript values\<close>

text \<open>
  The values \<^verbatim>\<open>express.json()\<close> can place in \<^verbatim>\<open>request.body\<close>, plus
  \<^verbatim>\<open>undefined\<close>.  Numbers are integers (fractional JSON numbers are not
  modelled); an object is its list of properties in insertion order.
\<close>

datatype jsval =
    JUndef
  | JNull
  | JBool bool
  | JNum int
  | JStr string
  | JArr "jsval list"
  | JObj "(string \<times> jsval) list"

type_synonym jsobj = "(string \<times> jsval) list"

definition is_digit :: "char \<Rightarrow> bool" where
  "is_digit c \<longleftrightarrow> (48::nat) \<le> of_char c \<and> of_char c < (58::nat)"

text \<open>Decimal rendering of numbers, as \<^verbatim>\<open>Number.prototype.toString\<close> gives it.\<close>

fun nat_str :: "nat \<Rightarrow> string" where
  "nat_str n =
     (if n < 10 then [char_of (48 + n)]
      else nat_str (n div 10) @ [char_of (48 + n mod 10)])"

declare nat_str.simps [simp del]

definition int_str :: "int \<Rightarrow> string" where
  "int_str i = (if i < 0 then CHR ''-'' # nat_str (nat (- i)) else nat_str (nat i))"

text \<open>\<^verbatim>\<open>Array.prototype.join\<close> with a one-character separator.\<close>

fun join_with :: "char \<Rightarrow> string list \<Rightarrow> string" where
  "join_with c [] = []"
| "join_with c [w] = w"
| "join_with c (w # v # ws) = w @ c # join_with c (v # ws)"

text \<open>
  \<^verbatim>\<open>ToString\<close>, which a template literal \<^verbatim>\<open>`...${x}...`\<close> applies to
  each interpolated value: \<^verbatim>\<open>undefined\<close> becomes the text
  \<^verbatim>\<open>undefined\<close>, an array joins its elements with commas (\<^verbatim>\<open>null\<close>
  and \<^verbatim>\<open>undefined\<close> elements as empty strings), an object is
  \<^verbatim>\<open>[object Object]\<close>.
\<close>

fun js_to_string :: "jsval \<Rightarrow> string" where
  "js_to_string JUndef = ''undefined''"
| "js_to_string JNull = ''null''"
| "js_to_string (JBool b) = (if b then ''true'' else ''false'')"
| "js_to_string (JNum i) = int_str i"
| "js_to_string (JStr s) = s"
| "js_to_string (JArr vs) =
     join_with (CHR '','')
       (map (\<lambda>v. if v = JUndef \<or> v = JNull then [] else js_to_string v) vs)"
| "js_to_string (JObj kvs) = ''[object Object]''"

text \<open>
  Property access \<^verbatim>\<open>v.k\<close> and destructuring \<^verbatim>\<open>const {k} = v\<close>: the
  value of the property on an object (the last binding of \<open>k\<close>, as
  \<^verbatim>\<open>JSON.parse\<close> keeps the last of duplicated keys), \<^verbatim>\<open>undefined\<close>
  otherwise.
\<close>

definition js_prop :: "jsval \<Rightarrow> string \<Rightarrow> jsval" where
  "js_prop v k =
     (case v of
        JObj kvs \<Rightarrow> (case map_of (rev kvs) k of Some x \<Rightarrow> x | None \<Rightarrow> JUndef)
      | _ \<Rightarrow> JUndef)"

text \<open>Truthiness, as \<^verbatim>\<open>a || b\<close> and \<^verbatim>\<open>if (a)\<close> test it.\<close>

fun js_truthy :: "jsval \<Rightarrow> bool" where
  "js_truthy JUndef = False"
| "js_truthy JNull = False"
| "js_truthy (JBool b) = b"
| "js_truthy (JNum i) = (i \<noteq> 0)"
| "js_truthy (JStr s) = (s \<noteq> [])"
| "js_truthy (JArr vs) = True"
| "js_truthy (JObj kvs) = True"

text \<open>
  Assignment \<^verbatim>\<open>o.k = v\<close> on an object: the property keeps its place if it
  exists, and is appended otherwise.
\<close>

definition js_set_prop :: "jsobj \<Rightarrow> string \<Rightarrow> jsval \<Rightarrow> jsobj" where
  "js_set_prop kvs k v =
     (if k \<in> fst ` set kvs then map (\<lambda>(k', v'). if k' = k then (k', v) else (k', v')) kvs
      else kvs @ [(k, v)])"

section \<open>String.prototype.split and array indexing\<close>

text \<open>
  \<^verbatim>\<open>s.split(c)\<close> for a one-character separator: the pieces between the
  occurrences of \<open>c\<close>, left to right; the empty string splits into one empty
  piece.  \<open>acc\<close> holds the current piece reversed.
\<close>

fun split_acc :: "char \<Rightarrow> string \<Rightarrow> string \<Rightarrow> string list" where
  "split_acc c acc [] = [rev acc]"
| "split_acc c acc (x # xs) =
     (if x = c then rev acc # split_acc c [] xs else split_acc c (x # acc) xs)"

definition js_split :: "char \<Rightarrow> string \<Rightarrow> string list" where
  "js_split c s = split_acc c [] s"

text \<open>\<^verbatim>\<open>xs[i]\<close>: \<^verbatim>\<open>undefined\<close> (here \<open>None\<close>) past the end.\<close>

definition js_index :: "'a list \<Rightarrow> nat \<Rightarrow> 'a option" where
  "js_index xs i = (if i < length xs then Some (xs ! i) else None)"

section \<open>ASCII case\<close>

text \<open>Lower case of an ASCII letter, as SQLite's \<open>LIKE\<close>, Express's route matching and
  the media types of \<^verbatim>\<open>Content-Type\<close> fold it; other characters are kept.\<close>

definition ascii_lower :: "char \<Rightarrow> char" where
  "ascii_lower c =
     (case map_of (zip ''ABCDEFGHIJKLMNOPQRSTUVWXYZ'' ''abcdefghijklmnopqrstuvwxyz'') c of
        Some l \<Rightarrow> l
      | None \<Rightarrow> c)"

section \<open>Lemmas\<close>

subsection \<open>Number rendering\<close>

lemma nat_str_digits: "c \<in> set (nat_str n) \<Longrightarrow> is_digit c"
proof (induction n rule: nat_str.induct)
  case (1 n)
  have dig: "is_digit (char_of (48 + k))" if "k < 10" for k :: nat
    using that by (simp add: is_digit_def of_char_of)
  show ?case
  proof (cases "n < 10")
    case True
    with "1.prems" show ?thesis by (simp add: nat_str.simps [of n] dig)
  next
    case False
    with "1.IH" "1.prems" show ?thesis by (auto simp: nat_str.simps [of n] dig)
  qed
qed

lemma nat_str_nonempty [simp]: "nat_str n \<noteq> []"
  by (subst nat_str.simps) simp

lemma space_notin_nat_str [js_simps]: "CHR '' '' \<notin> set (nat_str n)"
  using nat_str_digits [of "CHR '' ''" n] by (auto simp: is_digit_def)

lemma quote_notin_nat_str [js_simps]: "CHR 0x27 \<notin> set (nat_str n)"
  using nat_str_digits [of "CHR 0x27" n] by (auto simp: is_digit_def)

lemma quote_notin_int_str [js_simps]: "CHR 0x27 \<notin> set (int_str i)"
  by (simp add: int_str_def quote_notin_nat_str)

subsection \<open>Property access\<close>

lemma js_prop_obj [js_simps]:
  "js_prop (JObj kvs) k = (case map_of (rev kvs) k of Some x \<Rightarrow> x | None \<Rightarrow> JUndef)"
  by (simp add: js_prop_def)

lemma js_prop_cons_same [js_simps]:
  "k \<notin> fst ` set kvs \<Longrightarrow> js_prop (JObj ((k, v) # kvs)) k = v"
proof -
  assume "k \<notin> fst ` set kvs"
  then have "map_of (rev kvs) k = None" by (simp add: map_of_eq_None_iff)
  then show ?thesis by (simp add: js_prop_def map_add_def)
qed

lemma js_prop_non_obj [js_simps]:
  "(\<And>kvs. v \<noteq> JObj kvs) \<Longrightarrow> js_prop v k = JUndef"
  by (cases v) (auto simp: js_prop_def)

subsection \<open>Splitting\<close>

lemma split_acc_nonempty [simp]: "split_acc c acc s \<noteq> []"
  by (induction c acc s rule: split_acc.induct) auto

lemma split_acc_no_sep:
  "c \<notin> set s \<Longrightarrow> split_acc c acc s = [rev acc @ s]"
  by (induction c acc s rule: split_acc.induct) auto

lemma split_acc_sep:
  "c \<notin> set a \<Longrightarrow> split_acc c acc (a @ c # b) = (rev acc @ a) # split_acc c [] b"
  by (induction a arbitrary: acc) auto

lemma js_split_no_sep [js_simps]: "c \<notin> set s \<Longrightarrow> js_split c s = [s]"
  by (simp add: js_split_def split_acc_no_sep)

lemma js_split_sep [js_simps]:
  "c \<notin> set a \<Longrightarrow> js_split c (a @ c # b) = a # js_split c b"
  by (simp add: js_split_def split_acc_sep)

lemma js_split_nonempty [simp]: "js_split c s \<noteq> []"
  by (simp add: js_split_def)

lemma join_with_cons_nonempty:
  "ws \<noteq> [] \<Longrightarrow> join_with c (w # ws) = w @ c # join_with c ws"
  by (cases ws) auto

lemma join_split_acc: "join_with c (split_acc c acc s) = rev acc @ s"
proof (induction c acc s rule: split_acc.induct)
  case (1 c acc)
  then show ?case by simp
next
  case (2 c acc x xs)
  then show ?case by (simp add: join_with_cons_nonempty)
qed

lemma split_acc_pieces: "c \<notin> set acc \<Longrightarrow> w \<in> set (split_acc c acc s) \<Longrightarrow> c \<notin> set w"
  by (induction c acc s rule: split_acc.induct) (auto split: if_splits)

lemma length_split_acc: "length (split_acc c acc s) = Suc (count_list s c)"
  by (induction c acc s rule: split_acc.induct) auto

subsection \<open>Indexing\<close>

lemma js_index_Cons_Suc [js_simps]: "js_index (x # xs) (Suc i) = js_index xs i"
  by (simp add: js_index_def)

lemma js_index_Cons_0 [js_simps]: "js_index (x # xs) 0 = Some x"
  by (simp add: js_index_def)

lemma js_index_Nil [js_simps]: "js_index [] i = None"
  by (simp add: js_index_def)

lemma js_split_three:
  "js_split c s = [a, b, e] \<Longrightarrow> s = a @ c # b @ c # e"
  using join_split_acc [of c "[]" s] by (simp add: js_split_def)

lemma hd_split_acc: "hd (split_acc c acc s) = rev acc @ takeWhile (\<lambda>x. x \<noteq> c) s"
  by (induction c acc s rule: split_acc.induct) auto

lemma dropWhile_first: "c \<notin> set a \<Longrightarrow> dropWhile (\<lambda>x. x \<noteq> c) (a @ c # b) = c # b"
  by (induction a) auto

end
