(* ===== verification/Encoding.thy ===== *)
theory Encoding
  imports Prelude
begin

text \<open>
  The 6-bit text encoding of byte strings that both libraries the code calls
  rely on: bcrypt writes its 16-byte salt and 23-byte digest with it (alphabet
  \<^verbatim>\<open>./A-Za-z0-9\<close>), jsonwebtoken writes every segment of a token with it
  (base64url, alphabet \<^verbatim>\<open>A-Za-z0-9-_\<close>, no padding).  Three bytes become
  four characters, most significant bits first; a final group of one or two
  bytes becomes two or three characters.  Decoding reverses it and, as Node's
  \<^verbatim>\<open>Buffer.from(s, 'base64')\<close> does, ignores a dangling single character
  and the unused low bits of a final group.  The main result is the round trip
  \<open>b64_decode (b64_encode bs) = bs\<close> for every alphabet of 64 distinct
  characters.
\<close>

section \<open>Alphabets\<close>

definition bcrypt_alphabet :: string where
  "bcrypt_alphabet = ''./ABCDEFGHIJKLMNOPQRSTUVWXYZabcdefghijklmnopqrstuvwxyz0123456789''"

definition b64url_alphabet :: string where
  "b64url_alphabet = ''ABCDEFGHIJKLMNOPQRSTUVWXYZabcdefghijklmnopqrstuvwxyz0123456789-_''"

text \<open>Position of a character in an alphabet (the decoding table).\<close>

fun pos_of :: "'a \<Rightarrow> 'a list \<Rightarrow> nat" where
  "pos_of x [] = 0"
| "pos_of x (y # ys) = (if x = y then 0 else Suc (pos_of x ys))"

section \<open>Encoding and decoding\<close>

fun b64_encode :: "string \<Rightarrow> string \<Rightarrow> string" where
  "b64_encode al (a # b # c # rest) =
     (let x = of_char a; y = of_char b; z = of_char c in
      al ! (x div 4) # al ! (x mod 4 * 16 + y div 16) #
      al ! (y mod 16 * 4 + z div 64) # al ! (z mod 64) # b64_encode al rest)"
| "b64_encode al [a, b] =
     (let x = of_char a; y = of_char b in
      [al ! (x div 4), al ! (x mod 4 * 16 + y div 16), al ! (y mod 16 * 4)])"
| "b64_encode al [a] = (let x = of_char a in [al ! (x div 4), al ! (x mod 4 * 16)])"
| "b64_encode al [] = []"

fun b64_decode :: "string \<Rightarrow> string \<Rightarrow> string" where
  "b64_decode al (w # x # y # z # rest) =
     (let p = pos_of w al; q = pos_of x al; r = pos_of y al; s = pos_of z al in
      char_of (p * 4 + q div 16) # char_of (q mod 16 * 16 + r div 4) #
      char_of (r mod 4 * 64 + s) # b64_decode al rest)"
| "b64_decode al [w, x, y] =
     (let p = pos_of w al; q = pos_of x al; r = pos_of y al in
      [char_of (p * 4 + q div 16), char_of (q mod 16 * 16 + r div 4)])"
| "b64_decode al [w, x] =
     (let p = pos_of w al; q = pos_of x al in [char_of (p * 4 + q div 16)])"
| "b64_decode al [w] = []"
| "b64_decode al [] = []"

section \<open>Lemmas\<close>

lemma pos_of_nth: "distinct al \<Longrightarrow> n < length al \<Longrightarrow> pos_of (al ! n) al = n"
proof (induction al arbitrary: n)
  case Nil
  then show ?case by simp
next
  case (Cons a al)
  then show ?case by (cases n) auto
qed

lemma pos_of_less: "x \<in> set al \<Longrightarrow> pos_of x al < length al"
  by (induction al) auto

lemma nth_pos_of: "x \<in> set al \<Longrightarrow> al ! pos_of x al = x"
  by (induction al) auto

lemma bcrypt_alphabet_ok [simp]: "distinct bcrypt_alphabet" "length bcrypt_alphabet = 64"
  by (simp_all add: bcrypt_alphabet_def)

lemma b64url_alphabet_ok [simp]: "distinct b64url_alphabet" "length b64url_alphabet = 64"
  by (simp_all add: b64url_alphabet_def)

text \<open>The digit arithmetic of one group, as facts about \<open>div\<close> and \<open>mod\<close>.\<close>

lemma of_char_lt_256 [simp]: "of_char (c::char) < (256::nat)"
proof -
  have "of_char c mod 256 < (256::nat)" by simp
  then show ?thesis by simp
qed

lemma group_digits_small:
  fixes x y z :: nat
  assumes "x < 256" "y < 256" "z < 256"
  shows "x div 4 < 64" "x mod 4 * 16 + y div 16 < 64"
    "y mod 16 * 4 + z div 64 < 64" "z mod 64 < 64"
  using assms by linarith+

lemma group_digits_inverse:
  fixes x y z :: nat
  assumes "x < 256" "y < 256" "z < 256"
  shows "x div 4 * 4 + (x mod 4 * 16 + y div 16) div 16 = x"
    "(x mod 4 * 16 + y div 16) mod 16 * 16 + (y mod 16 * 4 + z div 64) div 4 = y"
    "(y mod 16 * 4 + z div 64) mod 4 * 64 + z mod 64 = z"
proof -
  have "y div 16 < 16" using assms by linarith
  then show "x div 4 * 4 + (x mod 4 * 16 + y div 16) div 16 = x" by simp
next
  have "y div 16 < 16" "z div 64 < 4" using assms by linarith+
  then show "(x mod 4 * 16 + y div 16) mod 16 * 16 + (y mod 16 * 4 + z div 64) div 4 = y"
    by simp
next
  have "z div 64 < 4" using assms by linarith
  then show "(y mod 16 * 4 + z div 64) mod 4 * 64 + z mod 64 = z" by simp
qed

lemma b64_decode_encode:
  assumes al: "distinct al" "length al = 64"
  shows "b64_decode al (b64_encode al bs) = bs"
  using al
proof (induction al bs rule: b64_encode.induct)
  case (1 al a b c rest)
  let ?x = "of_char a :: nat" and ?y = "of_char b :: nat" and ?z = "of_char c :: nat"
  have lt: "?x < 256" "?y < 256" "?z < 256" by (simp_all add: of_char_lt_256)
  note sm = group_digits_small [OF lt] and inv = group_digits_inverse [OF lt]
  have pos: "pos_of (al ! (?x div 4)) al = ?x div 4"
    "pos_of (al ! (?x mod 4 * 16 + ?y div 16)) al = ?x mod 4 * 16 + ?y div 16"
    "pos_of (al ! (?y mod 16 * 4 + ?z div 64)) al = ?y mod 16 * 4 + ?z div 64"
    "pos_of (al ! (?z mod 64)) al = ?z mod 64"
    using "1.prems" sm by (simp_all add: pos_of_nth)
  have "b64_decode al (b64_encode al (a # b # c # rest)) =
      char_of ?x # char_of ?y # char_of ?z # b64_decode al (b64_encode al rest)"
    by (simp only: b64_encode.simps b64_decode.simps Let_def pos inv)
  with "1.IH" [OF refl refl refl "1.prems"] show ?case by simp
next
  case (2 al a b)
  let ?x = "of_char a :: nat" and ?y = "of_char b :: nat"
  have lt: "?x < 256" "?y < 256" "(0::nat) < 256" by (simp_all add: of_char_lt_256)
  note sm = group_digits_small [OF lt] and inv = group_digits_inverse [OF lt]
  have pos: "pos_of (al ! (?x div 4)) al = ?x div 4"
    "pos_of (al ! (?x mod 4 * 16 + ?y div 16)) al = ?x mod 4 * 16 + ?y div 16"
    "pos_of (al ! (?y mod 16 * 4)) al = ?y mod 16 * 4"
    using "2.prems" sm by (simp_all add: pos_of_nth)
  have "?y div 16 < 16" using lt by linarith
  then have "(?x mod 4 * 16 + ?y div 16) mod 16 * 16 + ?y mod 16 * 4 div 4 = ?y" by simp
  then have "b64_decode al (b64_encode al [a, b]) = [char_of ?x, char_of ?y]"
    by (simp only: b64_encode.simps b64_decode.simps Let_def pos inv)
  then show ?case by simp
next
  case (3 al a)
  let ?x = "of_char a :: nat"
  have lt: "?x < 256" "(0::nat) < 256" "(0::nat) < 256" by (simp_all add: of_char_lt_256)
  note sm = group_digits_small [OF lt] and inv = group_digits_inverse [OF lt]
  have pos: "pos_of (al ! (?x div 4)) al = ?x div 4"
    "pos_of (al ! (?x mod 4 * 16)) al = ?x mod 4 * 16"
    using "3.prems" sm by (simp_all add: pos_of_nth)
  have "?x div 4 * 4 + ?x mod 4 * 16 div 16 = ?x" by simp
  then have "b64_decode al (b64_encode al [a]) = [char_of ?x]"
    by (simp only: b64_encode.simps b64_decode.simps Let_def pos)
  then show ?case by simp
next
  case (4 al)
  then show ?case by simp
qed


lemma b64_encode_chars:
  assumes "length al = 64"
  shows "set (b64_encode al bs) \<subseteq> set al"
  using assms
proof (induction al bs rule: b64_encode.induct)
  case (1 al a b c rest)
  have lt: "of_char a < (256::nat)" "of_char b < (256::nat)" "of_char c < (256::nat)"
    by (simp_all add: of_char_lt_256)
  note sm = group_digits_small [OF lt]
  show ?case using "1.IH" [OF refl refl refl "1.prems"] "1.prems" sm
    by (simp add: Let_def nth_mem)
next
  case (2 al a b)
  have lt: "of_char a < (256::nat)" "of_char b < (256::nat)" "(0::nat) < 256"
    by (simp_all add: of_char_lt_256)
  note sm = group_digits_small [OF lt]
  show ?case using "2.prems" sm by (simp add: Let_def nth_mem)
next
  case (3 al a)
  have lt: "of_char a < (256::nat)" "(0::nat) < 256" "(0::nat) < 256"
    by (simp_all add: of_char_lt_256)
  note sm = group_digits_small [OF lt]
  show ?case using "3.prems" sm by (simp add: Let_def nth_mem)
next
  case (4 al)
  then show ?case by simp
qed

lemma length_b64_encode: "length (b64_encode al bs) = (4 * length bs + 2) div 3"
  by (induction al bs rule: b64_encode.induct) (simp_all add: Let_def)

end
