(* ===== verification/Bcrypt.thy ===== *)
theory Bcrypt
  imports Encoding
begin

text \<open>
  The password hashing the handlers call: \<^verbatim>\<open>bcrypt.hash(password, 10)\<close>
  (\<^verbatim>\<open>src/index.js\<close> line 61) and \<^verbatim>\<open>bcrypt.compare(password, hash)\<close>
  (line 96) of the node \<^verbatim>\<open>bcrypt\<close> package.  Modelled: the argument checks
  of the JavaScript wrapper (each a rejected promise), salt generation, the
  modular-crypt string \<^verbatim>\<open>$2b$10$<22 salt chars><31 digest chars>\<close>, the
  key the algorithm really uses (the first 72 bytes of the password with its
  terminating NUL byte), and \<^verbatim>\<open>compare\<close> as recomputation of the hash from
  the salt stored in it.  Not modelled: the Blowfish key schedule itself, which
  is the parameter \<open>eks\<close> (cost, 16 salt bytes, key bytes to the 23 digest
  bytes); every lemma holds for any \<open>eks\<close>, and those that need the digest
  to separate keys say so by assuming \<open>inj (eks 10 salt)\<close>.
\<close>

type_synonym eks = "nat \<Rightarrow> string \<Rightarrow> string \<Rightarrow> string"

datatype bcrypt_error =
    DataAndSaltRequired
  | DataMustBeString
  | DataAndHashRequired
  | DataAndHashMustBeStrings

text \<open>The key: bytes beyond the 72nd never reach the key schedule.\<close>

definition bcrypt_key :: "string \<Rightarrow> string" where
  "bcrypt_key pw = take 72 (pw @ [CHR 0x00])"

definition two_digits :: "nat \<Rightarrow> string" where
  "two_digits n = [char_of (48 + n div 10), char_of (48 + n mod 10)]"

text \<open>\<^verbatim>\<open>genSalt(rounds)\<close> with the 16 random bytes \<open>rnd\<close>.\<close>

definition salt_prefix :: "nat \<Rightarrow> string" where
  "salt_prefix rounds = ''$2b$'' @ two_digits rounds @ ''$''"

definition gen_salt :: "nat \<Rightarrow> string \<Rightarrow> string" where
  "gen_salt rounds rnd = salt_prefix rounds @ b64_encode bcrypt_alphabet rnd"

definition setting_rounds :: "string \<Rightarrow> nat" where
  "setting_rounds s = (of_char (s ! 4) - 48) * 10 + (of_char (s ! 5) - 48)"

text \<open>The salt check the native \<^verbatim>\<open>compare\<close> applies to the stored hash.\<close>

definition valid_setting :: "string \<Rightarrow> bool" where
  "valid_setting s \<longleftrightarrow>
     29 \<le> length s \<and> take 2 s = ''$2'' \<and> s ! 2 \<in> {CHR ''a'', CHR ''b'', CHR ''y''} \<and>
     s ! 3 = CHR ''$'' \<and> is_digit (s ! 4) \<and> is_digit (s ! 5) \<and> s ! 6 = CHR ''$'' \<and>
     4 \<le> setting_rounds s \<and> setting_rounds s \<le> 31"

text \<open>
  \<^verbatim>\<open>bcrypt(key, setting)\<close>: the salt is decoded from the 22 characters after
  the prefix and written out again, then the digest.
\<close>

definition bcrypt_crypt :: "eks \<Rightarrow> string \<Rightarrow> string \<Rightarrow> string" where
  "bcrypt_crypt eks pw setting =
     (let salt = b64_decode bcrypt_alphabet (take 22 (drop 7 setting)) in
      take 7 setting @ b64_encode bcrypt_alphabet salt @
      b64_encode bcrypt_alphabet (eks (setting_rounds setting) salt (bcrypt_key pw)))"

text \<open>\<^verbatim>\<open>bcrypt.hash(data, rounds)\<close>: \<open>Inl\<close> is the promise's rejection.\<close>

definition bcrypt_hash :: "eks \<Rightarrow> string \<Rightarrow> jsval \<Rightarrow> nat \<Rightarrow> bcrypt_error + string" where
  "bcrypt_hash eks rnd data rounds =
     (case data of
        JUndef \<Rightarrow> Inl DataAndSaltRequired
      | JNull \<Rightarrow> Inl DataAndSaltRequired
      | JStr pw \<Rightarrow> Inr (bcrypt_crypt eks pw (gen_salt rounds rnd))
      | _ \<Rightarrow> Inl DataMustBeString)"

text \<open>\<^verbatim>\<open>bcrypt.compare(data, hash)\<close>.\<close>

definition bcrypt_compare :: "eks \<Rightarrow> jsval \<Rightarrow> string \<Rightarrow> bcrypt_error + bool" where
  "bcrypt_compare eks data h =
     (case data of
        JUndef \<Rightarrow> Inl DataAndHashRequired
      | JNull \<Rightarrow> Inl DataAndHashRequired
      | JStr pw \<Rightarrow> Inr (valid_setting h \<and> bcrypt_crypt eks pw h = h)
      | _ \<Rightarrow> Inl DataAndHashMustBeStrings)"

definition bcrypt_error_msg :: "bcrypt_error \<Rightarrow> string" where
  "bcrypt_error_msg e =
     (case e of
        DataAndSaltRequired \<Rightarrow> ''data and salt arguments required''
      | DataMustBeString \<Rightarrow>
          ''data must be a string or Buffer and salt must either be a salt string or a number of rounds''
      | DataAndHashRequired \<Rightarrow> ''data and hash arguments required''
      | DataAndHashMustBeStrings \<Rightarrow> ''data and hash must be strings'')"

section \<open>Lemmas\<close>

lemma b64_encode_eq_iff:
  "distinct al \<Longrightarrow> length al = 64 \<Longrightarrow> b64_encode al x = b64_encode al y \<longleftrightarrow> x = y"
  by (metis b64_decode_encode)

text \<open>A hash made with 16 random bytes has the salt string as its first 29 characters.\<close>

lemma two_digits_10 [simp]: "two_digits 10 = ''10''"
proof -
  have "(of_char (char_of (49::nat)) :: nat) = of_char (CHR ''1'')"
    "(of_char (char_of (48::nat)) :: nat) = of_char (CHR ''0'')" by simp_all
  then have "char_of (49::nat) = CHR ''1''" "char_of (48::nat) = CHR ''0''"
    by (simp_all only: of_char_eq_iff)
  then show ?thesis by (simp add: two_digits_def)
qed

lemma length_salt_prefix [simp]: "length (salt_prefix r) = 7"
  by (simp add: salt_prefix_def two_digits_def)

lemma gen_salt_length: "length rnd = 16 \<Longrightarrow> length (gen_salt r rnd) = 29"
  by (simp add: gen_salt_def length_b64_encode)

lemma crypt_gen_salt:
  assumes "length rnd = 16"
  shows "bcrypt_crypt eks pw (gen_salt 10 rnd @ rest) =
           gen_salt 10 rnd @ b64_encode bcrypt_alphabet (eks 10 rnd (bcrypt_key pw))"
proof -
  have len: "length (b64_encode bcrypt_alphabet rnd) = 22"
    using assms by (simp add: length_b64_encode)
  have salt: "take 22 (drop 7 (gen_salt 10 rnd @ rest)) = b64_encode bcrypt_alphabet rnd"
    using len by (simp add: gen_salt_def)
  have pre: "take 7 (gen_salt 10 rnd @ rest) = salt_prefix 10"
    by (simp add: gen_salt_def)
  have r: "setting_rounds (gen_salt 10 rnd @ rest) = 10"
    by (simp add: gen_salt_def salt_prefix_def two_digits_def setting_rounds_def)
  show ?thesis
    unfolding bcrypt_crypt_def Let_def salt pre r
    by (simp add: b64_decode_encode gen_salt_def)
qed

lemma valid_gen_salt:
  "length rnd = 16 \<Longrightarrow> valid_setting (gen_salt 10 rnd @ rest)"
  by (simp add: valid_setting_def gen_salt_def salt_prefix_def two_digits_def
      setting_rounds_def is_digit_def length_b64_encode)

text \<open>The stored hash of \<open>pw\<close>, and what \<^verbatim>\<open>compare\<close> decides against it.\<close>

lemma bcrypt_hash_str:
  "bcrypt_hash eks rnd (JStr pw) r = Inr (bcrypt_crypt eks pw (gen_salt r rnd))"
  by (simp add: bcrypt_hash_def)

lemma compare_stored_hash:
  assumes "length rnd = 16"
  shows "bcrypt_compare eks (JStr pw') (bcrypt_crypt eks pw (gen_salt 10 rnd)) =
           Inr (eks 10 rnd (bcrypt_key pw') = eks 10 rnd (bcrypt_key pw))"
proof -
  let ?h = "bcrypt_crypt eks pw (gen_salt 10 rnd)"
  have h: "?h = gen_salt 10 rnd @ b64_encode bcrypt_alphabet (eks 10 rnd (bcrypt_key pw))"
    using crypt_gen_salt [OF assms, of eks pw "[]"] by simp
  have c: "bcrypt_crypt eks pw' ?h =
             gen_salt 10 rnd @ b64_encode bcrypt_alphabet (eks 10 rnd (bcrypt_key pw'))"
    unfolding h by (rule crypt_gen_salt [OF assms])
  have v: "valid_setting ?h"
    unfolding h by (rule valid_gen_salt [OF assms])
  have "(bcrypt_crypt eks pw' ?h = ?h) = (eks 10 rnd (bcrypt_key pw') = eks 10 rnd (bcrypt_key pw))"
    by (subst c, subst h) (simp add: b64_encode_eq_iff)
  with v show ?thesis by (simp add: bcrypt_compare_def)
qed

end
