(* ===== verification/Json.thy ===== *)
theory Json
  imports Prelude
begin

text \<open>
  \<^verbatim>\<open>JSON.stringify\<close> and \<^verbatim>\<open>JSON.parse\<close> on the value model of
  \<^theory_text>\<open>Prelude\<close>: jsonwebtoken writes the header and the payload of a token
  with the first and reads them back with the second, and Express writes
  object responses with the first.  The parser is a recursive descent with a
  fuel argument (one unit per call); \<open>json_parse\<close> gives it twice the length
  of its input plus one, which is always enough (\<open>json_parse_not_fuel\<close>): an
  array or object costs two units, one for the value and one for its elements,
  and consumes at least its opening bracket.  Numbers with a fraction or an exponent and
  \<^verbatim>\<open>\u\<close> escapes beyond ASCII are outside the value model: the parser reports
  them as \<open>JsonUnsupported\<close> instead of guessing.  The main result is the
  round trip \<open>json_parse (json_str v) = Inr (json_norm v)\<close>, where
  \<open>json_norm\<close> drops \<^verbatim>\<open>undefined\<close> properties and turns \<^verbatim>\<open>undefined\<close>
  array elements into \<^verbatim>\<open>null\<close>, as JavaScript's own round trip does.
\<close>

abbreviation DQ :: char where "DQ \<equiv> CHR 0x22"
abbreviation BS :: char where "BS \<equiv> CHR 0x5C"

datatype json_error = JsonSyntax | JsonUnsupported | JsonFuel

section \<open>JSON.stringify\<close>

definition hex_digit :: "nat \<Rightarrow> char" where
  "hex_digit n = ''0123456789abcdef'' ! n"

definition json_escape_char :: "char \<Rightarrow> string" where
  "json_escape_char c =
     (let n = (of_char c :: nat) in
      if c = DQ then [BS, DQ]
      else if c = BS then [BS, BS]
      else if n = 8 then [BS, CHR ''b'']
      else if n = 12 then [BS, CHR ''f'']
      else if n = 10 then [BS, CHR ''n'']
      else if n = 13 then [BS, CHR ''r'']
      else if n = 9 then [BS, CHR ''t'']
      else if n < 32 then [BS, CHR ''u'', CHR ''0'', CHR ''0'', hex_digit (n div 16), hex_digit (n mod 16)]
      else [c])"

definition json_quote :: "string \<Rightarrow> string" where
  "json_quote s = DQ # concat (map json_escape_char s) @ [DQ]"

text \<open>
  \<^verbatim>\<open>undefined\<close> prints as \<^verbatim>\<open>null\<close> where an array holds it; an object
  leaves such properties out.
\<close>

fun json_str :: "jsval \<Rightarrow> string" where
  "json_str JUndef = ''null''"
| "json_str JNull = ''null''"
| "json_str (JBool b) = (if b then ''true'' else ''false'')"
| "json_str (JNum i) = int_str i"
| "json_str (JStr s) = json_quote s"
| "json_str (JArr vs) = CHR ''['' # join_with (CHR '','') (map json_str vs) @ '']''"
| "json_str (JObj kvs) =
     CHR ''{'' #
     join_with (CHR '','')
       (map (\<lambda>(k, v). json_quote k @ CHR '':'' # json_str v) (filter (\<lambda>(k, v). v \<noteq> JUndef) kvs))
     @ ''}''"

fun json_norm :: "jsval \<Rightarrow> jsval" where
  "json_norm JUndef = JNull"
| "json_norm (JArr vs) = JArr (map json_norm vs)"
| "json_norm (JObj kvs) =
     JObj (map (\<lambda>(k, v). (k, json_norm v)) (filter (\<lambda>(k, v). v \<noteq> JUndef) kvs))"
| "json_norm v = v"

section \<open>JSON.parse\<close>

definition is_ws :: "char \<Rightarrow> bool" where
  "is_ws c \<longleftrightarrow> c = CHR '' '' \<or> c = CHR 0x09 \<or> c = CHR 0x0A \<or> c = CHR 0x0D"

fun skip_ws :: "string \<Rightarrow> string" where
  "skip_ws [] = []"
| "skip_ws (c # cs) = (if is_ws c then skip_ws cs else c # cs)"

definition hex_val :: "char \<Rightarrow> nat option" where
  "hex_val c =
     (let n = (of_char c :: nat) in
      if 48 \<le> n \<and> n < 58 then Some (n - 48)
      else if 97 \<le> n \<and> n < 103 then Some (n - 87)
      else if 65 \<le> n \<and> n < 71 then Some (n - 55)
      else None)"

definition short_escape :: "char \<Rightarrow> char option" where
  "short_escape e =
     (if e = DQ \<or> e = BS \<or> e = CHR ''/'' then Some e
      else if e = CHR ''b'' then Some (CHR 0x08)
      else if e = CHR ''f'' then Some (CHR 0x0C)
      else if e = CHR ''n'' then Some (CHR 0x0A)
      else if e = CHR ''r'' then Some (CHR 0x0D)
      else if e = CHR ''t'' then Some (CHR 0x09)
      else None)"

text \<open>The characters of a string literal after its opening quote.\<close>

fun parse_chars :: "string \<Rightarrow> string \<Rightarrow> json_error + (string \<times> string)" where
  "parse_chars acc [] = Inl JsonSyntax"
| "parse_chars acc (c # cs) =
     (if c = DQ then Inr (rev acc, cs)
      else if c = BS then
        (case cs of
           [] \<Rightarrow> Inl JsonSyntax
         | e # rest \<Rightarrow>
            (case short_escape e of
               Some x \<Rightarrow> parse_chars (x # acc) rest
             | None \<Rightarrow>
                if e = CHR ''u'' then
                  (case rest of
                     a # b # c # d # rest' \<Rightarrow>
                       (case (hex_val a, hex_val b, hex_val c, hex_val d) of
                          (Some p, Some q, Some r, Some s) \<Rightarrow>
                            (let n = ((p * 16 + q) * 16 + r) * 16 + s in
                             if n < 128 then parse_chars (char_of n # acc) rest'
                             else Inl JsonUnsupported)
                        | _ \<Rightarrow> Inl JsonSyntax)
                   | _ \<Rightarrow> Inl JsonSyntax)
                else Inl JsonSyntax))
      else if (of_char c :: nat) < 32 then Inl JsonSyntax
      else parse_chars (c # acc) cs)"

definition digits_val :: "string \<Rightarrow> nat" where
  "digits_val ds = foldl (\<lambda>n d. n * 10 + (of_char d - 48)) 0 ds"

text \<open>
  A number: an optional minus, then \<^verbatim>\<open>0\<close> or a digit string without a leading
  zero; a fraction or an exponent after it is outside the model.
\<close>

definition parse_number :: "string \<Rightarrow> json_error + (jsval \<times> string)" where
  "parse_number s =
     (let neg = (s \<noteq> [] \<and> hd s = CHR ''-'');
          s1 = (if neg then tl s else s);
          ds = takeWhile is_digit s1;
          rest = dropWhile is_digit s1
      in if ds = [] \<or> (hd ds = CHR ''0'' \<and> tl ds \<noteq> []) then Inl JsonSyntax
         else if rest \<noteq> [] \<and> hd rest \<in> {CHR ''.'', CHR ''e'', CHR ''E''} then Inl JsonUnsupported
         else Inr (JNum ((if neg then -1 else 1) * int (digits_val ds)), rest))"

fun parse_value :: "nat \<Rightarrow> string \<Rightarrow> json_error + (jsval \<times> string)"
and parse_elems :: "nat \<Rightarrow> jsval list \<Rightarrow> string \<Rightarrow> json_error + (jsval \<times> string)"
and parse_members :: "nat \<Rightarrow> jsobj \<Rightarrow> string \<Rightarrow> json_error + (jsval \<times> string)" where
  "parse_value 0 s = Inl JsonFuel"
| "parse_value (Suc n) s =
     (case skip_ws s of
        [] \<Rightarrow> Inl JsonSyntax
      | c # cs \<Rightarrow>
         if c = CHR ''n'' then (if take 3 cs = ''ull'' then Inr (JNull, drop 3 cs) else Inl JsonSyntax)
         else if c = CHR ''t'' then (if take 3 cs = ''rue'' then Inr (JBool True, drop 3 cs) else Inl JsonSyntax)
         else if c = CHR ''f'' then (if take 4 cs = ''alse'' then Inr (JBool False, drop 4 cs) else Inl JsonSyntax)
         else if c = DQ then
           (case parse_chars [] cs of Inl e \<Rightarrow> Inl e | Inr (str, r) \<Rightarrow> Inr (JStr str, r))
         else if c = CHR ''['' then
           (case skip_ws cs of
              d # ds \<Rightarrow> if d = CHR '']'' then Inr (JArr [], ds) else parse_elems n [] cs
            | [] \<Rightarrow> Inl JsonSyntax)
         else if c = CHR ''{'' then
           (case skip_ws cs of
              d # ds \<Rightarrow> if d = CHR ''}'' then Inr (JObj [], ds) else parse_members n [] cs
            | [] \<Rightarrow> Inl JsonSyntax)
         else if c = CHR ''-'' \<or> is_digit c then parse_number (c # cs)
         else Inl JsonSyntax)"
| "parse_elems 0 acc s = Inl JsonFuel"
| "parse_elems (Suc n) acc s =
     (case parse_value n s of
        Inl e \<Rightarrow> Inl e
      | Inr (v, r) \<Rightarrow>
         (case skip_ws r of
            d # ds \<Rightarrow>
              if d = CHR '','' then parse_elems n (v # acc) ds
              else if d = CHR '']'' then Inr (JArr (rev (v # acc)), ds)
              else Inl JsonSyntax
          | [] \<Rightarrow> Inl JsonSyntax))"
| "parse_members 0 acc s = Inl JsonFuel"
| "parse_members (Suc n) acc s =
     (case skip_ws s of
        d # ds \<Rightarrow>
          if d \<noteq> DQ then Inl JsonSyntax
          else
            (case parse_chars [] ds of
               Inl e \<Rightarrow> Inl e
             | Inr (k, r) \<Rightarrow>
                (case skip_ws r of
                   e # es \<Rightarrow>
                     if e \<noteq> CHR '':'' then Inl JsonSyntax
                     else
                       (case parse_value n es of
                          Inl err \<Rightarrow> Inl err
                        | Inr (v, r') \<Rightarrow>
                           (case skip_ws r' of
                              f # fs \<Rightarrow>
                                if f = CHR '','' then parse_members n ((k, v) # acc) fs
                                else if f = CHR ''}'' then Inr (JObj (rev ((k, v) # acc)), fs)
                                else Inl JsonSyntax
                            | [] \<Rightarrow> Inl JsonSyntax))
                 | [] \<Rightarrow> Inl JsonSyntax))
      | [] \<Rightarrow> Inl JsonSyntax)"

definition json_parse :: "string \<Rightarrow> json_error + jsval" where
  "json_parse s =
     (case parse_value (Suc (2 * length s)) s of
        Inl e \<Rightarrow> Inl e
      | Inr (v, r) \<Rightarrow> if skip_ws r = [] then Inr v else Inl JsonSyntax)"

section \<open>Notions used by the round trip\<close>

text \<open>What may follow a printed value so that the parser stops where it ends.\<close>

definition num_delim :: "string \<Rightarrow> bool" where
  "num_delim r \<longleftrightarrow> r = [] \<or> (\<not> is_digit (hd r) \<and> hd r \<notin> {CHR ''.'', CHR ''e'', CHR ''E''})"

definition json_delim :: "string \<Rightarrow> bool" where
  "json_delim r \<longleftrightarrow> r = [] \<or> hd r \<in> {CHR '','', CHR '']'', CHR ''}''}"

abbreviation json_roundtrips :: "jsval \<Rightarrow> bool" where
  "json_roundtrips v \<equiv> \<forall>n r. length (json_str v) < n \<longrightarrow> json_delim r \<longrightarrow>
     parse_value n (json_str v @ r) = Inr (json_norm v, r)"

abbreviation json_member :: "string \<times> jsval \<Rightarrow> string" where
  "json_member \<equiv> \<lambda>(k, v). json_quote k @ CHR '':'' # json_str v"

text \<open>
  A parse that did not run out of fuel and, when it succeeded, consumed at least
  one character: the measure behind the fuel bound of \<open>json_parse\<close>.
\<close>

definition consumes :: "json_error + (jsval \<times> string) \<Rightarrow> string \<Rightarrow> bool" where
  "consumes res s \<longleftrightarrow> res \<noteq> Inl JsonFuel \<and> (\<forall>v r. res = Inr (v, r) \<longrightarrow> length r < length s)"

section \<open>Lemmas\<close>

subsection \<open>String literals\<close>


lemma hex_val_hex_digit: "k < 16 \<Longrightarrow> hex_val (hex_digit k) = Some k"
proof -
  assume "k < 16"
  then have "k \<in> set [0..<16]" by simp
  then show ?thesis
    by (simp add: upt_rec hex_digit_def hex_val_def) (elim disjE; simp)
qed


lemma parse_chars_u:
  "hex_val a = Some p \<Longrightarrow> hex_val b = Some q \<Longrightarrow> hex_val c = Some r' \<Longrightarrow> hex_val d = Some s \<Longrightarrow>
   ((p * 16 + q) * 16 + r') * 16 + s < 128 \<Longrightarrow>
   parse_chars acc (BS # CHR ''u'' # a # b # c # d # r) =
   parse_chars (char_of (((p * 16 + q) * 16 + r') * 16 + s) # acc) r"
  by (simp add: short_escape_def)

lemma char_eq_of_char: "(of_char c :: nat) = n \<Longrightarrow> c = char_of n"
  by (metis char_of_char)


lemma ctrl_not_quote: "(of_char c :: nat) < 32 \<Longrightarrow> c \<noteq> DQ \<and> c \<noteq> BS"
  by auto

lemma ctrl_chars:
  "char_of (8::nat) = CHR 0x08" "char_of (9::nat) = CHR 0x09" "char_of (10::nat) = CHR 0x0A"
  "char_of (12::nat) = CHR 0x0C" "char_of (13::nat) = CHR 0x0D"
proof -
  have "(of_char (char_of (8::nat)) :: nat) = of_char (CHR 0x08)"
    "(of_char (char_of (9::nat)) :: nat) = of_char (CHR 0x09)"
    "(of_char (char_of (10::nat)) :: nat) = of_char (CHR 0x0A)"
    "(of_char (char_of (12::nat)) :: nat) = of_char (CHR 0x0C)"
    "(of_char (char_of (13::nat)) :: nat) = of_char (CHR 0x0D)"
    by simp_all
  then show "char_of (8::nat) = CHR 0x08" "char_of (9::nat) = CHR 0x09"
    "char_of (10::nat) = CHR 0x0A" "char_of (12::nat) = CHR 0x0C" "char_of (13::nat) = CHR 0x0D"
    by (simp_all only: of_char_eq_iff)
qed

lemma parse_chars_escape_char:
  "parse_chars acc (json_escape_char c @ r) = parse_chars (c # acc) r"
proof -
  let ?n = "of_char c :: nat"
  show ?thesis
  proof (cases "?n < 32")
    case False
    show ?thesis
    proof (cases "c = DQ \<or> c = BS")
      case True
      then show ?thesis by (auto simp: json_escape_char_def short_escape_def)
    next
      case nq: False
      then have "json_escape_char c = [c]" using False by (simp add: json_escape_char_def)
      with nq False show ?thesis by simp
    qed
  next
    case True
    note q = ctrl_not_quote [OF True]
    show ?thesis
    proof (cases "?n \<in> {8, 9, 10, 12, 13}")
      case True
      with q show ?thesis
        by (auto simp: json_escape_char_def short_escape_def ctrl_chars dest!: char_eq_of_char)
    next
      case False
      have u: "json_escape_char c =
          [BS, CHR ''u'', CHR ''0'', CHR ''0'', hex_digit (?n div 16), hex_digit (?n mod 16)]"
        using q False \<open>?n < 32\<close> by (simp add: json_escape_char_def Let_def)
      have h: "hex_val (hex_digit (?n div 16)) = Some (?n div 16)"
        "hex_val (hex_digit (?n mod 16)) = Some (?n mod 16)" "hex_val (CHR ''0'') = Some 0"
        using \<open>?n < 32\<close> by (simp add: hex_val_hex_digit, simp add: hex_val_hex_digit,
            simp add: hex_val_def)
      have e: "((0 * 16 + 0) * 16 + ?n div 16) * 16 + ?n mod 16 = ?n" by simp
      show ?thesis
        unfolding u using parse_chars_u [OF h(3) h(3) h(1) h(2), of acc r] \<open>?n < 32\<close>
        by (simp only: e append_Cons append_Nil char_of_char)
    qed
  qed
qed

lemma parse_chars_quote:
  "parse_chars acc (concat (map json_escape_char s) @ DQ # rest) = Inr (rev acc @ s, rest)"
  by (induction s arbitrary: acc) (simp_all add: parse_chars_escape_char)


lemma digits_val_snoc: "digits_val (xs @ [d]) = digits_val xs * 10 + (of_char d - 48)"
  by (simp add: digits_val_def)

lemma digits_val_nat_str: "digits_val (nat_str n) = n"
proof (induction n rule: nat_str.induct)
  case (1 n)
  show ?case
  proof (cases "n < 10")
    case True
    then show ?thesis by (simp add: nat_str.simps [of n] digits_val_def)
  next
    case False
    with "1.IH" show ?thesis by (simp add: nat_str.simps [of n] digits_val_snoc)
  qed
qed

lemma nat_str_hd_nonzero: "0 < n \<Longrightarrow> hd (nat_str n) \<noteq> CHR ''0''"
proof (induction n rule: nat_str.induct)
  case (1 n)
  show ?case
  proof (cases "n < 10")
    case True
    have "(of_char (char_of (48 + n)) :: nat) \<noteq> of_char (CHR ''0'')"
      using True "1.prems" by simp
    then show ?thesis using True by (auto simp: nat_str.simps [of n] simp del: of_char_of)
  next
    case False
    then have "0 < n div 10" by simp
    with "1.IH" False show ?thesis by (simp add: nat_str.simps [of n])
  qed
qed

lemma nat_str_no_leading_zero: "hd (nat_str n) = CHR ''0'' \<Longrightarrow> tl (nat_str n) = []"
proof (cases "n = 0")
  case True
  then show ?thesis by (simp add: nat_str.simps [of 0])
next
  case False
  moreover assume "hd (nat_str n) = CHR ''0''"
  ultimately show ?thesis using nat_str_hd_nonzero [of n] by simp
qed

lemma digit_span:
  assumes "num_delim r"
  shows "takeWhile is_digit (nat_str n @ r) = nat_str n" "dropWhile is_digit (nat_str n @ r) = r"
proof -
  have d: "\<And>x. x \<in> set (nat_str n) \<Longrightarrow> is_digit x" by (rule nat_str_digits)
  have "takeWhile is_digit r = []" "dropWhile is_digit r = r"
    using assms by (cases r; auto simp: num_delim_def)+
  then show "takeWhile is_digit (nat_str n @ r) = nat_str n" "dropWhile is_digit (nat_str n @ r) = r"
    using d by (simp_all add: takeWhile_append2 dropWhile_append2)
qed

lemma minus_not_digit: "\<not> is_digit (CHR ''-'')"
  by (simp add: is_digit_def)

lemma parse_number_nat_str:
  assumes "num_delim r"
  shows "parse_number (nat_str n @ r) = Inr (JNum (int n), r)"
proof -
  have h: "hd (nat_str n @ r) \<noteq> CHR ''-''"
    using nat_str_digits [of "hd (nat_str n)" n] minus_not_digit by auto
  have nz: "\<not> (hd (nat_str n) = CHR ''0'' \<and> tl (nat_str n) \<noteq> [])"
    using nat_str_no_leading_zero by blast
  show ?thesis
    using h nz assms
    by (auto simp: parse_number_def Let_def digit_span digits_val_nat_str num_delim_def)
qed

lemma parse_number_int_str:
  assumes "num_delim r"
  shows "parse_number (int_str i @ r) = Inr (JNum i, r)"
proof (cases "i < 0")
  case True
  have nz: "\<not> (hd (nat_str (nat (- i))) = CHR ''0'' \<and> tl (nat_str (nat (- i))) \<noteq> [])"
    using nat_str_no_leading_zero by blast
  show ?thesis
    using True nz assms
    by (auto simp: int_str_def parse_number_def Let_def digit_span digits_val_nat_str num_delim_def)
next
  case False
  then show ?thesis
    using parse_number_nat_str [OF assms, of "nat i"] by (simp add: int_str_def)
qed


lemma json_delim_num_delim: "json_delim r \<Longrightarrow> num_delim r"
  by (auto simp: json_delim_def num_delim_def is_digit_def)

lemma skip_ws_Cons: "\<not> is_ws c \<Longrightarrow> skip_ws (c # cs) = c # cs"
  by simp

lemma int_str_Cons: "int_str i = c # cs \<Longrightarrow> c = CHR ''-'' \<or> is_digit c"
proof (cases "i < 0")
  case True
  then show "int_str i = c # cs \<Longrightarrow> c = CHR ''-'' \<or> is_digit c" by (simp add: int_str_def)
next
  case False
  assume "int_str i = c # cs"
  with False have "c \<in> set (nat_str (nat i))" by (simp add: int_str_def)
  then show ?thesis by (simp add: nat_str_digits)
qed

lemma num_start_char:
  assumes "c = CHR ''-'' \<or> is_digit c"
  shows "\<not> is_ws c" "c \<noteq> CHR ''n''" "c \<noteq> CHR ''t''" "c \<noteq> CHR ''f''" "c \<noteq> DQ"
    "c \<noteq> CHR ''[''" "c \<noteq> CHR ''{''" "c \<noteq> CHR '']''" "c \<noteq> CHR ''}''"
  using assms unfolding is_digit_def is_ws_def by auto

lemma json_str_Cons:
  obtains c cs where "json_str v = c # cs" "\<not> is_ws c" "c \<noteq> CHR '']''" "c \<noteq> CHR ''}''"
proof (cases v)
  case (JNum i)
  have "int_str i \<noteq> []" by (simp add: int_str_def)
  then obtain c cs where ic: "int_str i = c # cs" by (cases "int_str i") auto
  note n = num_start_char [OF int_str_Cons [OF ic]]
  show ?thesis using that [of c cs] n JNum ic by simp
next
  case (JBool b)
  then show ?thesis using that by (cases b) (simp_all add: is_ws_def)
next
  case (JStr s)
  then show ?thesis using that by (simp add: is_ws_def json_quote_def)
qed (use that in \<open>simp_all add: is_ws_def\<close>)

lemma json_str_nonempty: "json_str v \<noteq> []"
  by (rule json_str_Cons [of v]) simp


subsection \<open>The round trip\<close>


lemma parse_elems_json:
  assumes "\<And>v. v \<in> set vs \<Longrightarrow> json_roundtrips v" and "vs \<noteq> []"
    and "Suc (length (join_with (CHR '','') (map json_str vs))) < n"
  shows "parse_elems n acc (join_with (CHR '','') (map json_str vs) @ CHR '']'' # r) =
           Inr (JArr (rev acc @ map json_norm vs), r)"
  using assms
proof (induction vs arbitrary: n acc)
  case Nil
  then show ?case by simp
next
  case (Cons v vs)
  obtain m where n: "n = Suc m" using Cons.prems(3) by (cases n) auto
  have ne: "json_str v \<noteq> []" by (rule json_str_nonempty)
  show ?case
  proof (cases "vs = []")
    case True
    have "length (json_str v) < m" using Cons.prems(3) n True by simp
    moreover have "json_delim (CHR '']'' # r)" by (simp add: json_delim_def)
    ultimately have "parse_value m (json_str v @ CHR '']'' # r) = Inr (json_norm v, CHR '']'' # r)"
      using Cons.prems(1) by simp
    with n True show ?thesis by (simp add: is_ws_def)
  next
    case False
    let ?j = "join_with (CHR '','') (map json_str vs)"
    have j: "join_with (CHR '','') (map json_str (v # vs)) = json_str v @ CHR '','' # ?j"
      using False by (simp add: join_with_cons_nonempty)
    have "length (json_str v) < m" using Cons.prems(3) n j by simp
    moreover have "json_delim (CHR '','' # ?j @ CHR '']'' # r)" by (simp add: json_delim_def)
    ultimately have pv: "parse_value m (json_str v @ CHR '','' # ?j @ CHR '']'' # r) =
        Inr (json_norm v, CHR '','' # ?j @ CHR '']'' # r)"
      using Cons.prems(1) by simp
    have "Suc (length ?j) < m" using Cons.prems(3) n j ne by (cases "json_str v") auto
    then have "parse_elems m (json_norm v # acc) (?j @ CHR '']'' # r) =
        Inr (JArr (rev (json_norm v # acc) @ map json_norm vs), r)"
      using Cons.IH Cons.prems(1) False by simp
    with n j pv show ?thesis by (simp add: is_ws_def)
  qed
qed

lemma parse_members_json:
  assumes "\<And>k v. (k, v) \<in> set kvs \<Longrightarrow> json_roundtrips v" and "kvs \<noteq> []"
    and "Suc (length (join_with (CHR '','') (map json_member kvs))) < n"
  shows "parse_members n acc (join_with (CHR '','') (map json_member kvs) @ CHR ''}'' # r) =
           Inr (JObj (rev acc @ map (\<lambda>(k, v). (k, json_norm v)) kvs), r)"
  using assms
proof (induction kvs arbitrary: n acc)
  case Nil
  then show ?case by simp
next
  case (Cons kv kvs)
  obtain k v where kv: "kv = (k, v)" by (cases kv)
  obtain m where n: "n = Suc m" using Cons.prems(3) by (cases n) auto
  let ?q = "concat (map json_escape_char k)"
  have mem: "json_member kv = DQ # ?q @ DQ # CHR '':'' # json_str v"
    by (simp add: kv json_quote_def)
  have rt: "json_roundtrips v" using Cons.prems(1) [of k v] kv by simp
  show ?case
  proof (cases "kvs = []")
    case True
    let ?r = "CHR ''}'' # r"
    have "length (json_str v) < m" using Cons.prems(3) n True mem by simp
    moreover have "json_delim ?r" by (simp add: json_delim_def)
    ultimately have pv: "parse_value m (json_str v @ ?r) = Inr (json_norm v, ?r)"
      using rt by simp
    have pc: "parse_chars [] (?q @ DQ # CHR '':'' # json_str v @ ?r) = Inr (k, CHR '':'' # json_str v @ ?r)"
      using parse_chars_quote [of "[]" k] by simp
    show ?thesis using True n pv pc by (simp add: json_quote_def is_ws_def kv)
  next
    case False
    let ?j = "join_with (CHR '','') (map json_member kvs)"
    let ?r = "CHR '','' # ?j @ CHR ''}'' # r"
    have j: "join_with (CHR '','') (map json_member (kv # kvs)) = json_member kv @ CHR '','' # ?j"
      using False by (simp add: join_with_cons_nonempty)
    have "length (json_str v) < m" using Cons.prems(3) n j mem by simp
    moreover have "json_delim ?r" by (simp add: json_delim_def)
    ultimately have pv: "parse_value m (json_str v @ ?r) = Inr (json_norm v, ?r)"
      using rt by simp
    have pc: "parse_chars [] (?q @ DQ # CHR '':'' # json_str v @ ?r) = Inr (k, CHR '':'' # json_str v @ ?r)"
      using parse_chars_quote [of "[]" k] by simp
    have "Suc (length ?j) < m" using Cons.prems(3) n j mem by simp
    moreover have pre: "\<And>k' v'. (k', v') \<in> set kvs \<Longrightarrow> json_roundtrips v'"
      using Cons.prems(1) by (metis list.set_intros(2))
    ultimately have "parse_members m ((k, json_norm v) # acc) (?j @ CHR ''}'' # r) =
        Inr (JObj (rev ((k, json_norm v) # acc) @ map (\<lambda>(k, v). (k, json_norm v)) kvs), r)"
      using Cons.IH [OF pre False] by simp
    then show ?thesis using n pv pc j by (simp add: json_quote_def is_ws_def kv)
  qed
qed

lemma roundtrips_intro:
  "(\<And>m r. length (json_str v) \<le> m \<Longrightarrow> json_delim r \<Longrightarrow>
      parse_value (Suc m) (json_str v @ r) = Inr (json_norm v, r)) \<Longrightarrow> json_roundtrips v"
proof (intro allI impI)
  fix n r
  assume h: "\<And>m r. length (json_str v) \<le> m \<Longrightarrow> json_delim r \<Longrightarrow>
      parse_value (Suc m) (json_str v @ r) = Inr (json_norm v, r)"
    and "length (json_str v) < n" "json_delim r"
  then show "parse_value n (json_str v @ r) = Inr (json_norm v, r)"
    by (cases n) auto
qed

lemma join_json_Cons:
  assumes "vs \<noteq> []" "\<And>x. x \<in> set vs \<Longrightarrow> f x = json_str x"
  obtains c cs where "join_with (CHR '','') (map f vs) = c # cs" "\<not> is_ws c" "c \<noteq> CHR '']''"
proof -
  obtain v vs' where vs: "vs = v # vs'" using assms(1) by (cases vs) auto
  obtain c cs where "json_str v = c # cs" "\<not> is_ws c" "c \<noteq> CHR '']''"
    by (rule json_str_Cons [of v]) simp
  moreover have "f v = json_str v" using assms(2) vs by simp
  ultimately show ?thesis using that vs by (cases vs') auto
qed

lemma parse_value_json_str: "json_roundtrips v"
proof (induction v)
  case JUndef
  show ?case by (rule roundtrips_intro) (simp add: is_ws_def)
next
  case JNull
  show ?case by (rule roundtrips_intro) (simp add: is_ws_def)
next
  case (JBool b)
  show ?case by (rule roundtrips_intro) (cases b; simp add: is_ws_def)
next
  case (JNum i)
  show ?case
  proof (rule roundtrips_intro)
    fix m r
    assume "json_delim r"
    have "int_str i \<noteq> []" by (simp add: int_str_def)
    then obtain c cs where ic: "int_str i = c # cs" by (cases "int_str i") auto
    note n = num_start_char [OF int_str_Cons [OF ic]]
    have "parse_value (Suc m) (int_str i @ r) = parse_number (int_str i @ r)"
      unfolding ic using n int_str_Cons [OF ic] by simp
    also have "\<dots> = Inr (JNum i, r)"
      by (rule parse_number_int_str) (rule json_delim_num_delim [OF \<open>json_delim r\<close>])
    finally show "parse_value (Suc m) (json_str (JNum i) @ r) = Inr (json_norm (JNum i), r)"
      by simp
  qed
next
  case (JStr s)
  show ?case
    by (rule roundtrips_intro) (simp add: is_ws_def json_quote_def parse_chars_quote)
next
  case (JArr vs)
  show ?case
  proof (rule roundtrips_intro)
    fix m r
    assume len: "length (json_str (JArr vs)) \<le> m"
    let ?j = "join_with (CHR '','') (map json_str vs)"
    show "parse_value (Suc m) (json_str (JArr vs) @ r) = Inr (json_norm (JArr vs), r)"
    proof (cases "vs = []")
      case True
      then show ?thesis by (simp add: is_ws_def)
    next
      case False
      obtain c cs where jc: "?j = c # cs" "\<not> is_ws c" "c \<noteq> CHR '']''"
        by (rule join_json_Cons [OF False]) simp
      have "parse_elems m [] (?j @ CHR '']'' # r) = Inr (JArr (rev [] @ map json_norm vs), r)"
        by (rule parse_elems_json) (use JArr.IH False len in auto)
      then show ?thesis using jc by (simp add: is_ws_def)
    qed
  qed
next
  case (JObj kvs)
  show ?case
  proof (rule roundtrips_intro)
    fix m r
    assume len: "length (json_str (JObj kvs)) \<le> m"
    let ?fs = "filter (\<lambda>(k, v). v \<noteq> JUndef) kvs"
    let ?j = "join_with (CHR '','') (map json_member ?fs)"
    show "parse_value (Suc m) (json_str (JObj kvs) @ r) = Inr (json_norm (JObj kvs), r)"
    proof (cases "?fs = []")
      case True
      then show ?thesis by (simp add: is_ws_def)
    next
      case False
      then obtain k v fs' where fs: "?fs = (k, v) # fs'" by (cases ?fs) auto
      have jc: "?j = DQ # concat (map json_escape_char k) @ DQ # CHR '':'' # json_str v @
                  (if fs' = [] then [] else CHR '','' # join_with (CHR '','') (map json_member fs'))"
        by (simp add: fs json_quote_def join_with_cons_nonempty)
      have ih: "\<And>k v. (k, v) \<in> set ?fs \<Longrightarrow> json_roundtrips v"
        using JObj.IH by fastforce
      have "parse_members m [] (?j @ CHR ''}'' # r) =
          Inr (JObj (rev [] @ map (\<lambda>(k, v). (k, json_norm v)) ?fs), r)"
        by (rule parse_members_json) (use ih False len in auto)
      then show ?thesis using jc by (simp add: is_ws_def)
    qed
  qed
qed

theorem json_parse_json_str: "json_parse (json_str v) = Inr (json_norm v)"
proof -
  have "parse_value (Suc (2 * length (json_str v))) (json_str v @ []) = Inr (json_norm v, [])"
    using parse_value_json_str [of v, rule_format, of "Suc (2 * length (json_str v))" "[]"]
    by (simp add: json_delim_def del: parse_value.simps)
  then show ?thesis by (simp add: json_parse_def del: parse_value.simps)
qed

section \<open>Fuel\<close>

lemma length_skip_ws: "length (skip_ws s) \<le> length s"
  by (induction s) auto

lemma parse_chars_shorter: "parse_chars acc s = Inr (x, r) \<Longrightarrow> length r < length s"
proof (induction acc s arbitrary: x r rule: parse_chars.induct)
  case (1 acc)
  then show ?case by simp
next
  case (2 acc c cs)
  show ?case
  proof (cases "c = DQ")
    case True
    then show ?thesis using "2.prems" by simp
  next
    case nq: False
    show ?thesis
    proof (cases "c = BS")
      case bs: True
      then obtain e rest where cs: "cs = e # rest" using "2.prems" nq by (cases cs) auto
      show ?thesis
      proof (cases "short_escape e")
        case (Some y)
        then have "parse_chars (y # acc) rest = Inr (x, r)" using "2.prems" nq bs cs by simp
        then show ?thesis using "2.IH"(2) [OF nq bs cs Some] cs by fastforce
      next
        case None
        then obtain a b c' d rest' p q u w where
          u: "e = CHR ''u''" "rest = a # b # c' # d # rest'"
          and h: "hex_val a = Some p" "hex_val b = Some q" "hex_val c' = Some u" "hex_val d = Some w"
          and lt: "((p * 16 + q) * 16 + u) * 16 + w < 128"
          and pc: "parse_chars (char_of (((p * 16 + q) * 16 + u) * 16 + w) # acc) rest' = Inr (x, r)"
          using "2.prems" nq bs cs
          by (auto simp: Let_def split: if_splits list.splits option.splits)
        have "length r < length rest'"
          by (rule "2.IH"(1) [OF nq bs cs None u(1) u(2) HOL.refl HOL.refl HOL.refl HOL.refl h(1) HOL.refl h(2)
                HOL.refl h(3) h(4) HOL.refl lt pc])
        then show ?thesis using cs u by simp
      qed
    next
      case nb: False
      then have "\<not> (of_char c :: nat) < 32" and "parse_chars (c # acc) cs = Inr (x, r)"
        using "2.prems" nq by (auto split: if_splits)
      then show ?thesis using "2.IH"(3) [OF nq nb] by fastforce
    qed
  qed
qed

lemma parse_number_shorter: "parse_number s = Inr (v, r) \<Longrightarrow> length r < length s"
proof -
  assume p: "parse_number s = Inr (v, r)"
  let ?s1 = "if s \<noteq> [] \<and> hd s = CHR ''-'' then tl s else s"
  have r: "r = dropWhile is_digit ?s1" and ne: "takeWhile is_digit ?s1 \<noteq> []"
    using p by (auto simp: parse_number_def Let_def split: if_splits)
  have "length (dropWhile is_digit ?s1) < length ?s1"
    using ne by (metis length_append less_add_same_cancel2 length_greater_0_conv takeWhile_dropWhile_id)
  moreover have "length ?s1 \<le> length s" by auto
  ultimately show ?thesis using r by simp
qed

lemma parse_chars_not_fuel: "parse_chars acc s \<noteq> Inl JsonFuel"
proof (induction acc s rule: parse_chars.induct)
  case (2 acc c cs)
  show ?case
  proof (cases "c = DQ \<or> c \<noteq> BS")
    case True
    then show ?thesis using "2.IH"(3) by auto
  next
    case False
    then have nq: "c \<noteq> DQ" and bs: "c = BS" by auto
    show ?thesis
    proof (cases cs)
      case Nil
      then show ?thesis using bs nq by simp
    next
      case cs: (Cons e rest)
      show ?thesis
      proof (cases "short_escape e")
        case (Some y)
        then show ?thesis using "2.IH"(2) [OF nq bs cs Some] nq bs cs by simp
      next
        case None
        have "(case rest of a # b # c # d # rest' \<Rightarrow>
                 (case (hex_val a, hex_val b, hex_val c, hex_val d) of
                    (Some p, Some q, Some r, Some s) \<Rightarrow>
                      (let n = ((p * 16 + q) * 16 + r) * 16 + s in
                       if n < 128 then parse_chars (char_of n # acc) rest' else Inl JsonUnsupported)
                  | _ \<Rightarrow> Inl JsonSyntax)
               | _ \<Rightarrow> Inl JsonSyntax) \<noteq> Inl JsonFuel" if u: "e = CHR ''u''"
          using "2.IH"(1) [OF nq bs cs None u]
          by (auto simp: Let_def split: list.split option.split)
        then show ?thesis using nq bs cs None by auto
      qed
    qed
  qed
qed simp

lemma parse_number_not_fuel: "parse_number s \<noteq> Inl JsonFuel"
  by (simp add: parse_number_def Let_def)

lemma consumes_mono: "consumes res s' \<Longrightarrow> length s' \<le> length s \<Longrightarrow> consumes res s"
  by (auto simp: consumes_def)

lemma consumes_if: "consumes a s \<Longrightarrow> consumes b s \<Longrightarrow> consumes (if P then a else b) s"
  by simp

lemma consumes_Inr: "length r < length s \<Longrightarrow> consumes (Inr (v, r)) s"
  by (simp add: consumes_def)

lemma consumes_Inl: "e \<noteq> JsonFuel \<Longrightarrow> consumes (Inl e) s"
  by (simp add: consumes_def)

lemma skip_ws_Cons_shorter: "skip_ws s = c # cs \<Longrightarrow> length cs < length s"
  using length_skip_ws [of s] by simp

lemma parse_fuel:
  "(2 * length s < n \<longrightarrow> consumes (parse_value n s) s) \<and>
   (2 * length s + 1 < n \<longrightarrow> consumes (parse_elems n acc s) s) \<and>
   (2 * length s + 1 < n \<longrightarrow> consumes (parse_members n acc' s) s)"
proof (induction n arbitrary: s acc acc')
  case 0
  then show ?case by simp
next
  case (Suc n)
  have val: "consumes (parse_value (Suc n) s) s" if "2 * length s < Suc n"
  proof (cases "skip_ws s")
    case Nil
    then show ?thesis by (simp add: consumes_def)
  next
    case (Cons c cs)
    have cs: "length cs < length s" using skip_ws_Cons_shorter [OF Cons] .
    have "consumes (parse_elems n [] cs) cs \<and> consumes (parse_members n [] cs) cs"
      using Suc.IH [of cs "[]" "[]"] cs that by simp
    then have e: "consumes (parse_elems n [] cs) s" and m: "consumes (parse_members n [] cs) s"
      using cs by (auto intro: consumes_mono)
    have str: "length r < length s" if "parse_chars [] cs = Inr (x, r)" for x r
      using parse_chars_shorter [OF that] cs by simp
    have num: "length r < length s" if "parse_number (c # cs) = Inr (x, r)" for x r
      using parse_number_shorter [OF that] cs by simp
    have ws: "length ds < length s" if "skip_ws cs = d # ds" for d ds
      using skip_ws_Cons_shorter [OF that] cs by simp
    have d: "length (drop k cs) < length s" for k using cs by simp
    have q: "consumes (case parse_chars [] cs of Inl e \<Rightarrow> Inl e | Inr (str, r) \<Rightarrow> Inr (JStr str, r)) s"
      using str parse_chars_not_fuel [of "[]" cs]
      by (cases "parse_chars [] cs") (auto simp: consumes_def)
    have a: "consumes (case skip_ws cs of d # ds \<Rightarrow> if d = CHR '']'' then Inr (JArr [], ds) else parse_elems n [] cs
                        | [] \<Rightarrow> Inl JsonSyntax) s"
      using ws e by (cases "skip_ws cs") (auto simp: consumes_def)
    have o: "consumes (case skip_ws cs of d # ds \<Rightarrow> if d = CHR ''}'' then Inr (JObj [], ds) else parse_members n [] cs
                        | [] \<Rightarrow> Inl JsonSyntax) s"
      using ws m by (cases "skip_ws cs") (auto simp: consumes_def)
    have nm: "consumes (parse_number (c # cs)) s"
      using num parse_number_not_fuel [of "c # cs"] by (cases "parse_number (c # cs)") (auto simp: consumes_def)
    show ?thesis
      unfolding parse_value.simps(2) Cons list.case
      by (intro consumes_if q a o nm consumes_Inr consumes_Inl d) simp_all
  qed
  have elems: "consumes (parse_elems (Suc n) acc s) s" if "2 * length s + 1 < Suc n"
  proof (cases "parse_value n s")
    case (Inl e)
    then show ?thesis using Suc.IH [of s] that by (simp add: consumes_def)
  next
    case (Inr p)
    then obtain v r where p: "parse_value n s = Inr (v, r)" by (cases p) auto
    then have r: "length r < length s" using Suc.IH [of s] that by (auto simp: consumes_def)
    show ?thesis
    proof (cases "skip_ws r")
      case Nil
      then show ?thesis using p by (simp add: consumes_def)
    next
      case (Cons d ds)
      have ds: "length ds < length s" using skip_ws_Cons_shorter [OF Cons] r by simp
      have "consumes (parse_elems n (v # acc) ds) ds" using Suc.IH [of ds "v # acc"] that ds by simp
      then have "consumes (parse_elems n (v # acc) ds) s" using ds by (simp add: consumes_mono)
      then show ?thesis using p Cons ds
        by (auto simp: consumes_def)
    qed
  qed
  have members: "consumes (parse_members (Suc n) acc' s) s" if "2 * length s + 1 < Suc n"
  proof (cases "skip_ws s")
    case Nil
    then show ?thesis by (simp add: consumes_def)
  next
    case (Cons d ds)
    have ds: "length ds < length s" using skip_ws_Cons_shorter [OF Cons] .
    show ?thesis
    proof (cases "d \<noteq> DQ \<or> (\<exists>e. parse_chars [] ds = Inl e)")
      case True
      then show ?thesis using Cons parse_chars_not_fuel [of "[]" ds] by (auto simp: consumes_def)
    next
      case False
      then obtain k r where d: "d = DQ" and k: "parse_chars [] ds = Inr (k, r)"
        by (cases "parse_chars [] ds") auto
      have r: "length r < length s" using parse_chars_shorter [OF k] ds by simp
      show ?thesis
      proof (cases "skip_ws r")
        case Nil
        then show ?thesis using Cons d k by (simp add: consumes_def)
      next
        case (Cons e es)
        have es: "length es < length s" using skip_ws_Cons_shorter [OF Cons] r by simp
        have val: "consumes (parse_value n es) es" using Suc.IH [of es] es that by simp
        show ?thesis
        proof (cases "e \<noteq> CHR '':'' \<or> (\<exists>err. parse_value n es = Inl err)")
          case True
          then show ?thesis using \<open>skip_ws s = d # ds\<close> d k Cons val by (auto simp: consumes_def)
        next
          case False
          then obtain v r' where c: "e = CHR '':''" and v: "parse_value n es = Inr (v, r')"
            by (cases "parse_value n es") auto
          have r': "length r' < length s" using val v es by (simp add: consumes_def)
          show ?thesis
          proof (cases "skip_ws r'")
            case Nil
            then show ?thesis using \<open>skip_ws s = d # ds\<close> d k Cons c v by (simp add: consumes_def)
          next
            case fs: (Cons f fs)
            have "length fs < length s" using skip_ws_Cons_shorter [OF fs] r' by simp
            then have "consumes (parse_members n ((k, v) # acc') fs) fs"
              using Suc.IH [of fs _ "(k, v) # acc'"] that by simp
            then have "consumes (parse_members n ((k, v) # acc') fs) s"
              using \<open>length fs < length s\<close> by (simp add: consumes_mono)
            then show ?thesis using \<open>skip_ws s = d # ds\<close> d k Cons c v fs \<open>length fs < length s\<close>
              by (auto simp: consumes_def)
          qed
        qed
      qed
    qed
  qed
  show ?case using val elems members by blast
qed

lemma json_parse_not_fuel: "json_parse s \<noteq> Inl JsonFuel"
proof -
  have "consumes (parse_value (Suc (2 * length s)) s) s"
    using parse_fuel [where s = s and n = "Suc (2 * length s)"] by (simp del: parse_value.simps)
  then show ?thesis
    by (auto simp: json_parse_def consumes_def split: sum.splits prod.splits simp del: parse_value.simps)
qed

end
