(* ===== verification/Jwt.thy ===== *)
theory Jwt
  imports Encoding Json
begin

text \<open>
  The token library the code calls: \<^verbatim>\<open>jwt.sign(payload, "MY_SECRET_TOKEN")\<close>
  at \<^verbatim>\<open>src/index.js\<close> line 102 and \<^verbatim>\<open>jwt.verify(jwtToken, "MY_SECRET_TOKEN", cb)\<close>
  at line 46, as the \<^verbatim>\<open>jsonwebtoken\<close> package (with \<^verbatim>\<open>jws\<close> and
  \<^verbatim>\<open>jwa\<close>) does them without options.  Signing adds the claim \<^verbatim>\<open>iat\<close>
  (the current time in seconds) to the payload, writes header and payload as
  JSON, encodes both with base64url, and appends the base64url HMAC of the two
  segments joined by a dot.  Verification checks, in this order: a non-empty
  string, three dot-separated segments, the segments' alphabet, a truthy JSON
  header, the payload's JSON, a non-empty signature, an \<^verbatim>\<open>HS*\<close> algorithm,
  the signature, then \<^verbatim>\<open>nbf\<close> and \<^verbatim>\<open>exp\<close> against the clock.  The HMAC
  itself is the parameter \<open>mac\<close> (algorithm name, key, message to digest
  bytes); no property of it is assumed beyond a non-empty digest where a
  lemma needs one.
\<close>

type_synonym hmac = "string \<Rightarrow> string \<Rightarrow> string \<Rightarrow> string"

datatype jwt_error =
    JwtMustBeProvided
  | JwtMalformed
  | JwtInvalidToken
  | JwtSignatureRequired
  | JwtInvalidAlgorithm
  | JwtInvalidSignature
  | JwtInvalidNbf
  | JwtNotActive
  | JwtInvalidExp
  | JwtExpired
  | JwtUnsupportedJson

section \<open>Signing\<close>

definition b64url :: "string \<Rightarrow> string" where
  "b64url s = b64_encode b64url_alphabet s"

definition b64url_decode :: "string \<Rightarrow> string" where
  "b64url_decode s = b64_decode b64url_alphabet s"

text \<open>The header jsonwebtoken builds: \<^verbatim>\<open>{alg: 'HS256', typ: 'JWT', kid: undefined}\<close>.\<close>

definition jwt_header :: jsval where
  "jwt_header = JObj [(''alg'', JStr ''HS256''), (''typ'', JStr ''JWT''), (''kid'', JUndef)]"

text \<open>\<^verbatim>\<open>jws.sign\<close>: the signing input and its HMAC.\<close>

definition jws_sign :: "hmac \<Rightarrow> string \<Rightarrow> jsval \<Rightarrow> jsval \<Rightarrow> string \<Rightarrow> string" where
  "jws_sign mac alg header payload secret =
     (let input = b64url (json_str header) @ CHR ''.'' # b64url (json_str payload)
      in input @ CHR ''.'' # b64url (mac alg secret input))"

text \<open>
  \<^verbatim>\<open>jwt.sign(payload, secret)\<close> for an object payload at time \<open>now\<close>:
  \<^verbatim>\<open>payload.iat = payload.iat || now\<close>, then \<^verbatim>\<open>HS256\<close>.
\<close>

definition jwt_payload :: "jsobj \<Rightarrow> nat \<Rightarrow> jsval" where
  "jwt_payload kvs now =
     (let iat = js_prop (JObj kvs) ''iat''
      in JObj (js_set_prop kvs ''iat'' (if js_truthy iat then iat else JNum (int now))))"

definition jwt_sign :: "hmac \<Rightarrow> jsobj \<Rightarrow> string \<Rightarrow> nat \<Rightarrow> string" where
  "jwt_sign mac kvs secret now = jws_sign mac ''HS256'' jwt_header (jwt_payload kvs now) secret"

section \<open>Verification\<close>

definition b64url_chars :: "string \<Rightarrow> bool" where
  "b64url_chars s \<longleftrightarrow> set s \<subseteq> set b64url_alphabet"

text \<open>
  \<^verbatim>\<open>jws\<close>'s shape check
  \<^verbatim>\<open>/^[a-zA-Z0-9\-_]+?\.[a-zA-Z0-9\-_]+?\.([a-zA-Z0-9\-_]+)?$/\<close> on the three
  segments.
\<close>

definition jws_shape :: "string \<Rightarrow> string \<Rightarrow> string \<Rightarrow> bool" where
  "jws_shape h p s \<longleftrightarrow> h \<noteq> [] \<and> p \<noteq> [] \<and> b64url_chars h \<and> b64url_chars p \<and> b64url_chars s"

definition json_failure :: "json_error \<Rightarrow> jwt_error" where
  "json_failure e = (if e = JsonUnsupported then JwtUnsupportedJson else JwtInvalidToken)"

text \<open>
  \<^verbatim>\<open>jws.decode\<close> and jsonwebtoken's \<^verbatim>\<open>decode\<close>: the header must parse to a
  truthy value; with \<^verbatim>\<open>typ: 'JWT'\<close> the payload must parse, otherwise it is
  kept as text unless it parses to an object.
\<close>

definition jwt_decode :: "string \<Rightarrow> string \<Rightarrow> jwt_error + (jsval \<times> jsval)" where
  "jwt_decode h p =
     (case json_parse (b64url_decode h) of
        Inl e \<Rightarrow> Inl (json_failure e)
      | Inr hdr \<Rightarrow>
         if \<not> js_truthy hdr then Inl JwtInvalidToken
         else if js_prop hdr ''typ'' = JStr ''JWT'' then
           (case json_parse (b64url_decode p) of
              Inl e \<Rightarrow> Inl (json_failure e)
            | Inr pl \<Rightarrow> Inr (hdr, pl))
         else
           (case json_parse (b64url_decode p) of
              Inr (JObj kvs) \<Rightarrow> Inr (hdr, JObj kvs)
            | Inr (JArr vs) \<Rightarrow> Inr (hdr, JArr vs)
            | Inl JsonUnsupported \<Rightarrow> Inl JwtUnsupportedJson
            | _ \<Rightarrow> Inr (hdr, JStr (b64url_decode p))))"

text \<open>The time claims, against the clock in seconds.\<close>

definition check_nbf :: "jsval \<Rightarrow> nat \<Rightarrow> jwt_error option" where
  "check_nbf pl now =
     (case js_prop pl ''nbf'' of
        JUndef \<Rightarrow> None
      | JNum n \<Rightarrow> if int now < n then Some JwtNotActive else None
      | _ \<Rightarrow> Some JwtInvalidNbf)"

definition check_exp :: "jsval \<Rightarrow> nat \<Rightarrow> jwt_error option" where
  "check_exp pl now =
     (case js_prop pl ''exp'' of
        JUndef \<Rightarrow> None
      | JNum e \<Rightarrow> if e \<le> int now then Some JwtExpired else None
      | _ \<Rightarrow> Some JwtInvalidExp)"

definition jwt_check_times :: "jsval \<Rightarrow> nat \<Rightarrow> jwt_error + jsval" where
  "jwt_check_times pl now =
     (case check_nbf pl now of
        Some e \<Rightarrow> Inl e
      | None \<Rightarrow> (case check_exp pl now of Some e \<Rightarrow> Inl e | None \<Rightarrow> Inr pl))"

definition hs_algs :: "jsval set" where
  "hs_algs = {JStr ''HS256'', JStr ''HS384'', JStr ''HS512''}"

text \<open>\<^verbatim>\<open>jwt.verify(token, secret, callback)\<close>: \<open>Inl\<close> is the error the callback gets.\<close>

definition jwt_verify :: "hmac \<Rightarrow> string \<Rightarrow> string \<Rightarrow> nat \<Rightarrow> jwt_error + jsval" where
  "jwt_verify mac tok secret now =
     (if tok = [] then Inl JwtMustBeProvided
      else
        let parts = js_split (CHR ''.'') tok in
        if length parts \<noteq> 3 then Inl JwtMalformed
        else
          let h = parts ! 0; p = parts ! 1; s = parts ! 2 in
          if \<not> jws_shape h p s then Inl JwtInvalidToken
          else
            (case jwt_decode h p of
               Inl e \<Rightarrow> Inl e
             | Inr (hdr, pl) \<Rightarrow>
                if s = [] then Inl JwtSignatureRequired
                else if js_prop hdr ''alg'' \<notin> hs_algs then Inl JwtInvalidAlgorithm
                else if s \<noteq> b64url (mac (js_to_string (js_prop hdr ''alg'')) secret (h @ CHR ''.'' # p))
                then Inl JwtInvalidSignature
                else jwt_check_times pl now))"

section \<open>Lemmas\<close>


lemma dot_notin_b64url: "CHR ''.'' \<notin> set (b64url s)"
proof -
  have "set (b64url s) \<subseteq> set b64url_alphabet"
    unfolding b64url_def by (rule b64_encode_chars) simp
  moreover have "CHR ''.'' \<notin> set b64url_alphabet" by (simp add: b64url_alphabet_def)
  ultimately show ?thesis by blast
qed

lemma b64url_chars_b64url: "b64url_chars (b64url s)"
  unfolding b64url_chars_def b64url_def by (rule b64_encode_chars) simp

lemma b64url_nonempty: "s \<noteq> [] \<Longrightarrow> b64url s \<noteq> []"
proof -
  assume "s \<noteq> []"
  then have "0 < (4 * length s + 2) div 3" by (cases s) auto
  then show ?thesis by (metis b64url_def length_b64_encode list.size(3) less_irrefl)
qed

lemma b64url_decode_b64url [simp]: "b64url_decode (b64url s) = s"
  by (simp add: b64url_def b64url_decode_def b64_decode_encode)

lemma split_token:
  "js_split (CHR ''.'') (b64url a @ CHR ''.'' # b64url b @ CHR ''.'' # b64url c) = [b64url a, b64url b, b64url c]"
  by (simp add: js_split_sep js_split_no_sep dot_notin_b64url)

lemma js_prop_norm_absent:
  assumes "k \<notin> fst ` set kvs"
  shows "js_prop (json_norm (JObj kvs)) k = JUndef"
proof -
  let ?l = "map (\<lambda>(k, v). (k, json_norm v)) (filter (\<lambda>(k, v). v \<noteq> JUndef) kvs)"
  have "k \<notin> fst ` set (rev ?l)" using assms by force
  then have "map_of (rev ?l) k = None" by (simp add: map_of_eq_None_iff)
  then show ?thesis by (simp add: js_prop_def)
qed

lemma keys_set_prop: "fst ` set (js_set_prop kvs k v) = insert k (fst ` set kvs)"
proof (cases "k \<in> fst ` set kvs")
  case True
  have "fst \<circ> (\<lambda>(k', v'). if k' = k then (k', v) else (k', v')) = fst"
    by (auto simp: fun_eq_iff)
  then have "fst ` set (js_set_prop kvs k v) = fst ` set kvs"
    using True by (simp add: js_set_prop_def image_comp)
  with True show ?thesis by blast
next
  case False
  then show ?thesis by (simp add: js_set_prop_def)
qed

lemma jwt_header_norm: "json_norm jwt_header = JObj [(''alg'', JStr ''HS256''), (''typ'', JStr ''JWT'')]"
  by (simp add: jwt_header_def)

lemma jwt_verify_jws_sign:
  assumes mac: "mac ''HS256'' secret (b64url (json_str jwt_header) @ CHR ''.'' # b64url (json_str pl)) \<noteq> []"
    and nbf: "js_prop (json_norm pl) ''nbf'' = JUndef" and exp: "js_prop (json_norm pl) ''exp'' = JUndef"
  shows "jwt_verify mac (jws_sign mac ''HS256'' jwt_header pl secret) secret now' = Inr (json_norm pl)"
proof -
  let ?H = "b64url (json_str jwt_header)" and ?P = "b64url (json_str pl)"
  let ?S = "b64url (mac ''HS256'' secret (?H @ CHR ''.'' # ?P))"
  have tok: "jws_sign mac ''HS256'' jwt_header pl secret = ?H @ CHR ''.'' # ?P @ CHR ''.'' # ?S"
    by (simp add: jws_sign_def Let_def)
  have shape: "jws_shape ?H ?P ?S"
    by (simp add: jws_shape_def b64url_chars_b64url b64url_nonempty json_str_nonempty)
  have dec: "jwt_decode ?H ?P = Inr (json_norm jwt_header, json_norm pl)"
    by (simp add: jwt_decode_def json_parse_json_str jwt_header_norm js_prop_def)
  have s: "?S \<noteq> []" using mac by (simp add: b64url_nonempty)
  have alg: "js_prop (json_norm jwt_header) ''alg'' = JStr ''HS256''"
    by (simp add: jwt_header_norm js_prop_def)
  have times: "jwt_check_times (json_norm pl) now' = Inr (json_norm pl)"
    by (simp add: jwt_check_times_def check_nbf_def check_exp_def nbf exp)
  show ?thesis
    unfolding jwt_verify_def tok split_token
    using shape dec s alg times by (simp add: hs_algs_def)
qed


theorem jwt_verify_sign:
  assumes mac: "\<And>k m. mac ''HS256'' k m \<noteq> []"
    and keys: "''nbf'' \<notin> fst ` set kvs" "''exp'' \<notin> fst ` set kvs"
  shows "jwt_verify mac (jwt_sign mac kvs secret now) secret now' = Inr (json_norm (jwt_payload kvs now))"
proof -
  obtain kvs' where p: "jwt_payload kvs now = JObj kvs'" and k: "fst ` set kvs' = insert ''iat'' (fst ` set kvs)"
    by (simp add: jwt_payload_def Let_def keys_set_prop)
  have "js_prop (json_norm (JObj kvs')) ''nbf'' = JUndef"
    by (rule js_prop_norm_absent) (use keys k in auto)
  moreover have "js_prop (json_norm (JObj kvs')) ''exp'' = JUndef"
    by (rule js_prop_norm_absent) (use keys k in auto)
  ultimately have "js_prop (json_norm (jwt_payload kvs now)) ''nbf'' = JUndef"
    "js_prop (json_norm (jwt_payload kvs now)) ''exp'' = JUndef"
    unfolding p by simp_all
  then show ?thesis
    unfolding jwt_sign_def by (intro jwt_verify_jws_sign mac)
qed
lemma space_notin_jwt_sign: "CHR '' '' \<notin> set (jwt_sign mac kvs secret now)"
proof -
  have "CHR '' '' \<notin> set (b64url s)" for s
    using b64url_chars_b64url [of s] by (auto simp: b64url_chars_def b64url_alphabet_def)
  then show ?thesis by (simp add: jwt_sign_def jws_sign_def Let_def)
qed

lemma jwt_payload_username:
  "v \<noteq> JUndef \<Longrightarrow> js_prop (json_norm (jwt_payload [(''username'', v)] now)) ''username'' = json_norm v"
  by (simp add: jwt_payload_def js_set_prop_def js_prop_def)

lemma jwt_verify_Inr_parts:
  assumes "jwt_verify mac tok secret now = Inr pl"
  obtains h p s hdr pl' where "js_split (CHR ''.'') tok = [h, p, s]" "jwt_decode h p = Inr (hdr, pl')"
    "js_prop hdr ''alg'' \<in> hs_algs" "s = b64url (mac (js_to_string (js_prop hdr ''alg'')) secret (h @ CHR ''.'' # p))"
proof -
  obtain h p s where parts: "js_split (CHR ''.'') tok = [h, p, s]"
  proof (cases "js_split (CHR ''.'') tok")
    case (Cons h r)
    moreover have "length (js_split (CHR ''.'') tok) = 3"
      using assms by (simp add: jwt_verify_def Let_def split: if_split_asm)
    ultimately show ?thesis using that by (auto simp: numeral_3_eq_3 length_Suc_conv)
  qed (use js_split_nonempty in auto)
  moreover obtain hdr pl' where dec: "jwt_decode h p = Inr (hdr, pl')"
    using assms parts by (cases "jwt_decode h p") (auto simp: jwt_verify_def Let_def split: if_split_asm)
  moreover have "js_prop hdr ''alg'' \<in> hs_algs \<and> s = b64url (mac (js_to_string (js_prop hdr ''alg'')) secret (h @ CHR ''.'' # p))"
    using assms parts dec by (simp add: jwt_verify_def Let_def split: if_split_asm)
  ultimately show ?thesis using that by blast
qed

lemma jwt_verify_Inr_signed:
  assumes "jwt_verify mac tok secret now = Inr pl"
  shows "\<exists>h p alg. tok = h @ CHR ''.'' # p @ CHR ''.'' # b64url (mac alg secret (h @ CHR ''.'' # p)) \<and>
                  alg \<in> {''HS256'', ''HS384'', ''HS512''}"
proof -
  obtain h p s hdr pl' where parts: "js_split (CHR ''.'') tok = [h, p, s]"
      and alg: "js_prop hdr ''alg'' \<in> hs_algs"
      and sig: "s = b64url (mac (js_to_string (js_prop hdr ''alg'')) secret (h @ CHR ''.'' # p))"
    using assms by (rule jwt_verify_Inr_parts)
  have "js_to_string (js_prop hdr ''alg'') \<in> {''HS256'', ''HS384'', ''HS512''}"
    using alg by (auto simp: hs_algs_def)
  then show ?thesis
    using js_split_three [OF parts] sig by blast
qed

lemma jwt_payload_single:
  "k \<noteq> ''iat'' \<Longrightarrow> jwt_payload [(k, v)] now = JObj [(k, v), (''iat'', JNum (int now))]"
  by (simp add: jwt_payload_def js_set_prop_def js_prop_def)

end
