(* ===== verification/Store.thy ===== *)
theory Store
  imports Prelude
begin

text \<open>
  The SQLite database \<^verbatim>\<open>goodreads.db\<close> the handlers query through the
  \<^verbatim>\<open>sqlite\<close> wrapper (\<^verbatim>\<open>db.get\<close>, \<^verbatim>\<open>db.all\<close>, \<^verbatim>\<open>db.run\<close>).  The
  repository does not ship the schema; the tables are modelled with the columns
  the code's \<^verbatim>\<open>INSERT\<close> statements name, in that order, and without
  constraints.  Rows are kept in rowid order, which is the order SQLite scans
  them in.

  Every statement of \<^verbatim>\<open>src/index.js\<close> is a template with the request's
  values pasted in.  A value pasted between quotes (\<^verbatim>\<open>'${username}'\<close>) is read
  by SQLite's lexer as a string literal: \<open>sql_text_value\<close> is that reading,
  defined when the quoted text is exactly one literal (a doubled quote stands for
  one quote).  When a pasted value ends the literal early, the rest of it is SQL
  text (an injection); what the statement then does is not modelled, and the
  model says so with \<open>SqlUnmodelled\<close> instead of guessing.
\<close>

abbreviation SQ :: char where "SQ \<equiv> CHR 0x27"

record user_row =
  u_username :: string
  u_name :: string
  u_password :: string
  u_gender :: string
  u_location :: string

datatype sqlval = SqlNull | SqlInt int | SqlText string

record book_row =
  b_book_id :: int
  b_title :: sqlval
  b_author_id :: sqlval
  b_rating :: sqlval
  b_rating_count :: sqlval
  b_review_count :: sqlval
  b_description :: sqlval
  b_pages :: sqlval
  b_date_of_publication :: sqlval
  b_edition_language :: sqlval
  b_price :: sqlval
  b_online_stores :: sqlval

record db =
  db_users :: "user_row list"
  db_books :: "book_row list"

datatype sql_error = SqlError string | SqlUnmodelled string

section \<open>String literals\<close>

text \<open>The body of a literal after its opening quote: the value and the text after it.\<close>

fun sql_lit_body :: "string \<Rightarrow> string \<Rightarrow> (string \<times> string) option" where
  "sql_lit_body acc [] = None"
| "sql_lit_body acc [c] = (if c = SQ then Some (rev acc, []) else None)"
| "sql_lit_body acc (c # d # cs) =
     (if c = SQ then (if d = SQ then sql_lit_body (SQ # acc) cs else Some (rev acc, d # cs))
      else sql_lit_body (c # acc) (d # cs))"

definition sql_text_value :: "string \<Rightarrow> string option" where
  "sql_text_value raw =
     (case sql_lit_body [] (raw @ [SQ]) of Some (v, []) \<Rightarrow> Some v | _ \<Rightarrow> None)"

text \<open>The escaping a parameterised query would apply: every quote doubled.\<close>

definition sql_escape :: "string \<Rightarrow> string" where
  "sql_escape s = concat (map (\<lambda>c. if c = SQ then [SQ, SQ] else [c]) s)"

section \<open>The user table\<close>

text \<open>\<^verbatim>\<open>db.get(\<open>SELECT * FROM user WHERE username = '${raw}'\<close>)\<close>: the first row.\<close>

definition db_get_user :: "db \<Rightarrow> string \<Rightarrow> sql_error + user_row option" where
  "db_get_user d raw =
     (case sql_text_value raw of
        None \<Rightarrow> Inl (SqlUnmodelled raw)
      | Some u \<Rightarrow> Inr (find (\<lambda>r. u_username r = u) (db_users d)))"

text \<open>
  \<^verbatim>\<open>db.run(`INSERT INTO user (username, name, password, gender, location)
  VALUES ('${u}', '${n}', '${p}', '${g}', '${l}')`)\<close>.
\<close>

definition db_insert_user ::
  "db \<Rightarrow> string \<Rightarrow> string \<Rightarrow> string \<Rightarrow> string \<Rightarrow> string \<Rightarrow> sql_error + db" where
  "db_insert_user d u n p g l =
     (case (sql_text_value u, sql_text_value n, sql_text_value p, sql_text_value g, sql_text_value l) of
        (Some u', Some n', Some p', Some g', Some l') \<Rightarrow>
          Inr (d\<lparr>db_users := db_users d @
                 [\<lparr>u_username = u', u_name = n', u_password = p', u_gender = g', u_location = l'\<rparr>]\<rparr>)
      | _ \<Rightarrow> Inl (SqlUnmodelled (u @ n @ p @ g @ l)))"

text \<open>The account invariant: no two rows share a username.\<close>

definition users_unique :: "db \<Rightarrow> bool" where
  "users_unique d \<longleftrightarrow> distinct (map u_username (db_users d))"

section \<open>Lemmas\<close>

lemma sql_lit_body_plain:
  "SQ \<notin> set s \<Longrightarrow> sql_lit_body acc (s @ [SQ]) = Some (rev acc @ s, [])"
proof (induction s arbitrary: acc)
  case Nil
  then show ?case by simp
next
  case (Cons c s)
  then show ?case by (cases s) auto
qed

lemma sql_text_value_plain [simp]: "SQ \<notin> set s \<Longrightarrow> sql_text_value s = Some s"
  by (simp add: sql_text_value_def sql_lit_body_plain)

lemma sql_escape_Cons:
  "sql_escape (c # s) = (if c = SQ then [SQ, SQ] else [c]) @ sql_escape s"
  by (simp add: sql_escape_def)

lemma sql_lit_body_escape:
  "sql_lit_body acc (sql_escape s @ [SQ]) = Some (rev acc @ s, [])"
proof (induction s arbitrary: acc)
  case Nil
  then show ?case by (simp add: sql_escape_def)
next
  case (Cons c s)
  show ?case
  proof (cases "c = SQ")
    case True
    then show ?thesis using Cons.IH [of "SQ # acc"] by (simp add: sql_escape_Cons)
  next
    case False
    obtain d ds where dds: "sql_escape s @ [SQ] = d # ds" by (cases "sql_escape s @ [SQ]") auto
    have "sql_lit_body acc (c # d # ds) = sql_lit_body (c # acc) (d # ds)" using False by simp
    then show ?thesis using Cons.IH [of "c # acc"] False dds by (simp add: sql_escape_Cons)
  qed
qed

lemma sql_text_value_escape: "sql_text_value (sql_escape s) = Some s"
  by (simp add: sql_text_value_def sql_lit_body_escape)

lemma sql_escape_Nil [simp]: "sql_escape [] = []"
  by (simp add: sql_escape_def)

lemma sql_lit_body_Some:
  "sql_lit_body acc s = Some (v, r) \<Longrightarrow> \<exists>w. s = sql_escape w @ SQ # r \<and> v = rev acc @ w"
proof (induction acc s rule: sql_lit_body.induct)
  case (1 acc)
  then show ?case by simp
next
  case (2 acc c)
  then show ?case by (auto simp: sql_escape_def split: if_splits)
next
  case (3 acc c d cs)
  show ?case
  proof (cases "c = SQ")
    case True
    show ?thesis
    proof (cases "d = SQ")
      case True
      with \<open>c = SQ\<close> 3 obtain w where "cs = sql_escape w @ SQ # r" "v = rev (SQ # acc) @ w" by auto
      with \<open>c = SQ\<close> True show ?thesis by (intro exI [of _ "SQ # w"]) (simp add: sql_escape_Cons)
    next
      case False
      with \<open>c = SQ\<close> 3 show ?thesis by (intro exI [of _ "[]"]) (auto simp: sql_escape_def)
    qed
  next
    case False
    with 3 obtain w where "d # cs = sql_escape w @ SQ # r" "v = rev (c # acc) @ w" by auto
    with False show ?thesis by (intro exI [of _ "c # w"]) (simp add: sql_escape_Cons)
  qed
qed

lemma sql_text_value_iff: "sql_text_value raw = Some v \<longleftrightarrow> raw = sql_escape v"
proof
  assume "sql_text_value raw = Some v"
  then have "sql_lit_body [] (raw @ [SQ]) = Some (v, [])"
    by (auto simp: sql_text_value_def split: option.splits list.splits)
  then show "raw = sql_escape v" by (auto dest: sql_lit_body_Some)
qed (simp add: sql_text_value_escape)

lemma sql_escape_id: "sql_escape s = s \<longleftrightarrow> SQ \<notin> set s"
proof -
  have "length (sql_escape s) = length s + count_list s SQ"
    by (induction s) (auto simp: sql_escape_Cons)
  moreover have "SQ \<notin> set s \<Longrightarrow> sql_escape s = s"
    by (induction s) (auto simp: sql_escape_Cons)
  ultimately show ?thesis by (metis add_cancel_left_right count_list_0_iff)
qed

lemma sql_escape_eq_iff [simp]: "sql_escape x = sql_escape y \<longleftrightarrow> x = y"
  by (metis option.inject sql_text_value_escape)

lemma db_get_user_in: "db_get_user d raw = Inr (Some row) \<Longrightarrow> row \<in> set (db_users d)"
  by (auto simp: db_get_user_def find_Some_iff split: option.splits)

lemma sql_text_value_same: "sql_text_value a = Some v \<Longrightarrow> sql_text_value b = Some v \<Longrightarrow> a = b"
  by (simp add: sql_text_value_iff)

end
