(* ===== verification/Http.thy ===== *)
theory Http
  imports Bcrypt Jwt Store
begin

text \<open>
  What the Express handlers of \<^verbatim>\<open>src/index.js\<close> receive and produce.  A
  request carries the \<^verbatim>\<open>Authorization\<close> header (the only header the code
  reads), the body \<^verbatim>\<open>express.json()\<close> parsed, the route parameters, the query
  string and the \<^verbatim>\<open>request.username\<close> field the middleware sets.  A handler
  either sends a response (\<^verbatim>\<open>response.status(s); response.send(b)\<close>), or its
  promise rejects before it sends anything (Express 4 does not catch the
  rejection of an async handler: no response is sent), or it reaches a
  statement whose text a request value has altered (\<open>Unmodelled\<close>).  The
  environment of one request is the clock and the random bytes of a salt; the
  configuration is the two cryptographic primitives the libraries use.
\<close>

datatype body = BText string | BJson jsval | BEmpty

datatype response = Response nat body

datatype outcome = Sent response | Rejected string | Unmodelled string

record request =
  req_auth :: "string option"
  req_body :: jsval
  req_params :: "(string \<times> string) list"
  req_query :: "(string \<times> string) list"
  req_username :: jsval

record env =
  env_now :: nat
  env_rnd :: string

record config =
  cfg_eks :: eks
  cfg_mac :: hmac

type_synonym handler = "config \<Rightarrow> env \<Rightarrow> request \<Rightarrow> db \<Rightarrow> outcome \<times> db"

text \<open>The signing secret, a literal at lines 46 and 102.\<close>

definition jwt_secret :: string where
  "jwt_secret = ''MY_SECRET_TOKEN''"

text \<open>A failed statement rejects the handler's promise.\<close>

definition sql_outcome :: "sql_error \<Rightarrow> outcome" where
  "sql_outcome e = (case e of SqlError m \<Rightarrow> Rejected m | SqlUnmodelled q \<Rightarrow> Unmodelled q)"

definition send_text :: "nat \<Rightarrow> string \<Rightarrow> outcome" where
  "send_text s t = Sent (Response s (BText t))"

text \<open>An outcome the model computes.  For \<open>Unmodelled\<close> the database a handler
  returns is its input, which is not what SQLite holds after running the altered
  statement; properties of the database are stated for modelled outcomes.\<close>

definition modelled :: "outcome \<Rightarrow> bool" where
  "modelled out \<longleftrightarrow> (case out of Unmodelled s \<Rightarrow> False | _ \<Rightarrow> True)"

section \<open>Concrete requests\<close>

text \<open>Concrete configuration, requests and database at which the properties of the
  following theories are instantiated; the key schedule and the HMAC are stand-ins
  (the identity and a constant), which the properties instantiated here allow.\<close>

definition demo_cfg :: config where
  "demo_cfg = \<lparr>cfg_eks = (\<lambda>n s k. k), cfg_mac = (\<lambda>a k m. ''sig'')\<rparr>"

definition demo_env :: env where
  "demo_env = \<lparr>env_now = 1700000000, env_rnd = ''0123456789abcdef''\<rparr>"

definition demo_body :: jsval where
  "demo_body = JObj [(''username'', JStr ''alice''), (''name'', JStr ''Alice''), (''password'', JStr ''secret''),
                     (''gender'', JStr ''female''), (''location'', JStr ''Paris'')]"

definition demo_req :: request where
  "demo_req = \<lparr>req_auth = None, req_body = demo_body, req_params = [], req_query = [], req_username = JUndef\<rparr>"

definition demo_book :: book_row where
  "demo_book = \<lparr>b_book_id = 1, b_title = SqlText ''Dune'', b_author_id = SqlInt 1, b_rating = SqlInt 4,
     b_rating_count = SqlInt 10, b_review_count = SqlInt 2, b_description = SqlNull, b_pages = SqlInt 412,
     b_date_of_publication = SqlNull, b_edition_language = SqlText ''English'', b_price = SqlInt 9,
     b_online_stores = SqlNull\<rparr>"

definition demo_db :: db where
  "demo_db = \<lparr>db_users = [], db_books = [demo_book]\<rparr>"

definition demo_token :: string where
  "demo_token = jwt_sign (cfg_mac demo_cfg) [(''username'', JStr ''alice'')] jwt_secret 0"

definition clear_books :: handler where
  "clear_books cfg env req d = (send_text 200 '''', d\<lparr>db_books := []\<rparr>)"

end
