(* ===== verification/Auth.thy ===== *)
theory Auth
  imports Http
begin

text \<open>
  The authentication middleware \<^verbatim>\<open>authenticateToken\<close>
  (\<^verbatim>\<open>src/index.js\<close> lines 34--56) and the way Express runs it in front of a
  handler (\<^verbatim>\<open>app.get(path, authenticateToken, handler)\<close>): the token is the
  second space-separated word of the \<^verbatim>\<open>Authorization\<close> header; a missing
  token and a token \<^verbatim>\<open>jwt.verify\<close> rejects both end the request with 401
  \<^verbatim>\<open>Invalid JWT Token\<close>; otherwise the payload's \<^verbatim>\<open>username\<close> is stored
  in the request and the handler runs.
\<close>

datatype mw_result = MwReject response | MwNext request | MwUnmodelled string

text \<open>Lines 36--40: \<^verbatim>\<open>jwtToken = authHeader.split(" ")[1]\<close> when the header is present.\<close>

definition extract_token :: "string option \<Rightarrow> string option" where
  "extract_token h = (case h of None \<Rightarrow> None | Some s \<Rightarrow> js_index (js_split (CHR '' '') s) 1)"

definition invalid_jwt :: response where
  "invalid_jwt = Response 401 (BText ''Invalid JWT Token'')"

definition authenticate_token :: "hmac \<Rightarrow> nat \<Rightarrow> request \<Rightarrow> mw_result" where
  "authenticate_token mac now req =
     (case extract_token (req_auth req) of
        None \<Rightarrow> MwReject invalid_jwt
      | Some tok \<Rightarrow>
         (case jwt_verify mac tok jwt_secret now of
            Inl JwtUnsupportedJson \<Rightarrow> MwUnmodelled tok
          | Inl e \<Rightarrow> MwReject invalid_jwt
          | Inr payload \<Rightarrow> MwNext (req\<lparr>req_username := js_prop payload ''username''\<rparr>)))"

text \<open>A route with the middleware in front of its handler.\<close>

definition run_protected :: "handler \<Rightarrow> handler" where
  "run_protected h cfg env req d =
     (case authenticate_token (cfg_mac cfg) (env_now env) req of
        MwReject r \<Rightarrow> (Sent r, d)
      | MwUnmodelled t \<Rightarrow> (Unmodelled t, d)
      | MwNext req' \<Rightarrow> h cfg env req' d)"

section \<open>Lemmas\<close>

lemma extract_token_none [simp]: "extract_token None = None"
  by (simp add: extract_token_def)

lemma extract_token_bearer:
  "CHR '' '' \<notin> set scheme \<Longrightarrow> CHR '' '' \<notin> set t \<Longrightarrow>
   extract_token (Some (scheme @ CHR '' '' # t)) = Some t"
  by (simp add: extract_token_def js_split_sep js_split_no_sep js_index_def)

lemma extract_token_no_space:
  "CHR '' '' \<notin> set s \<Longrightarrow> extract_token (Some s) = None"
  by (simp add: extract_token_def js_split_no_sep js_index_def)

lemma authenticate_signed:
  assumes "\<And>k m. mac ''HS256'' k m \<noteq> []" and "v \<noteq> JUndef"
  shows "authenticate_token mac now' (req\<lparr>req_auth := Some (''Bearer '' @ jwt_sign mac [(''username'', v)] jwt_secret now)\<rparr>) =
           MwNext (req\<lparr>req_auth := Some (''Bearer '' @ jwt_sign mac [(''username'', v)] jwt_secret now),
                       req_username := json_norm v\<rparr>)"
proof -
  have "extract_token (Some (''Bearer '' @ jwt_sign mac [(''username'', v)] jwt_secret now)) =
          Some (jwt_sign mac [(''username'', v)] jwt_secret now)"
    using extract_token_bearer [of "''Bearer''"] space_notin_jwt_sign by simp
  moreover have "jwt_verify mac (jwt_sign mac [(''username'', v)] jwt_secret now) jwt_secret now' =
          Inr (json_norm (jwt_payload [(''username'', v)] now))"
    by (rule jwt_verify_sign) (use assms in auto)
  ultimately show ?thesis
    using assms(2) by (simp add: authenticate_token_def jwt_payload_username)
qed

lemma authenticate_token_next:
  assumes "authenticate_token mac now req = MwNext req'"
  shows "\<exists>tok pl. extract_token (req_auth req) = Some tok \<and> jwt_verify mac tok jwt_secret now = Inr pl \<and>
                 req' = req\<lparr>req_username := js_prop pl ''username''\<rparr>"
  using assms by (auto simp: authenticate_token_def split: option.splits sum.splits jwt_error.splits)

lemma authenticate_token_reject: "authenticate_token mac now req = MwReject r \<Longrightarrow> r = invalid_jwt"
  by (auto simp: authenticate_token_def split: option.splits sum.splits jwt_error.splits)

lemma run_protected_changed:
  assumes "run_protected h cfg env req d = (out, d')" and "d' \<noteq> d"
  shows "\<exists>tok pl. extract_token (req_auth req) = Some tok \<and> jwt_verify (cfg_mac cfg) tok jwt_secret (env_now env) = Inr pl"
proof -
  obtain req' where "authenticate_token (cfg_mac cfg) (env_now env) req = MwNext req'"
    using assms by (auto simp: run_protected_def split: mw_result.splits)
  then show ?thesis by (blast dest: authenticate_token_next)
qed

section \<open>Properties\<close>

text \<open>C2: A protected route changes the database only when the request carries a token whose signature segment is the HMAC, under the secret MY_SECRET_TOKEN and an HS algorithm, of its header and payload segments.\<close>

theorem protected_change_needs_signed_token:
  assumes "run_protected h cfg env req d = (out, d')" and "d' \<noteq> d"
  shows "\<exists>hd p alg. extract_token (req_auth req) =
                      Some (hd @ CHR ''.'' # p @ CHR ''.'' # b64url (cfg_mac cfg alg jwt_secret (hd @ CHR ''.'' # p))) \<and>
                   alg \<in> {''HS256'', ''HS384'', ''HS512''}"
proof -
  obtain tok pl where "extract_token (req_auth req) = Some tok"
      and "jwt_verify (cfg_mac cfg) tok jwt_secret (env_now env) = Inr pl"
    using assms by (auto simp: run_protected_def authenticate_token_def split: option.splits sum.splits jwt_error.splits)
  then show ?thesis by (blast dest: jwt_verify_Inr_signed)
qed

theorem protected_change_needs_signed_token_witness:
  "\<exists>hd p alg. extract_token (req_auth (demo_req\<lparr>req_auth := Some (''Bearer '' @ demo_token)\<rparr>)) =
     Some (hd @ CHR ''.'' # p @ CHR ''.'' # b64url (cfg_mac demo_cfg alg jwt_secret (hd @ CHR ''.'' # p))) \<and>
     alg \<in> {''HS256'', ''HS384'', ''HS512''}"
proof -
  have run: "run_protected clear_books demo_cfg demo_env (demo_req\<lparr>req_auth := Some (''Bearer '' @ demo_token)\<rparr>) demo_db =
      (send_text 200 '''', demo_db\<lparr>db_books := []\<rparr>)"
    using authenticate_signed [where mac = "cfg_mac demo_cfg" and v = "JStr ''alice''"]
    by (simp add: run_protected_def demo_token_def clear_books_def demo_cfg_def)
  show ?thesis
    by (rule protected_change_needs_signed_token [OF run]) (simp add: demo_db_def)
qed

text \<open>C3: A protected request without a token (no Authorization header, or one without a space) is answered 401 Invalid JWT Token and the handler does not run.\<close>

theorem protected_no_token:
  assumes "extract_token (req_auth req) = None"
  shows "run_protected h cfg env req d = (Sent (Response 401 (BText ''Invalid JWT Token'')), d)"
  using assms by (simp add: run_protected_def authenticate_token_def invalid_jwt_def)

theorem protected_no_token_witness:
  "run_protected clear_books demo_cfg demo_env demo_req demo_db = (Sent (Response 401 (BText ''Invalid JWT Token'')), demo_db)"
  by (rule protected_no_token) (simp add: demo_req_def)

text \<open>C4: A protected request whose token jwt.verify rejects is answered 401 Invalid JWT Token and the database is unchanged.\<close>

theorem protected_bad_token:
  assumes "extract_token (req_auth req) = Some tok"
    and "jwt_verify (cfg_mac cfg) tok jwt_secret (env_now env) = Inl e" and "e \<noteq> JwtUnsupportedJson"
  shows "run_protected h cfg env req d = (Sent (Response 401 (BText ''Invalid JWT Token'')), d)"
  using assms by (cases e) (simp_all add: run_protected_def authenticate_token_def invalid_jwt_def)

theorem protected_bad_token_witness:
  "run_protected clear_books demo_cfg demo_env (demo_req\<lparr>req_auth := Some ''Bearer abc''\<rparr>) demo_db =
     (Sent (Response 401 (BText ''Invalid JWT Token'')), demo_db)"
  by (rule protected_bad_token [where tok = "''abc''" and e = JwtMalformed])
     (simp_all add: extract_token_def js_split_def js_index_def jwt_verify_def)

end
