(* ===== verification/Handlers.thy ===== *)
theory Handlers
  imports Auth
begin

text \<open>
  The account handlers of \<^verbatim>\<open>src/index.js\<close>: registration
  (\<^verbatim>\<open>POST /users/\<close>, lines 59--84), login (\<^verbatim>\<open>POST /login/\<close>, lines 87--109)
  and the profile (\<^verbatim>\<open>GET /profile/\<close>, lines 113--118, run behind the
  middleware).  Each is one function from the request and the database to the
  outcome and the new database, with the statements in the order the code
  awaits them: registration hashes the password before it looks the user up.
\<close>

definition register_user :: handler where
  "register_user cfg env req d =
     (let b = req_body req;
          username = js_prop b ''username'';
          name = js_prop b ''name'';
          gender = js_prop b ''gender'';
          location = js_prop b ''location''
      in case bcrypt_hash (cfg_eks cfg) (env_rnd env) (js_prop b ''password'') 10 of
           Inl e \<Rightarrow> (Rejected (bcrypt_error_msg e), d)
         | Inr hashed \<Rightarrow>
            (case db_get_user d (js_to_string username) of
               Inl e \<Rightarrow> (sql_outcome e, d)
             | Inr None \<Rightarrow>
                (case db_insert_user d (js_to_string username) (js_to_string name) hashed
                        (js_to_string gender) (js_to_string location) of
                   Inl e \<Rightarrow> (sql_outcome e, d)
                 | Inr d' \<Rightarrow> (send_text 200 ''User created successfully'', d'))
             | Inr (Some row) \<Rightarrow> (send_text 400 ''User already exists'', d)))"

text \<open>The response \<^verbatim>\<open>{ jwtToken }\<close> of a successful login.\<close>

definition token_body :: "string \<Rightarrow> body" where
  "token_body t = BJson (JObj [(''jwtToken'', JStr t)])"

definition login_user :: handler where
  "login_user cfg env req d =
     (let b = req_body req;
          username = js_prop b ''username'';
          password = js_prop b ''password''
      in case db_get_user d (js_to_string username) of
           Inl e \<Rightarrow> (sql_outcome e, d)
         | Inr None \<Rightarrow> (send_text 400 ''Invalid User'', d)
         | Inr (Some row) \<Rightarrow>
            (case bcrypt_compare (cfg_eks cfg) password (u_password row) of
               Inl e \<Rightarrow> (Rejected (bcrypt_error_msg e), d)
             | Inr True \<Rightarrow>
                 (Sent (Response 200 (token_body
                    (jwt_sign (cfg_mac cfg) [(''username'', username)] jwt_secret (env_now env)))), d)
             | Inr False \<Rightarrow> (send_text 400 ''Invalid Password'', d)))"

text \<open>\<^verbatim>\<open>SELECT *\<close> on the user table, as the row object the driver returns.\<close>

definition user_json :: "user_row \<Rightarrow> jsval" where
  "user_json r =
     JObj [(''username'', JStr (u_username r)), (''name'', JStr (u_name r)),
           (''password'', JStr (u_password r)), (''gender'', JStr (u_gender r)),
           (''location'', JStr (u_location r))]"

definition get_profile :: handler where
  "get_profile cfg env req d =
     (case db_get_user d (js_to_string (req_username req)) of
        Inl e \<Rightarrow> (sql_outcome e, d)
      | Inr None \<Rightarrow> (Sent (Response 200 BEmpty), d)
      | Inr (Some row) \<Rightarrow> (Sent (Response 200 (BJson (user_json row))), d))"

text \<open>A request value whose text pastes into a quoted SQL literal unchanged.\<close>

definition plain_text :: "jsval \<Rightarrow> bool" where
  "plain_text v \<longleftrightarrow> SQ \<notin> set (js_to_string v)"

text \<open>The row registration stores for a body whose password is the string \<open>pw\<close>.\<close>

definition registered_row :: "config \<Rightarrow> env \<Rightarrow> jsval \<Rightarrow> string \<Rightarrow> user_row" where
  "registered_row cfg env b pw =
     \<lparr>u_username = js_to_string (js_prop b ''username''), u_name = js_to_string (js_prop b ''name''),
      u_password = bcrypt_crypt (cfg_eks cfg) pw (gen_salt 10 (env_rnd env)),
      u_gender = js_to_string (js_prop b ''gender''), u_location = js_to_string (js_prop b ''location'')\<rparr>"

section \<open>Lemmas\<close>

lemma quote_notin_b64: "length al = 64 \<Longrightarrow> SQ \<notin> set al \<Longrightarrow> SQ \<notin> set (b64_encode al bs)"
  using b64_encode_chars [of al bs] by blast

lemma quote_notin_bcrypt_hash: "SQ \<notin> set (bcrypt_crypt eks pw (gen_salt 10 rnd))"
proof -
  have a: "SQ \<notin> set bcrypt_alphabet" by (simp add: bcrypt_alphabet_def)
  have p: "SQ \<notin> set (salt_prefix 10)" by (simp add: salt_prefix_def)
  have "SQ \<notin> set (take 7 (gen_salt 10 rnd))"
    using p quote_notin_b64 [OF _ a] by (auto simp: gen_salt_def dest: in_set_takeD)
  then show ?thesis
    using quote_notin_b64 [OF _ a] by (simp add: bcrypt_crypt_def Let_def)
qed

lemma db_get_user_plain:
  "plain_text v \<Longrightarrow> db_get_user d (js_to_string v) = Inr (find (\<lambda>r. u_username r = js_to_string v) (db_users d))"
  by (simp add: plain_text_def db_get_user_def)

lemma find_username_None:
  "find (\<lambda>r. u_username r = u) rs = None \<longleftrightarrow> u \<notin> u_username ` set rs"
  by (auto simp: find_None_iff)

lemma register_user_new:
  assumes pw: "js_prop (req_body req) ''password'' = JStr pw"
    and plain: "plain_text (js_prop (req_body req) ''username'')" "plain_text (js_prop (req_body req) ''name'')"
      "plain_text (js_prop (req_body req) ''gender'')" "plain_text (js_prop (req_body req) ''location'')"
    and fresh: "js_to_string (js_prop (req_body req) ''username'') \<notin> u_username ` set (db_users d)"
  shows "register_user cfg env req d =
           (send_text 200 ''User created successfully'',
            d\<lparr>db_users := db_users d @ [registered_row cfg env (req_body req) pw]\<rparr>)"
proof -
  have f: "find (\<lambda>r. u_username r = js_to_string (js_prop (req_body req) ''username'')) (db_users d) = None"
    using fresh by (simp add: find_username_None)
  show ?thesis
    using plain pw f quote_notin_bcrypt_hash [of "cfg_eks cfg" pw "env_rnd env"]
    by (simp add: register_user_def Let_def bcrypt_hash_str db_get_user_plain db_insert_user_def
        plain_text_def registered_row_def)
qed

lemma db_get_user_None:
  "db_get_user d raw = Inr None \<Longrightarrow> \<exists>v. sql_text_value raw = Some v \<and> v \<notin> u_username ` set (db_users d)"
  by (auto simp: db_get_user_def find_username_None split: option.splits)

lemma db_insert_user_Inr:
  "db_insert_user d u n p g l = Inr d' \<Longrightarrow>
   \<exists>row. sql_text_value u = Some (u_username row) \<and> d' = d\<lparr>db_users := db_users d @ [row]\<rparr>"
proof -
  assume "db_insert_user d u n p g l = Inr d'"
  then obtain u' n' p' g' l' where "sql_text_value u = Some u'"
    "d' = d\<lparr>db_users := db_users d @
       [\<lparr>u_username = u', u_name = n', u_password = p', u_gender = g', u_location = l'\<rparr>]\<rparr>"
    by (auto simp: db_insert_user_def split: option.splits)
  then show ?thesis
    by (intro exI [of _ "\<lparr>u_username = u', u_name = n', u_password = p', u_gender = g', u_location = l'\<rparr>"])
      simp
qed

lemma register_user_db:
  assumes "register_user cfg env req d = (out, d')"
  shows "d' = d \<or> (\<exists>row. u_username row \<notin> u_username ` set (db_users d) \<and>
                               d' = d\<lparr>db_users := db_users d @ [row]\<rparr>)"
proof -
  let ?u = "js_to_string (js_prop (req_body req) ''username'')"
  consider (same) "d' = d"
    | (ins) hashed d'' where "db_get_user d ?u = Inr None"
        "db_insert_user d ?u (js_to_string (js_prop (req_body req) ''name'')) hashed
           (js_to_string (js_prop (req_body req) ''gender'')) (js_to_string (js_prop (req_body req) ''location'')) = Inr d''"
        "d' = d''"
    using assms
    by (auto simp: register_user_def Let_def split: sum.splits option.splits)
  then show ?thesis
  proof cases
    case same
    then show ?thesis by simp
  next
    case ins
    from db_get_user_None [OF ins(1)] obtain v where
      v: "sql_text_value ?u = Some v" "v \<notin> u_username ` set (db_users d)" by blast
    from db_insert_user_Inr [OF ins(2)] obtain row where
      "sql_text_value ?u = Some (u_username row)" "d'' = d\<lparr>db_users := db_users d @ [row]\<rparr>" by blast
    with v ins(3) show ?thesis by auto
  qed
qed

lemma login_user_found:
  assumes "plain_text (js_prop (req_body req) ''username'')"
    and "find (\<lambda>r. u_username r = js_to_string (js_prop (req_body req) ''username'')) (db_users d) = Some row"
  shows "login_user cfg env req d =
           (case bcrypt_compare (cfg_eks cfg) (js_prop (req_body req) ''password'') (u_password row) of
              Inl e \<Rightarrow> (Rejected (bcrypt_error_msg e), d)
            | Inr True \<Rightarrow>
                (Sent (Response 200 (token_body (jwt_sign (cfg_mac cfg)
                   [(''username'', js_prop (req_body req) ''username'')] jwt_secret (env_now env)))), d)
            | Inr False \<Rightarrow> (send_text 400 ''Invalid Password'', d))"
  using assms by (simp add: login_user_def Let_def db_get_user_plain)

lemma find_appended_fresh:
  "u \<notin> u_username ` set rs \<Longrightarrow> u_username row = u \<Longrightarrow> find (\<lambda>r. u_username r = u) (rs @ [row]) = Some row"
  by (induction rs) auto

lemma login_user_match:
  assumes "js_prop (req_body req) ''username'' = JStr u" "SQ \<notin> set u"
    and "find (\<lambda>r. u_username r = u) (db_users d) = Some row"
    and "js_prop (req_body req) ''password'' = JStr pw"
    and "u_password row = bcrypt_crypt (cfg_eks cfg) pw (gen_salt 10 rnd)" "length rnd = 16"
  shows "login_user cfg env req d =
           (Sent (Response 200 (token_body (jwt_sign (cfg_mac cfg) [(''username'', JStr u)] jwt_secret (env_now env)))), d)"
proof -
  have "plain_text (js_prop (req_body req) ''username'')" using assms(1,2) by (simp add: plain_text_def)
  then show ?thesis
    using assms by (simp add: login_user_found compare_stored_hash)
qed

lemma get_profile_found:
  "SQ \<notin> set u \<Longrightarrow> find (\<lambda>r. u_username r = u) (db_users d) = Some row \<Longrightarrow>
   get_profile cfg env (req\<lparr>req_username := JStr u\<rparr>) d = (Sent (Response 200 (BJson (user_json row))), d)"
  by (simp add: get_profile_def db_get_user_def)

lemma login_user_json:
  assumes "login_user cfg env req d = (Sent (Response 200 (BJson v)), d')"
  shows "v = JObj [(''jwtToken'', JStr (jwt_sign (cfg_mac cfg) [(''username'', js_prop (req_body req) ''username'')]
                                          jwt_secret (env_now env)))] \<and> d' = d"
  using assms
  by (auto simp: login_user_def Let_def send_text_def sql_outcome_def token_body_def
      split: sum.splits option.splits bool.splits sql_error.splits)

lemma get_profile_json:
  assumes "get_profile cfg env req d = (Sent (Response 200 (BJson v)), d')"
  shows "\<exists>row \<in> set (db_users d). v = user_json row"
  using assms
  by (auto simp: get_profile_def sql_outcome_def split: sum.splits option.splits sql_error.splits
      dest: db_get_user_in)

lemma login_user_db: "snd (login_user cfg env req d) = d"
  by (auto simp: login_user_def Let_def split: sum.splits option.splits bool.splits)

section \<open>Properties\<close>

lemma demo_register:
  "register_user demo_cfg demo_env demo_req demo_db =
     (send_text 200 ''User created successfully'',
      demo_db\<lparr>db_users := [registered_row demo_cfg demo_env demo_body ''secret'']\<rparr>)"
  using register_user_new [where req = demo_req and pw = "''secret''" and d = demo_db
      and cfg = demo_cfg and env = demo_env]
  by (simp add: demo_req_def demo_body_def js_prop_def plain_text_def demo_db_def)

text \<open>C5: Registration preserves the invariant that no two users share a username,
  whenever its outcome is modelled: a request whose pasted values alter the
  \<^verbatim>\<open>SELECT\<close> or \<^verbatim>\<open>INSERT\<close> (an injection, which can insert any rows) is
  outside the claim.\<close>

theorem register_preserves_unique:
  assumes "users_unique d" and "register_user cfg env req d = (out, d')" and "modelled out"
  shows "users_unique d'"
  using assms by (auto simp: register_user_def Let_def users_unique_def
      split: sum.splits option.splits dest!: db_insert_user_Inr db_get_user_None)

theorem register_preserves_unique_witness:
  "users_unique demo_db \<and> modelled (send_text 200 ''User created successfully'') \<and>
   users_unique (demo_db\<lparr>db_users := [registered_row demo_cfg demo_env demo_body ''secret'']\<rparr>)"
proof -
  have u: "users_unique demo_db" by (simp add: users_unique_def demo_db_def)
  have m: "modelled (send_text 200 ''User created successfully'')" by (simp add: modelled_def send_text_def)
  show ?thesis using register_preserves_unique [OF u demo_register m] u m by blast
qed

end
