(* ===== verification/Books.thy ===== *)
theory Books
  imports Auth "HOL-Library.Multiset"
begin

text \<open>
  The book routes of \<^verbatim>\<open>src/index.js\<close>: the list (\<^verbatim>\<open>GET /books/\<close>, lines
  121--131), one book (\<^verbatim>\<open>GET /books/:bookId/\<close>, 157--169), adding
  (\<^verbatim>\<open>POST /books/\<close>, 172--208), updating (\<^verbatim>\<open>PUT /books/:bookId/\<close>,
  211--246), deleting (\<^verbatim>\<open>DELETE /books/:bookId/\<close>, 249--258) and the books
  of an author (\<^verbatim>\<open>GET /authors/:authorId/books/\<close>, 261--276).  Each pastes
  request values into one statement: text columns between quotes (read by
  \<open>sql_text_value\<close>), numeric columns and identifiers bare.  A bare value is
  read as SQLite reads the token: an integer literal, \<^verbatim>\<open>null\<close>,
  \<^verbatim>\<open>true\<close>/\<^verbatim>\<open>false\<close>, or the identifier \<^verbatim>\<open>undefined\<close> that a
  missing body field turns into, which names no column and fails the statement.
  Any other text is outside the model (\<open>SqlUnmodelled\<close>).  The routes run
  behind the middleware; \<open>Routes\<close> puts them together.
\<close>

section \<open>Values pasted without quotes\<close>

definition no_such_column :: "string \<Rightarrow> sql_error" where
  "no_such_column c = SqlError (''SQLITE_ERROR: no such column: '' @ c)"

definition sql_num_value :: "string \<Rightarrow> sql_error + sqlval" where
  "sql_num_value raw =
     (if raw = ''null'' then Inr SqlNull
      else if raw = ''true'' then Inr (SqlInt 1)
      else if raw = ''false'' then Inr (SqlInt 0)
      else if raw = ''undefined'' then Inl (no_such_column raw)
      else (case parse_number raw of
              Inr (JNum i, []) \<Rightarrow> Inr (SqlInt i)
            | _ \<Rightarrow> Inl (SqlUnmodelled raw)))"

definition sql_text_lit :: "string \<Rightarrow> sql_error + sqlval" where
  "sql_text_lit raw = (case sql_text_value raw of Some v \<Rightarrow> Inr (SqlText v) | None \<Rightarrow> Inl (SqlUnmodelled raw))"

text \<open>
  A statement with several pasted values: SQLite parses the whole text before it
  resolves names, so a quote that breaks a literal wins over an unknown column;
  among the bare values the first failing one in the statement's order is the
  error.
\<close>

fun sql_first_error :: "(sql_error + sqlval) list \<Rightarrow> sql_error + sqlval list" where
  "sql_first_error [] = Inr []"
| "sql_first_error (Inl e # rs) = Inl e"
| "sql_first_error (Inr v # rs) = (case sql_first_error rs of Inl e \<Rightarrow> Inl e | Inr vs \<Rightarrow> Inr (v # vs))"

text \<open>\<open>WHERE col = v\<close>: a comparison with \<open>NULL\<close> is never true.\<close>

definition sql_eq :: "sqlval \<Rightarrow> sqlval \<Rightarrow> bool" where
  "sql_eq a b \<longleftrightarrow> a \<noteq> SqlNull \<and> b \<noteq> SqlNull \<and> a = b"

section \<open>Rows as the driver returns them\<close>

definition sql_json :: "sqlval \<Rightarrow> jsval" where
  "sql_json v = (case v of SqlNull \<Rightarrow> JNull | SqlInt i \<Rightarrow> JNum i | SqlText s \<Rightarrow> JStr s)"

definition book_json :: "book_row \<Rightarrow> jsval" where
  "book_json b =
     JObj [(''book_id'', JNum (b_book_id b)), (''title'', sql_json (b_title b)),
           (''author_id'', sql_json (b_author_id b)), (''rating'', sql_json (b_rating b)),
           (''rating_count'', sql_json (b_rating_count b)), (''review_count'', sql_json (b_review_count b)),
           (''description'', sql_json (b_description b)), (''pages'', sql_json (b_pages b)),
           (''date_of_publication'', sql_json (b_date_of_publication b)),
           (''edition_language'', sql_json (b_edition_language b)), (''price'', sql_json (b_price b)),
           (''online_stores'', sql_json (b_online_stores b))]"

text \<open>\<^verbatim>\<open>response.send(v)\<close> of what \<^verbatim>\<open>db.get\<close> returned: no row sends an empty body.\<close>

definition send_row :: "book_row option \<Rightarrow> outcome" where
  "send_row r = Sent (Response 200 (case r of None \<Rightarrow> BEmpty | Some b \<Rightarrow> BJson (book_json b)))"

definition send_rows :: "book_row list \<Rightarrow> outcome" where
  "send_rows bs = Sent (Response 200 (BJson (JArr (map book_json bs))))"


section \<open>Statements of the book routes\<close>

text \<open>A route parameter; an absent one pastes as \<^verbatim>\<open>undefined\<close>.\<close>

definition req_param :: "request \<Rightarrow> string \<Rightarrow> string" where
  "req_param req k = (case map_of (req_params req) k of Some v \<Rightarrow> v | None \<Rightarrow> ''undefined'')"

datatype col_kind = ColText | ColNum

definition paste :: "col_kind \<Rightarrow> string \<Rightarrow> sql_error + sqlval" where
  "paste k raw = (case k of ColText \<Rightarrow> sql_text_lit raw | ColNum \<Rightarrow> sql_num_value raw)"

text \<open>The body fields of lines 174--186 and 214--226 in the order of the statements' columns.\<close>

definition book_fields :: "(col_kind \<times> string) list" where
  "book_fields =
     [(ColText, ''title''), (ColNum, ''authorId''), (ColNum, ''rating''), (ColNum, ''ratingCount''),
      (ColNum, ''reviewCount''), (ColText, ''description''), (ColNum, ''pages''),
      (ColText, ''dateOfPublication''), (ColText, ''editionLanguage''), (ColNum, ''price''),
      (ColText, ''onlineStores'')]"

definition book_raws :: "jsval \<Rightarrow> (col_kind \<times> string) list" where
  "book_raws b = map (\<lambda>(k, f). (k, js_to_string (js_prop b f))) book_fields"

text \<open>The values of one statement's pasted texts, or the error that fails it.\<close>

definition stmt_values :: "(col_kind \<times> string) list \<Rightarrow> sql_error + sqlval list" where
  "stmt_values raws =
     (if list_ex (\<lambda>(k, r). k = ColText \<and> sql_text_value r = None) raws
      then Inl (SqlUnmodelled (concat (map snd raws)))
      else sql_first_error (map (\<lambda>(k, r). paste k r) raws))"

definition mk_book :: "int \<Rightarrow> sqlval list \<Rightarrow> book_row" where
  "mk_book i vs =
     \<lparr>b_book_id = i, b_title = vs ! 0, b_author_id = vs ! 1, b_rating = vs ! 2, b_rating_count = vs ! 3,
      b_review_count = vs ! 4, b_description = vs ! 5, b_pages = vs ! 6, b_date_of_publication = vs ! 7,
      b_edition_language = vs ! 8, b_price = vs ! 9, b_online_stores = vs ! 10\<rparr>"

text \<open>
  The rowid SQLite gives an inserted row (\<^verbatim>\<open>book_id\<close> taken to be the table's
  \<^verbatim>\<open>INTEGER PRIMARY KEY\<close>): one more than the largest, 1 in an empty table.  At
  the largest 64-bit rowid SQLite picks a random free one, which is not modelled.
\<close>

definition max_rowid :: int where
  "max_rowid = 9223372036854775807"

definition next_book_id :: "book_row list \<Rightarrow> sql_error + int" where
  "next_book_id bs =
     (if bs = [] then Inr 1
      else let m = Max (set (map b_book_id bs)) in
           if max_rowid \<le> m then Inl (SqlUnmodelled ''rowid'') else Inr (m + 1))"

definition book_has_id :: "sqlval \<Rightarrow> book_row \<Rightarrow> bool" where
  "book_has_id v b \<longleftrightarrow> sql_eq (SqlInt (b_book_id b)) v"

section \<open>The handlers\<close>

definition get_books :: handler where
  "get_books cfg env req d = (send_rows (sort_key b_book_id (db_books d)), d)"

definition get_book :: handler where
  "get_book cfg env req d =
     (case sql_num_value (req_param req ''bookId'') of
        Inl e \<Rightarrow> (sql_outcome e, d)
      | Inr v \<Rightarrow> (send_row (find (book_has_id v) (db_books d)), d))"

definition add_book :: handler where
  "add_book cfg env req d =
     (case stmt_values (book_raws (req_body req)) of
        Inl e \<Rightarrow> (sql_outcome e, d)
      | Inr vs \<Rightarrow>
         (case next_book_id (db_books d) of
            Inl e \<Rightarrow> (sql_outcome e, d)
          | Inr i \<Rightarrow> (Sent (Response 200 (BJson (JObj [(''bookId'', JNum i)]))),
                     d\<lparr>db_books := db_books d @ [mk_book i vs]\<rparr>)))"

definition update_book :: handler where
  "update_book cfg env req d =
     (case stmt_values (book_raws (req_body req) @ [(ColNum, req_param req ''bookId'')]) of
        Inl e \<Rightarrow> (sql_outcome e, d)
      | Inr vs \<Rightarrow>
         (send_text 200 ''Book Updated Successfully'',
          d\<lparr>db_books := map (\<lambda>b. if book_has_id (last vs) b then mk_book (b_book_id b) (butlast vs) else b)
                          (db_books d)\<rparr>))"

definition delete_book :: handler where
  "delete_book cfg env req d =
     (case sql_num_value (req_param req ''bookId'') of
        Inl e \<Rightarrow> (sql_outcome e, d)
      | Inr v \<Rightarrow> (send_text 200 ''Book Deleted Successfully'',
                 d\<lparr>db_books := filter (\<lambda>b. \<not> book_has_id v b) (db_books d)\<rparr>))"

definition get_author_books :: handler where
  "get_author_books cfg env req d =
     (case sql_num_value (req_param req ''authorId'') of
        Inl e \<Rightarrow> (sql_outcome e, d)
      | Inr v \<Rightarrow> (send_rows (filter (\<lambda>b. sql_eq (b_author_id b) v) (db_books d)), d))"

text \<open>The invariant of the book table: no two rows share a \<^verbatim>\<open>book_id\<close>.\<close>

definition books_unique :: "db \<Rightarrow> bool" where
  "books_unique d \<longleftrightarrow> distinct (map b_book_id (db_books d))"

text \<open>
  The second \<^verbatim>\<open>GET /books/\<close> handler (lines 134--154), with query defaults
  \<^verbatim>\<open>offset = 2, limit = 5, order = "ASC", order_by = "book_id", search_q = ""\<close>.
  Modelled for a search text without \<^verbatim>\<open>LIKE\<close> wildcards or quotes, ordering by
  \<^verbatim>\<open>book_id\<close> (the unique key: no ties) and integer limit and offset; the
  rest of its inputs are pasted into the statement's syntax and left unmodelled.
\<close>

definition query_or :: "request \<Rightarrow> string \<Rightarrow> string \<Rightarrow> string" where
  "query_or req k dflt = (case map_of (req_query req) k of Some v \<Rightarrow> v | None \<Rightarrow> dflt)"

text \<open>\<open>x LIKE '%p%'\<close> for a pattern without wildcards: ASCII case is ignored.\<close>

definition text_contains :: "string \<Rightarrow> string \<Rightarrow> bool" where
  "text_contains p t =
     list_ex (\<lambda>k. take (length p) (drop k (map ascii_lower t)) = map ascii_lower p) [0..<Suc (length t)]"

definition like_contains :: "string \<Rightarrow> sqlval \<Rightarrow> bool" where
  "like_contains p v =
     (case v of SqlNull \<Rightarrow> False | SqlInt i \<Rightarrow> text_contains p (int_str i) | SqlText t \<Rightarrow> text_contains p t)"

definition sql_int_text :: "string \<Rightarrow> int option" where
  "sql_int_text raw = (case parse_number raw of Inr (JNum i, []) \<Rightarrow> Some i | _ \<Rightarrow> None)"

text \<open>\<open>LIMIT l OFFSET o\<close>: a negative limit is no limit, a negative offset none.\<close>

definition limit_offset :: "int \<Rightarrow> int \<Rightarrow> 'a list \<Rightarrow> 'a list" where
  "limit_offset l off xs = (let ys = drop (nat off) xs in if l < 0 then ys else take (nat l) ys)"

definition get_books_filtered :: handler where
  "get_books_filtered cfg env req d =
     (let offset = query_or req ''offset'' ''2''; limit = query_or req ''limit'' ''5'';
          order = query_or req ''order'' ''ASC''; order_by = query_or req ''order_by'' ''book_id'';
          search_q = query_or req ''search_q'' []
      in if list_ex (\<lambda>c. c \<in> {CHR ''%'', CHR ''_'', SQ}) search_q \<or> map ascii_lower order_by \<noteq> ''book_id''
            \<or> map ascii_lower order \<notin> {''asc'', ''desc''}
         then (Unmodelled (search_q @ order_by @ order), d)
         else (case (sql_int_text limit, sql_int_text offset) of
                 (Some l, Some off) \<Rightarrow>
                   (let rows = sort_key b_book_id (filter (\<lambda>b. like_contains search_q (b_title b)) (db_books d));
                        rows' = (if map ascii_lower order = ''desc'' then rev rows else rows)
                    in (send_rows (limit_offset l off rows'), d))
               | _ \<Rightarrow> (Unmodelled (limit @ offset), d)))"

section \<open>Lemmas\<close>

lemma int_str_not_word: "int_str i \<notin> {''null'', ''true'', ''false'', ''undefined''}"
proof -
  obtain c cs where s: "int_str i = c # cs"
    by (cases "int_str i") (auto simp: int_str_def split: if_splits)
  then have "c = CHR ''-'' \<or> is_digit c" by (rule int_str_Cons)
  then have "c \<notin> {CHR ''n'', CHR ''t'', CHR ''f'', CHR ''u''}" by (auto simp: is_digit_def)
  with s show ?thesis by auto
qed

lemma sql_num_value_int_str [simp]: "sql_num_value (int_str i) = Inr (SqlInt i)"
  using int_str_not_word [of i] parse_number_int_str [of "[]" i]
  by (simp add: sql_num_value_def num_delim_def)

lemma sql_first_error_length: "sql_first_error rs = Inr vs \<Longrightarrow> length vs = length rs"
  by (induction rs arbitrary: vs rule: sql_first_error.induct) (auto split: sum.splits)

lemma stmt_values_length: "stmt_values raws = Inr vs \<Longrightarrow> length vs = length raws"
  by (auto simp: stmt_values_def dest: sql_first_error_length split: if_splits)

lemma next_book_id_fresh: "next_book_id bs = Inr i \<Longrightarrow> i \<notin> b_book_id ` set bs"
proof
  assume n: "next_book_id bs = Inr i" and i: "i \<in> b_book_id ` set bs"
  then have "bs \<noteq> []" by auto
  then have "i = Max (set (map b_book_id bs)) + 1" using n by (auto simp: next_book_id_def Let_def split: if_splits)
  moreover have "i \<le> Max (set (map b_book_id bs))" using i by simp
  ultimately show False by simp
qed

lemma book_has_id_int [simp]: "book_has_id (SqlInt i) b \<longleftrightarrow> b_book_id b = i"
  by (simp add: book_has_id_def sql_eq_def)

lemma find_book_appended:
  "i \<notin> b_book_id ` set bs \<Longrightarrow> find (book_has_id (SqlInt i)) (bs @ [mk_book i vs]) = Some (mk_book i vs)"
  by (induction bs) (auto simp: mk_book_def)

lemma add_book_Sent:
  assumes "add_book cfg env req d = (Sent r, d')"
  shows "\<exists>vs i. stmt_values (book_raws (req_body req)) = Inr vs \<and> next_book_id (db_books d) = Inr i \<and>
                r = Response 200 (BJson (JObj [(''bookId'', JNum i)])) \<and> d' = d\<lparr>db_books := db_books d @ [mk_book i vs]\<rparr>"
  using assms by (auto simp: add_book_def sql_outcome_def split: sum.splits sql_error.splits)

lemma add_book_unique: "books_unique d \<Longrightarrow> books_unique (snd (add_book cfg env req d))"
  by (auto simp: add_book_def books_unique_def mk_book_def dest: next_book_id_fresh split: sum.splits)

lemma update_book_ids: "map b_book_id (db_books (snd (update_book cfg env req d))) = map b_book_id (db_books d)"
  by (auto simp: update_book_def mk_book_def split: sum.splits)

lemma delete_book_unique: "books_unique d \<Longrightarrow> books_unique (snd (delete_book cfg env req d))"
  by (auto simp: delete_book_def books_unique_def distinct_map_filter split: sum.splits)

lemma sql_text_lit_plain [simp]: "SQ \<notin> set s \<Longrightarrow> sql_text_lit s = Inr (SqlText s)"
  by (simp add: sql_text_lit_def)

end
