(* ===== verification/Routes.thy ===== *)
theory Routes
  imports Handlers Books
begin

text \<open>
  The application as Express assembles it: the routes in the order
  \<^verbatim>\<open>src/index.js\<close> registers them (lines 59--276), each with its method,
  path pattern and, for all but registration and login, the middleware
  \<^verbatim>\<open>authenticateToken\<close> in front.  Express runs the first route whose method
  and pattern match the request; the middleware and the handlers always answer
  or reject and never call \<^verbatim>\<open>next\<close> past their route, so no later route
  is tried.  A pattern matches without regard to ASCII case and with or without
  one trailing slash; a parameter is one non-empty path segment.  A request no
  route matches gets Express's 404.  Parameters with percent-escapes (which
  Express decodes) are not modelled.
\<close>

datatype meth = MGet | MPost | MPut | MDelete

datatype seg = Lit string | Par string

datatype route_id =
  RRegister | RLogin | RProfile | RBooks | RBooksFiltered | RBook | RAddBook | RUpdateBook
  | RDeleteBook | RAuthorBooks

record http_request =
  hr_method :: meth
  hr_path :: string
  hr_req :: request

definition routes :: "(meth \<times> seg list \<times> route_id) list" where
  "routes =
     [(MPost, [Lit ''users''], RRegister),
      (MPost, [Lit ''login''], RLogin),
      (MGet, [Lit ''profile''], RProfile),
      (MGet, [Lit ''books''], RBooks),
      (MGet, [Lit ''books''], RBooksFiltered),
      (MGet, [Lit ''books'', Par ''bookId''], RBook),
      (MPost, [Lit ''books''], RAddBook),
      (MPut, [Lit ''books'', Par ''bookId''], RUpdateBook),
      (MDelete, [Lit ''books'', Par ''bookId''], RDeleteBook),
      (MGet, [Lit ''authors'', Par ''authorId'', Lit ''books''], RAuthorBooks)]"

definition protected :: "route_id \<Rightarrow> bool" where
  "protected r \<longleftrightarrow> r \<notin> {RRegister, RLogin}"

definition route_handler :: "route_id \<Rightarrow> handler" where
  "route_handler r =
     (case r of
        RRegister \<Rightarrow> register_user | RLogin \<Rightarrow> login_user | RProfile \<Rightarrow> get_profile
      | RBooks \<Rightarrow> get_books | RBooksFiltered \<Rightarrow> get_books_filtered | RBook \<Rightarrow> get_book
      | RAddBook \<Rightarrow> add_book | RUpdateBook \<Rightarrow> update_book | RDeleteBook \<Rightarrow> delete_book
      | RAuthorBooks \<Rightarrow> get_author_books)"

text \<open>The segments of a path: it starts with a slash; one trailing slash is dropped.\<close>

definition path_segs :: "string \<Rightarrow> string list option" where
  "path_segs p =
     (case js_split (CHR ''/'') p of
        [] # segs \<Rightarrow> Some (if segs \<noteq> [] \<and> last segs = [] then butlast segs else segs)
      | _ \<Rightarrow> None)"

fun match_segs :: "seg list \<Rightarrow> string list \<Rightarrow> (string \<times> string) list option" where
  "match_segs [] [] = Some []"
| "match_segs (Lit l # ps) (s # ss) =
     (if map ascii_lower s = map ascii_lower l then match_segs ps ss else None)"
| "match_segs (Par n # ps) (s # ss) =
     (if s = [] then None else (case match_segs ps ss of None \<Rightarrow> None | Some bs \<Rightarrow> Some ((n, s) # bs)))"
| "match_segs _ _ = None"

fun first_route :: "meth \<Rightarrow> string list \<Rightarrow> (meth \<times> seg list \<times> route_id) list \<Rightarrow>
                      (route_id \<times> (string \<times> string) list) option" where
  "first_route m segs [] = None"
| "first_route m segs ((m', pat, r) # rs) =
     (if m' = m then (case match_segs pat segs of Some bs \<Rightarrow> Some (r, bs) | None \<Rightarrow> first_route m segs rs)
      else first_route m segs rs)"

definition dispatch :: "meth \<Rightarrow> string \<Rightarrow> (route_id \<times> (string \<times> string) list) option" where
  "dispatch m p = (case path_segs p of None \<Rightarrow> None | Some segs \<Rightarrow> first_route m segs routes)"

definition meth_name :: "meth \<Rightarrow> string" where
  "meth_name m = (case m of MGet \<Rightarrow> ''GET'' | MPost \<Rightarrow> ''POST'' | MPut \<Rightarrow> ''PUT'' | MDelete \<Rightarrow> ''DELETE'')"

definition app :: "config \<Rightarrow> env \<Rightarrow> http_request \<Rightarrow> db \<Rightarrow> outcome \<times> db" where
  "app cfg env hr d =
     (case dispatch (hr_method hr) (hr_path hr) of
        None \<Rightarrow> (Sent (Response 404 (BText (''Cannot '' @ meth_name (hr_method hr) @ CHR '' '' # hr_path hr))), d)
      | Some (r, ps) \<Rightarrow>
         if list_ex (\<lambda>(k, v). CHR ''%'' \<in> set v) ps then (Unmodelled (hr_path hr), d)
         else
           (let req = (hr_req hr)\<lparr>req_params := ps\<rparr>
            in if protected r then run_protected (route_handler r) cfg env req d
               else route_handler r cfg env req d))"

section \<open>Lemmas\<close>

lemma dispatch_book: "dispatch MGet ''/books/5/'' = Some (RBook, [(''bookId'', ''5'')])"
  by (simp add: dispatch_def path_segs_def js_split_def routes_def ascii_lower_def)

lemma dispatch_books: "dispatch MGet ''/Books'' = Some (RBooks, [])"
  by (simp add: dispatch_def path_segs_def js_split_def routes_def ascii_lower_def)

section \<open>Properties\<close>

text \<open>C16: The second GET /books/ route, the one with filters, is never dispatched: the
  first GET /books/ route matches every request it would match, and neither the
  middleware nor that handler passes the request on.\<close>

theorem filtered_books_unreachable: "dispatch m p \<noteq> Some (RBooksFiltered, bs)"
  by (cases m) (auto simp: dispatch_def routes_def split: option.splits)

end
