(* ===== verification/BodyParser.thy ===== *)
theory BodyParser
  imports Json Http
begin

text \<open>
  The middleware \<^verbatim>\<open>express.json()\<close> that \<^verbatim>\<open>src/index.js\<close> installs in front of
  every route (line 4), as body-parser implements it with its defaults: a
  request without a body, or whose \<^verbatim>\<open>Content-Type\<close> is not
  \<^verbatim>\<open>application/json\<close>, gets the body \<open>{}\<close>; a body above 100kb is refused
  with 413; an empty body is \<open>{}\<close>; in strict mode the first character that is
  not JSON white space must open an object or an array, or the request is
  refused with 400; otherwise the text goes to \<^verbatim>\<open>JSON.parse\<close>
  (\<open>json_parse\<close>), whose syntax errors are 400 as well.  A refusal is passed to
  Express's final handler, which answers with the status and its HTML error page
  (in development mode, the error's stack).  Content types with parameters
  (\<^verbatim>\<open>; charset=...\<close>) and bodies holding integers beyond \<open>2^53\<close>, which
  \<^verbatim>\<open>JSON.parse\<close> rounds, are not modelled.
\<close>

datatype bp_result = BodyOk jsval | BodyError nat | BodyUnmodelled string

definition json_limit :: nat where
  "json_limit = 102400"

text \<open>body-parser's \<open>firstchar\<close>: the first character after JSON white space.\<close>

definition first_char :: "string \<Rightarrow> char option" where
  "first_char s = (case skip_ws s of [] \<Rightarrow> None | c # _ \<Rightarrow> Some c)"

text \<open>The integers of a parsed value.  \<^verbatim>\<open>JSON.parse\<close> reads numbers as doubles,
  exact for integers up to \<open>2^53\<close> in magnitude; a body holding a larger one would be
  rounded, which the model does not compute.\<close>

fun json_nums :: "jsval \<Rightarrow> int list" where
  "json_nums (JNum i) = [i]"
| "json_nums (JArr vs) = concat (map json_nums vs)"
| "json_nums (JObj kvs) = concat (map (\<lambda>(k, v). json_nums v) kvs)"
| "json_nums _ = []"

definition json_safe :: "jsval \<Rightarrow> bool" where
  "json_safe v \<longleftrightarrow> list_all (\<lambda>i. \<bar>i\<bar> \<le> 2 ^ 53) (json_nums v)"

text \<open>body-parser's \<open>parse\<close> in strict mode.\<close>

definition json_body :: "string \<Rightarrow> bp_result" where
  "json_body s =
     (if s = [] then BodyOk (JObj [])
      else if first_char s \<notin> {Some (CHR ''{''), Some (CHR ''['')} then BodyError 400
      else (case json_parse s of
              Inr v \<Rightarrow> if json_safe v then BodyOk v else BodyUnmodelled s
            | Inl JsonSyntax \<Rightarrow> BodyError 400
            | Inl _ \<Rightarrow> BodyUnmodelled s))"

text \<open>The middleware: the \<^verbatim>\<open>Content-Type\<close> header and the body text, \<open>None\<close> when
  the request has no body.\<close>

definition express_json :: "string option \<Rightarrow> string option \<Rightarrow> bp_result" where
  "express_json ct body =
     (case body of
        None \<Rightarrow> BodyOk (JObj [])
      | Some s \<Rightarrow>
         (case ct of
            None \<Rightarrow> BodyOk (JObj [])
          | Some t \<Rightarrow>
             if CHR '';'' \<in> set t then BodyUnmodelled t
             else if map ascii_lower t \<noteq> ''application/json'' then BodyOk (JObj [])
             else if json_limit < length s then BodyError 413
             else json_body s))"

section \<open>Lemmas\<close>

lemma first_char_json_str_obj [simp]: "first_char (json_str (JObj kvs)) = Some (CHR ''{'')"
  by (simp add: first_char_def is_ws_def)

lemma first_char_json_str_arr [simp]: "first_char (json_str (JArr vs)) = Some (CHR ''['')"
  by (simp add: first_char_def is_ws_def)

lemma json_body_parse:
  assumes "first_char s \<in> {Some (CHR ''{''), Some (CHR ''['')}" and "json_parse s = Inr v" and "json_safe v"
  shows "json_body s = BodyOk v"
proof -
  have "s \<noteq> []" using assms(1) by (auto simp: first_char_def)
  then show ?thesis using assms by (simp add: json_body_def)
qed

lemma json_nums_norm: "set (json_nums (json_norm v)) \<subseteq> set (json_nums v)"
  by (induction v rule: json_norm.induct) fastforce+

lemma json_safe_norm: "json_safe v \<Longrightarrow> json_safe (json_norm v)"
  using json_nums_norm [of v] by (auto simp: json_safe_def list_all_iff)

lemma express_json_json_type [simp]:
  "express_json (Some ''application/json'') (Some s) =
     (if json_limit < length s then BodyError 413 else json_body s)"
  by (simp add: express_json_def ascii_lower_def)

end
