(* ===== verification/Server.thy ===== *)
theory Server
  imports Routes BodyParser
begin

text \<open>
  The whole server of \<^verbatim>\<open>src/index.js\<close>: a request as it arrives
  (\<open>raw_request\<close>) passes \<^verbatim>\<open>express.json()\<close> (\<open>express_json\<close>, line 4) and then
  the route table (\<open>app\<close>); a body refused by the parser never reaches a route.
  \<^verbatim>\<open>initializeDBAndServer\<close> (lines 18--31) opens the database and only then
  listens; a failed open logs and exits with status 1, and a failed listen is an
  uncaught \<^verbatim>\<open>error\<close> event (outside the \<^verbatim>\<open>try\<close>) that ends the process.
  Requests are served one after another (\<open>run_server\<close>); the interleaving of
  the awaits of registrations is the subject of \<open>Interleave\<close>.
\<close>

record raw_request =
  rq_method :: meth
  rq_path :: string
  rq_auth :: "string option"
  rq_content_type :: "string option"
  rq_body :: "string option"
  rq_query :: "(string \<times> string) list"

datatype server_outcome = Handled outcome | ErrorPage nat

definition to_request :: "raw_request \<Rightarrow> jsval \<Rightarrow> http_request" where
  "to_request rr v =
     \<lparr>hr_method = rq_method rr, hr_path = rq_path rr,
      hr_req = \<lparr>req_auth = rq_auth rr, req_body = v, req_params = [], req_query = rq_query rr,
                req_username = JUndef\<rparr>\<rparr>"

definition server :: "config \<Rightarrow> env \<Rightarrow> raw_request \<Rightarrow> db \<Rightarrow> server_outcome \<times> db" where
  "server cfg env rr d =
     (case express_json (rq_content_type rr) (rq_body rr) of
        BodyError st \<Rightarrow> (ErrorPage st, d)
      | BodyUnmodelled s \<Rightarrow> (Handled (Unmodelled s), d)
      | BodyOk v \<Rightarrow> (case app cfg env (to_request rr v) d of (out, d') \<Rightarrow> (Handled out, d')))"

fun run_server :: "config \<Rightarrow> (env \<times> raw_request) list \<Rightarrow> db \<Rightarrow> server_outcome list \<times> db" where
  "run_server cfg [] d = ([], d)"
| "run_server cfg ((env, rr) # rs) d =
     (case server cfg env rr d of
        (out, d') \<Rightarrow> (case run_server cfg rs d' of (outs, d'') \<Rightarrow> (out # outs, d'')))"

section \<open>Start-up\<close>

text \<open>The process: the global \<^verbatim>\<open>db\<close> (\<^verbatim>\<open>null\<close> until the open succeeds), whether
  the server listens, the exit status once the process has ended, and the console.\<close>

record proc =
  proc_db :: "db option"
  proc_listening :: bool
  proc_exit :: "nat option"
  proc_log :: "string list"

definition initial_proc :: proc where
  "initial_proc = \<lparr>proc_db = None, proc_listening = False, proc_exit = None, proc_log = []\<rparr>"

text \<open>The result of \<^verbatim>\<open>open\<close> (the error's message or the connection) and of
  \<^verbatim>\<open>app.listen(3000)\<close> (the uncaught error's text or success).\<close>

definition initialize_db_and_server :: "string + db \<Rightarrow> string + unit \<Rightarrow> proc \<Rightarrow> proc" where
  "initialize_db_and_server opened listened p =
     (case opened of
        Inl msg \<Rightarrow> p\<lparr>proc_log := proc_log p @ [''DB Error: '' @ msg], proc_exit := Some 1\<rparr>
      | Inr d \<Rightarrow>
         (case listened of
            Inr _ \<Rightarrow> p\<lparr>proc_db := Some d, proc_listening := True,
                         proc_log := proc_log p @ [''Server Running at http://localhost:3000/'']\<rparr>
          | Inl err \<Rightarrow> p\<lparr>proc_db := Some d, proc_log := proc_log p @ [err], proc_exit := Some 1\<rparr>))"

text \<open>A request reaches the process only while it listens and runs; a handler
  reading the global \<^verbatim>\<open>db\<close> while it is \<^verbatim>\<open>null\<close> is not modelled.\<close>

definition serve :: "config \<Rightarrow> env \<Rightarrow> raw_request \<Rightarrow> proc \<Rightarrow> (server_outcome \<times> proc) option" where
  "serve cfg env rr p =
     (if proc_listening p \<and> proc_exit p = None then
        (case proc_db p of
           None \<Rightarrow> Some (Handled (Unmodelled ''db is null''), p)
         | Some d \<Rightarrow> (case server cfg env rr d of (out, d') \<Rightarrow> Some (out, p\<lparr>proc_db := Some d'\<rparr>)))
      else None)"

section \<open>The database invariant\<close>

text \<open>Usernames distinct and book ids distinct.\<close>

definition db_ok :: "db \<Rightarrow> bool" where
  "db_ok d \<longleftrightarrow> users_unique d \<and> books_unique d"

text \<open>A server outcome the model computes (see \<open>modelled\<close>).\<close>

definition srv_modelled :: "server_outcome \<Rightarrow> bool" where
  "srv_modelled so \<longleftrightarrow> (case so of Handled out \<Rightarrow> modelled out | ErrorPage st \<Rightarrow> True)"

text \<open>The states the process reaches: the start-up, then requests served one at a time.\<close>

inductive proc_reach :: "config \<Rightarrow> proc \<Rightarrow> bool" for cfg where
  start: "proc_reach cfg (initialize_db_and_server opened listened initial_proc)"
| serve: "proc_reach cfg p \<Longrightarrow> serve cfg env rr p = Some (out, p') \<Longrightarrow> proc_reach cfg p'"


section \<open>Lemmas\<close>

lemma run_protected_db:
  "snd (run_protected h cfg env req d) = d \<or> (\<exists>req'. run_protected h cfg env req d = h cfg env req' d)"
  by (auto simp: run_protected_def split: mw_result.splits)

lemma get_profile_db: "snd (get_profile cfg env req d) = d"
  by (auto simp: get_profile_def split: sum.splits option.splits)

lemma get_books_db: "snd (get_books cfg env req d) = d"
  by (simp add: get_books_def)

lemma get_book_db: "snd (get_book cfg env req d) = d"
  by (simp add: get_book_def split: sum.splits)

lemma get_author_books_db: "snd (get_author_books cfg env req d) = d"
  by (simp add: get_author_books_def split: sum.splits)

lemma get_books_filtered_db: "snd (get_books_filtered cfg env req d) = d"
  by (simp add: get_books_filtered_def Let_def split: option.splits)

lemma register_user_ok: "db_ok d \<Longrightarrow> db_ok (snd (register_user cfg env req d))"
  using register_user_db [of cfg env req d "fst (register_user cfg env req d)" "snd (register_user cfg env req d)"]
  by (auto simp: db_ok_def users_unique_def books_unique_def)

lemma add_book_users: "db_users (snd (add_book cfg env req d)) = db_users d"
  by (auto simp: add_book_def split: sum.splits)

lemma update_book_users: "db_users (snd (update_book cfg env req d)) = db_users d"
  by (auto simp: update_book_def split: sum.splits)

lemma delete_book_users: "db_users (snd (delete_book cfg env req d)) = db_users d"
  by (auto simp: delete_book_def split: sum.splits)

lemma update_book_unique: "books_unique d \<Longrightarrow> books_unique (snd (update_book cfg env req d))"
  using update_book_ids [of cfg env req d] by (simp add: books_unique_def)

lemma route_handler_ok: "db_ok d \<Longrightarrow> db_ok (snd (route_handler r cfg env req d))"
  by (cases r)
     (simp_all add: route_handler_def register_user_ok login_user_db get_profile_db get_books_db get_book_db
        get_author_books_db get_books_filtered_db,
      auto simp: db_ok_def users_unique_def add_book_users update_book_users delete_book_users
        add_book_unique update_book_unique delete_book_unique)

lemma app_ok: "db_ok d \<Longrightarrow> db_ok (snd (app cfg env hr d))"
  using run_protected_db [of "route_handler _" cfg env _ d] route_handler_ok
  by (auto simp: app_def Let_def split: option.splits prod.splits) (metis)

lemma server_ok: "db_ok d \<Longrightarrow> db_ok (snd (server cfg env rr d))"
  by (simp add: server_def case_prod_unfold app_ok split: bp_result.split)

lemma serve_db: "serve cfg env rr p = Some (out, p') \<Longrightarrow>
  proc_listening p' = proc_listening p \<and> (proc_db p \<noteq> None \<longrightarrow> proc_db p' \<noteq> None)"
  by (auto simp: serve_def split: if_splits option.splits prod.splits)

section \<open>Properties\<close>



text \<open>C28: The server never serves a request while the global \<^verbatim>\<open>db\<close> is
  \<^verbatim>\<open>null\<close>: \<^verbatim>\<open>initializeDBAndServer\<close> listens only after the open
  succeeded, and serving keeps the connection.\<close>

theorem proc_reach_db:
  assumes "proc_reach cfg p" and "proc_listening p"
  shows "\<exists>d. proc_db p = Some d"
  using assms
proof (induction rule: proc_reach.induct)
  case (start opened listened)
  then show ?case by (auto simp: initialize_db_and_server_def initial_proc_def split: sum.splits unit.splits)
next
  case (serve p env rr out p')
  then show ?case using serve_db [OF serve(2)] by auto
qed

theorem proc_reach_db_witness:
  "proc_reach demo_cfg (initialize_db_and_server (Inr demo_db) (Inr ()) initial_proc) \<and>
   proc_listening (initialize_db_and_server (Inr demo_db) (Inr ()) initial_proc) \<and>
   (\<exists>d. proc_db (initialize_db_and_server (Inr demo_db) (Inr ()) initial_proc) = Some d)"
proof -
  have r: "proc_reach demo_cfg (initialize_db_and_server (Inr demo_db) (Inr ()) initial_proc)"
    by (rule proc_reach.start)
  have l: "proc_listening (initialize_db_and_server (Inr demo_db) (Inr ()) initial_proc)"
    by (simp add: initialize_db_and_server_def initial_proc_def)
  show ?thesis using proc_reach_db [OF r l] r l by blast
qed

end
