(* ===== verification/Interleave.thy ===== *)
theory Interleave
  imports Handlers
begin

text \<open>
  Concurrent registrations.  The handler of \<^verbatim>\<open>POST /users/\<close> (lines 59--84)
  awaits three times: \<^verbatim>\<open>bcrypt.hash\<close> (line 61), the \<^verbatim>\<open>SELECT\<close> (line 65)
  and the \<^verbatim>\<open>INSERT\<close> (line 78).  Node runs other requests' continuations at
  each await, and SQLite runs each statement atomically, so a registration is
  a thread of three atomic steps, and several registrations interleave their
  steps in any order.  \<open>reg_step\<close> is one step of one thread; \<open>reg_steps\<close> is the
  reflexive-transitive closure over any thread that has not finished.
\<close>

datatype reg_pc = RegStart | RegHashed string | RegChecked string | RegDone outcome

record reg_thread =
  th_env :: env
  th_req :: request
  th_pc :: reg_pc

definition reg_step :: "config \<Rightarrow> reg_thread \<Rightarrow> db \<Rightarrow> reg_thread \<times> db" where
  "reg_step cfg t d =
     (let b = req_body (th_req t); username = js_to_string (js_prop b ''username'')
      in case th_pc t of
           RegStart \<Rightarrow>
             (case bcrypt_hash (cfg_eks cfg) (env_rnd (th_env t)) (js_prop b ''password'') 10 of
                Inl e \<Rightarrow> (t\<lparr>th_pc := RegDone (Rejected (bcrypt_error_msg e))\<rparr>, d)
              | Inr hashed \<Rightarrow> (t\<lparr>th_pc := RegHashed hashed\<rparr>, d))
         | RegHashed hashed \<Rightarrow>
             (case db_get_user d username of
                Inl e \<Rightarrow> (t\<lparr>th_pc := RegDone (sql_outcome e)\<rparr>, d)
              | Inr None \<Rightarrow> (t\<lparr>th_pc := RegChecked hashed\<rparr>, d)
              | Inr (Some row) \<Rightarrow> (t\<lparr>th_pc := RegDone (send_text 400 ''User already exists'')\<rparr>, d))
         | RegChecked hashed \<Rightarrow>
             (case db_insert_user d username (js_to_string (js_prop b ''name'')) hashed
                     (js_to_string (js_prop b ''gender'')) (js_to_string (js_prop b ''location'')) of
                Inl e \<Rightarrow> (t\<lparr>th_pc := RegDone (sql_outcome e)\<rparr>, d)
              | Inr d' \<Rightarrow> (t\<lparr>th_pc := RegDone (send_text 200 ''User created successfully'')\<rparr>, d'))
         | RegDone out \<Rightarrow> (t, d))"

definition reg_done :: "reg_thread \<Rightarrow> bool" where
  "reg_done t \<longleftrightarrow> (case th_pc t of RegDone out \<Rightarrow> True | _ \<Rightarrow> False)"

inductive reg_steps :: "config \<Rightarrow> reg_thread list \<times> db \<Rightarrow> reg_thread list \<times> db \<Rightarrow> bool" where
  refl: "reg_steps cfg s s"
| step: "reg_steps cfg s (ts, d) \<Longrightarrow> i < length ts \<Longrightarrow> \<not> reg_done (ts ! i) \<Longrightarrow>
         reg_step cfg (ts ! i) d = (t', d') \<Longrightarrow> reg_steps cfg s (ts[i := t'], d')"

text \<open>A request that has not started yet.\<close>

definition reg_start :: "env \<Rightarrow> request \<Rightarrow> reg_thread" where
  "reg_start env req = \<lparr>th_env = env, th_req = req, th_pc = RegStart\<rparr>"

text \<open>The username a thread's \<^verbatim>\<open>SELECT\<close> and \<^verbatim>\<open>INSERT\<close> paste.\<close>

definition th_user :: "reg_thread \<Rightarrow> string" where
  "th_user t = js_to_string (js_prop (req_body (th_req t)) ''username'')"

text \<open>
  The invariant of interleaved registrations: usernames are unique, and a thread
  that has passed its \<^verbatim>\<open>SELECT\<close> has not yet seen its username inserted.
\<close>

definition reg_safe :: "reg_thread list \<Rightarrow> db \<Rightarrow> bool" where
  "reg_safe ts d \<longleftrightarrow> users_unique d \<and>
     list_all (\<lambda>t. \<forall>h u. th_pc t = RegChecked h \<longrightarrow> sql_text_value (th_user t) = Some u \<longrightarrow>
                         u \<notin> u_username ` set (db_users d)) ts"

text \<open>A thread whose outcome, once it has one, is modelled.\<close>

definition th_modelled :: "reg_thread \<Rightarrow> bool" where
  "th_modelled t \<longleftrightarrow> (case th_pc t of RegDone out \<Rightarrow> modelled out | _ \<Rightarrow> True)"

section \<open>Lemmas\<close>

lemma reg_step_done: "reg_done t \<Longrightarrow> reg_step cfg t d = (t, d)"
  by (auto simp: reg_done_def reg_step_def split: reg_pc.splits)

lemma reg_step_keeps:
  "reg_step cfg t d = (t', d') \<Longrightarrow> th_req t' = th_req t \<and> th_env t' = th_env t"
  by (auto simp: reg_step_def Let_def split: reg_pc.splits sum.splits option.splits)

lemma reg_step_effect:
  assumes "reg_step cfg t d = (t', d')"
  shows "d' = d \<or> (\<exists>h row. th_pc t = RegChecked h \<and> sql_text_value (th_user t) = Some (u_username row) \<and>
                          d' = d\<lparr>db_users := db_users d @ [row]\<rparr>)"
proof (cases "th_pc t")
  case (RegChecked h)
  then show ?thesis
    using assms by (auto simp: reg_step_def Let_def th_user_def split: sum.splits dest: db_insert_user_Inr)
qed (use assms in \<open>auto simp: reg_step_def Let_def split: sum.splits option.splits\<close>)

lemma reg_step_to_checked:
  assumes "reg_step cfg t d = (t', d')" and "th_pc t' = RegChecked h"
  shows "d' = d \<and> (\<exists>u. sql_text_value (th_user t) = Some u \<and> u \<notin> u_username ` set (db_users d))"
  using assms
  by (auto simp: reg_step_def Let_def th_user_def split: reg_pc.splits sum.splits option.splits
      dest: db_get_user_None)

lemma th_user_step: "reg_step cfg t d = (t', d') \<Longrightarrow> th_user t' = th_user t"
  by (simp add: th_user_def reg_step_keeps)

lemma reg_steps_trans: "reg_steps cfg s2 s3 \<Longrightarrow> reg_steps cfg s1 s2 \<Longrightarrow> reg_steps cfg s1 s3"
  by (induction rule: reg_steps.induct) (auto intro: reg_steps.step)

lemma reg_steps_next:
  "reg_steps cfg s (ts, d) \<Longrightarrow> i < length ts \<Longrightarrow> \<not> reg_done (ts ! i) \<Longrightarrow>
   reg_steps cfg s (ts[i := fst (reg_step cfg (ts ! i) d)], snd (reg_step cfg (ts ! i) d))"
  by (rule reg_steps.step) simp_all

lemma reg_safe_step:
  assumes safe: "reg_safe ts d" and dist: "distinct (map th_user ts)" and i: "i < length ts"
    and st: "reg_step cfg (ts ! i) d = (t', d')"
  shows "reg_safe (ts[i := t']) d'"
proof -
  have checked_other: "\<exists>j < length ts. j \<noteq> i \<and> t = ts ! j" if "t \<in> set (ts[i := t'])" "t \<noteq> t'" for t
  proof -
    have "\<exists>j < length (ts[i := t']). ts[i := t'] ! j = t"
      using that(1) by (simp only: in_set_conv_nth)
    then obtain j where j: "j < length ts" "t = ts[i := t'] ! j" by auto
    then have "j \<noteq> i" using that(2) i by auto
    with j show ?thesis by auto
  qed
  from reg_step_effect [OF st] consider (same) "d' = d"
    | (ins) h row where "th_pc (ts ! i) = RegChecked h" "sql_text_value (th_user (ts ! i)) = Some (u_username row)"
        "d' = d\<lparr>db_users := db_users d @ [row]\<rparr>" by blast
  then show ?thesis
  proof cases
    case same
    have "u \<notin> u_username ` set (db_users d)"
      if tc: "t \<in> set (ts[i := t'])" "th_pc t = RegChecked h" "sql_text_value (th_user t) = Some u" for t h u
    proof (cases "t = t'")
      case True
      then show ?thesis using reg_step_to_checked [OF st] tc th_user_step [OF st] by auto
    next
      case False
      then obtain j where "j < length ts" "t = ts ! j" using checked_other tc(1) by blast
      then show ?thesis using safe tc by (auto simp: reg_safe_def list_all_iff)
    qed
    with safe same show ?thesis by (auto simp: reg_safe_def list_all_iff)
  next
    case ins
    have fresh: "u_username row \<notin> u_username ` set (db_users d)"
      using safe ins(1,2) i by (auto simp: reg_safe_def list_all_iff)
    have "d' \<noteq> d"
    proof
      assume "d' = d"
      moreover have "db_users d' = db_users d @ [row]" using ins(3) by simp
      ultimately show False by simp
    qed
    then have not_checked: "th_pc t' \<noteq> RegChecked h'" for h'
      using reg_step_to_checked [OF st] by auto
    have "u \<notin> u_username ` set (db_users d')"
      if tc: "t \<in> set (ts[i := t'])" "th_pc t = RegChecked h'" "sql_text_value (th_user t) = Some u" for t h' u
    proof -
      obtain j where j: "j < length ts" "j \<noteq> i" "t = ts ! j"
        using checked_other tc(1) not_checked tc(2) by blast
      then have "th_user t \<noteq> th_user (ts ! i)" using dist i by (auto simp: distinct_conv_nth)
      then have "u \<noteq> u_username row" using ins(2) tc(3) sql_text_value_same by blast
      moreover have "u \<notin> u_username ` set (db_users d)"
        using safe j tc by (auto simp: reg_safe_def list_all_iff)
      ultimately show ?thesis using ins(3) by auto
    qed
    moreover have "users_unique d'" using safe fresh ins(3) by (simp add: reg_safe_def users_unique_def)
    ultimately show ?thesis by (auto simp: reg_safe_def list_all_iff)
  qed
qed

lemma reg_steps_users: "reg_steps cfg s s' \<Longrightarrow> map th_user (fst s') = map th_user (fst s)"
proof (induction rule: reg_steps.induct)
  case (step cfg s ts d i t' d')
  have "map th_user (ts[i := t']) = map th_user ts"
    using step.hyps(2) th_user_step [OF step.hyps(4)] by (metis list_update_id map_update nth_map)
  then show ?case using step.IH by simp
qed simp

end
