(* ===== verification/Spec2Isabelle.thy ===== *)
theory Spec2Isabelle
  imports Server Interleave
begin

text \<open>
  \<^bold>\<open>A verification library for the Goodreads authentication server.\<close>

  The program is one Express application, \<^verbatim>\<open>src/index.js\<close>.  It opens the
  SQLite database \<^verbatim>\<open>goodreads.db\<close> (lines 16--31), registers users with a
  bcrypt hash of their password (\<^verbatim>\<open>POST /users/\<close>, lines 59--84), logs them in
  by comparing the password with the stored hash and signing a JSON Web Token
  (\<^verbatim>\<open>POST /login/\<close>, lines 87--109), and guards the profile and the book
  routes with the middleware \<^verbatim>\<open>authenticateToken\<close> (lines 34--56), which
  verifies the token of the \<^verbatim>\<open>Authorization\<close> header.  Every SQL statement is
  a template with the request's values pasted in.

  \<^bold>\<open>Theories.\<close>
  \<^item> \<open>Prelude\<close>: JavaScript values (\<open>jsval\<close>), \<open>String(v)\<close> (\<open>js_to_string\<close>),
    property access (\<open>js_prop\<close>), \<open>split\<close> (\<open>js_split\<close>) and indexing.
  \<^item> \<open>Encoding\<close>: base64 over a 64-letter alphabet (\<open>b64_encode\<close>, \<open>b64_decode\<close>)
    with the round trip \<open>b64_decode_encode\<close>.
  \<^item> \<open>Bcrypt\<close>: the \<^verbatim>\<open>bcrypt\<close> package as the code calls it: \<open>bcrypt_hash\<close>
    (\<^verbatim>\<open>bcrypt.hash(pw, 10)\<close>), \<open>bcrypt_compare\<close>, the 72-byte key
    \<open>bcrypt_key\<close>, the salt format \<^verbatim>\<open>$2b$10$\<close>.  The Blowfish key schedule
    is the parameter \<open>eks\<close>; nothing is assumed of it except where a lemma
    says so (injectivity in the key for \<open>login_wrong_password\<close>).
  \<^item> \<open>Json\<close>: \<^verbatim>\<open>JSON.stringify\<close> (\<open>json_str\<close>) and a fuel-bounded
    \<^verbatim>\<open>JSON.parse\<close> (\<open>json_parse\<close>); \<open>json_parse_json_str\<close> is the round trip.  The
    fuel is twice the length of the text plus one: a nested array or object
    costs two units and consumes at least its opening bracket, so the parser
    never runs out of fuel on any text (\<open>json_parse_not_fuel\<close>).
  \<^item> \<open>Jwt\<close>: \<^verbatim>\<open>jwt.sign\<close> (\<open>jwt_sign\<close>, which adds \<^verbatim>\<open>iat\<close>) and
    \<^verbatim>\<open>jwt.verify\<close> (\<open>jwt_verify\<close>) in the order jsonwebtoken checks a token;
    the HMAC is the parameter \<open>mac\<close>.  \<open>jwt_verify_sign\<close>: a signed token verifies
    to its payload; \<open>jwt_verify_Inr_signed\<close>: a token verifies only if its third
    segment is the HMAC of the first two under the secret.
  \<^item> \<open>Store\<close>: the tables as records (\<open>user_row\<close>, \<open>book_row\<close>, \<open>db\<close>), the
    reading of a quoted SQL literal (\<open>sql_text_value\<close>) and the user statements
    \<open>db_get_user\<close>, \<open>db_insert_user\<close>.  A pasted value that ends its literal early
    (an injection) gives \<open>SqlUnmodelled\<close>.
  \<^item> \<open>Http\<close>: requests, responses and outcomes: \<open>Sent\<close> a response,
    \<open>Rejected\<close> (the async handler's promise rejects and Express 4 sends nothing)
    or \<open>Unmodelled\<close>; a handler maps a request and the database to an outcome
    and the new database; \<open>modelled\<close> singles out the outcomes the model
    computes.  It also holds the concrete configuration, requests and database
    (\<open>demo_cfg\<close>, \<open>demo_req\<close>, \<open>demo_db\<close>, ...) at which properties are instantiated.
  \<^item> \<open>Auth\<close>: \<open>extract_token\<close>, \<open>authenticate_token\<close> (lines 34--56) and
    \<open>run_protected\<close>, the middleware in front of a handler; the properties of the
    middleware alone (claims C2--C4).
  \<^item> \<open>Handlers\<close>: \<open>register_user\<close> (59--84), \<open>login_user\<close> (87--109) and
    \<open>get_profile\<close> (113--118), each the whole handler with its statements in
    the order the code awaits them; registration keeps usernames unique (C5).
  \<^item> \<open>Books\<close>: the six book handlers (\<open>get_books\<close>, \<open>get_book\<close>, \<open>add_book\<close>,
    \<open>update_book\<close>, \<open>delete_book\<close>, \<open>get_author_books\<close>, lines 121--276) and the
    shadowed filtered list \<open>get_books_filtered\<close> (134--154): quoted values read as
    literals, bare values as SQLite tokens (\<open>sql_num_value\<close>; a missing field
    pastes \<^verbatim>\<open>undefined\<close>, an unknown column), \<^verbatim>\<open>lastID\<close> as the next
    rowid (\<open>next_book_id\<close>, SQLite's allocation without \<^verbatim>\<open>AUTOINCREMENT\<close>).
  \<^item> \<open>Routes\<close>: the route table in registration order, Express's first-match
    dispatch (\<open>dispatch\<close>) and the application \<open>app\<close> that runs the middleware
    in front of every route but registration and login; the filtered list is
    never dispatched (C16).
  \<^item> \<open>Interleave\<close>: registration split at its three awaits (\<open>reg_step\<close>) and
    the interleavings of any number of registrations (\<open>reg_steps\<close>, an inductive
    step relation).  The other handlers run one statement each and are atomic.
  \<^item> \<open>BodyParser\<close>: \<^verbatim>\<open>express.json()\<close> (line 4) as body-parser implements it
    (\<open>express_json\<close>): the type check, the 100kb limit, the strict first
    character, then \<open>json_parse\<close>.
  \<^item> \<open>Server\<close>: the request as it arrives (\<open>raw_request\<close>) through the body
    parser and the routes (\<open>server\<close>), requests served in sequence
    (\<open>run_server\<close>), \<^verbatim>\<open>initializeDBAndServer\<close> (lines 16--31,
    \<open>initialize_db_and_server\<close>) and the states of the process (\<open>proc_reach\<close>);
    the strict body check (C26) and the start-up order (C28).
  \<^item> this theory: the properties of the program that span these parts.

  \<^bold>\<open>What the lemmas show.\<close>  Registration, login and the profile compose:
  a user registered with a password logs in with it and the token reaches the
  profile (\<open>register_login_profile\<close>).  The middleware lets a handler change the
  database only for a token signed under \<^verbatim>\<open>MY_SECRET_TOKEN\<close>, and answers 401
  otherwise.  Registration keeps usernames unique and refuses a taken one.
  A wrong password is refused when the key schedule is injective, but two
  passwords that agree on their first 72 bytes are the same password
  (\<open>login_truncated_password\<close>).  The login response parses back to a token
  that verifies to \<^verbatim>\<open>{username, iat}\<close>.  The profile response carries
  the stored password hash.  A login without a password for an existing user
  rejects the handler's promise: the client gets no response.

  Across the application, only registration changes the database without a
  verified token (\<open>app_change_needs_token\<close>), and the filtered book list is
  never dispatched (\<open>filtered_books_unreachable\<close>).  Books added are found by
  the id the response carries; book ids stay distinct.  Interleaved
  registrations of distinct usernames keep usernames unique, and two
  registrations of one username can both insert (\<open>register_race\<close>).

  \<^bold>\<open>Modelled outcomes.\<close>  A pasted value that alters the text of a statement
  (an injection) gives the outcome \<open>Unmodelled\<close>; the database the model returns
  with it is its input, not what SQLite holds after running the altered
  statement, which can insert arbitrary rows.  Every property about the database
  after a registration or a run of requests is therefore stated for runs whose
  outcomes are \<open>modelled\<close> (\<open>th_modelled\<close>, \<open>srv_modelled\<close>), and these runs are
  exactly those in which every statement ran as written.

  \<^bold>\<open>The whole server.\<close>  A body sent as the \<^verbatim>\<open>JSON.stringify\<close> text of an
  object whose integers are within \<open>2^53\<close> reaches the routes as that object
  (\<open>express_json_roundtrip\<close>); a body that does not open an object or array is
  refused with 400 before any route runs, valid JSON or not
  (\<open>server_strict_refused\<close>).  Every route keeps the database invariant
  \<open>db_ok\<close> (distinct usernames, distinct book ids), so any sequence of requests
  with modelled outcomes does (\<open>run_server_ok\<close>); the process listens only once
  the database is open (\<open>proc_reach_db\<close>).

  \<^bold>\<open>Not modelled.\<close>  Opening the database file and the socket (their results
  are inputs of \<open>initialize_db_and_server\<close>); \<^verbatim>\<open>Content-Type\<close> headers with
  parameters such as a charset; the text of Express's HTML error pages; the
  cryptographic primitives themselves (parameters); numbers that are not
  integers in request bodies, and integers beyond \<open>2^53\<close> in them (which
  \<^verbatim>\<open>JSON.parse\<close> rounds; the integers of JWT payloads, such as \<open>iat\<close>, are
  taken exactly); what an injected SQL statement does; percent
  decoding of route parameters; the database schema, which the repository does
  not ship (the tables have the columns the statements name, \<^verbatim>\<open>book_id\<close> is
  taken as the rowid, allocated as SQLite does without \<^verbatim>\<open>AUTOINCREMENT\<close>, and no
  constraint is assumed).
\<close>

section \<open>Concrete requests\<close>


definition demo_row :: "string \<Rightarrow> user_row" where
  "demo_row pw = \<lparr>u_username = ''alice'', u_name = ''Alice'',
     u_password = bcrypt_crypt (cfg_eks demo_cfg) pw (gen_salt 10 (env_rnd demo_env)),
     u_gender = ''female'', u_location = ''Paris''\<rparr>"

definition demo_login :: "jsval \<Rightarrow> request" where
  "demo_login pw = demo_req\<lparr>req_body := JObj [(''username'', JStr ''alice''), (''password'', pw)]\<rparr>"

definition long_pw :: "char \<Rightarrow> string" where
  "long_pw c = replicate 72 (CHR ''a'') @ [c]"

definition demo_book_body :: "jsval \<Rightarrow> jsval" where
  "demo_book_body author =
     JObj [(''title'', JStr ''Dune''), (''authorId'', author), (''rating'', JNum 4), (''ratingCount'', JNum 10),
           (''reviewCount'', JNum 2), (''description'', JStr ''Desert planet''), (''pages'', JNum 412),
           (''dateOfPublication'', JStr ''1965''), (''editionLanguage'', JStr ''English''), (''price'', JNum 9),
           (''onlineStores'', JStr ''Amazon'')]"

definition demo_http :: "meth \<Rightarrow> string \<Rightarrow> request \<Rightarrow> http_request" where
  "demo_http m p r = \<lparr>hr_method = m, hr_path = p, hr_req = r\<rparr>"

section \<open>The demo registration\<close>


section \<open>Properties\<close>





text \<open>C7: Logging in with a password whose bcrypt key differs from the registered one answers 400 Invalid Password, when the key schedule is injective in the key.\<close>

theorem login_wrong_password:
  assumes "js_prop (req_body req) ''username'' = JStr u" "SQ \<notin> set u"
    and "find (\<lambda>r. u_username r = u) (db_users d) = Some row"
    and "u_password row = bcrypt_crypt (cfg_eks cfg) pw (gen_salt 10 rnd)" "length rnd = 16"
    and "js_prop (req_body req) ''password'' = JStr pw'"
    and "inj (cfg_eks cfg 10 rnd)" "bcrypt_key pw' \<noteq> bcrypt_key pw"
  shows "login_user cfg env req d = (send_text 400 ''Invalid Password'', d)"
proof -
  have "plain_text (js_prop (req_body req) ''username'')" using assms(1,2) by (simp add: plain_text_def)
  moreover have "cfg_eks cfg 10 rnd (bcrypt_key pw') \<noteq> cfg_eks cfg 10 rnd (bcrypt_key pw)"
    using assms(7,8) by (simp add: inj_eq)
  ultimately show ?thesis
    using assms by (simp add: login_user_found compare_stored_hash)
qed

theorem login_wrong_password_witness:
  "login_user demo_cfg demo_env (demo_login (JStr ''wrong'')) \<lparr>db_users = [demo_row ''secret''], db_books = []\<rparr> =
     (send_text 400 ''Invalid Password'', \<lparr>db_users = [demo_row ''secret''], db_books = []\<rparr>)"
  by (rule login_wrong_password [where u = "''alice''" and pw = "''secret''" and pw' = "''wrong''"
        and rnd = "env_rnd demo_env" and row = "demo_row ''secret''"])
     (simp_all add: demo_login_def demo_row_def js_prop_def demo_env_def demo_cfg_def bcrypt_key_def)

text \<open>C8: A successful login response parses (JSON.parse) to an object holding one token, and that token verifies under the secret to the payload username and iat.\<close>

theorem login_token_roundtrip:
  assumes "login_user cfg env req d = (Sent (Response 200 (BJson v)), d')"
    and "\<And>k m. cfg_mac cfg ''HS256'' k m \<noteq> []"
  shows "\<exists>t. json_parse (json_str v) = Inr (JObj [(''jwtToken'', JStr t)]) \<and>
             jwt_verify (cfg_mac cfg) t jwt_secret now' =
               Inr (json_norm (JObj [(''username'', js_prop (req_body req) ''username''),
                                     (''iat'', JNum (int (env_now env)))]))"
proof -
  let ?t = "jwt_sign (cfg_mac cfg) [(''username'', js_prop (req_body req) ''username'')] jwt_secret (env_now env)"
  have v: "v = JObj [(''jwtToken'', JStr ?t)]" using login_user_json [OF assms(1)] by simp
  have "jwt_verify (cfg_mac cfg) ?t jwt_secret now' =
          Inr (json_norm (jwt_payload [(''username'', js_prop (req_body req) ''username'')] (env_now env)))"
    by (rule jwt_verify_sign) (use assms(2) in auto)
  then show ?thesis
    using v json_parse_json_str [of v] by (simp add: jwt_payload_single)
qed

theorem login_token_roundtrip_witness:
  "\<exists>t. json_parse (json_str (JObj [(''jwtToken'', JStr (jwt_sign (cfg_mac demo_cfg) [(''username'', JStr ''alice'')] jwt_secret (env_now demo_env)))]))
         = Inr (JObj [(''jwtToken'', JStr t)]) \<and>
       jwt_verify (cfg_mac demo_cfg) t jwt_secret 0 =
         Inr (json_norm (JObj [(''username'', js_prop (req_body (demo_login (JStr ''secret''))) ''username''),
                               (''iat'', JNum (int (env_now demo_env)))]))"
proof -
  have run: "login_user demo_cfg demo_env (demo_login (JStr ''secret'')) \<lparr>db_users = [demo_row ''secret''], db_books = []\<rparr> =
      (Sent (Response 200 (BJson (JObj [(''jwtToken'', JStr (jwt_sign (cfg_mac demo_cfg) [(''username'', JStr ''alice'')] jwt_secret (env_now demo_env)))]))),
       \<lparr>db_users = [demo_row ''secret''], db_books = []\<rparr>)"
    using login_user_match [where u = "''alice''" and pw = "''secret''" and rnd = "env_rnd demo_env"
        and row = "demo_row ''secret''" and req = "demo_login (JStr ''secret'')"]
    by (simp add: demo_login_def demo_row_def js_prop_def demo_env_def token_body_def)
  show ?thesis
    by (rule login_token_roundtrip [OF run]) (simp add: demo_cfg_def)
qed

text \<open>C9: bcrypt keys only the first 72 bytes of a password: a different password that agrees with the registered one on its first 72 bytes logs in.\<close>

theorem login_truncated_password:
  assumes "js_prop (req_body req) ''username'' = JStr u" "SQ \<notin> set u"
    and "find (\<lambda>r. u_username r = u) (db_users d) = Some row"
    and "u_password row = bcrypt_crypt (cfg_eks cfg) pw (gen_salt 10 rnd)" "length rnd = 16"
    and "js_prop (req_body req) ''password'' = JStr pw'" "pw' \<noteq> pw"
    and "72 \<le> length pw" "72 \<le> length pw'" "take 72 pw' = take 72 pw"
  shows "login_user cfg env req d =
           (Sent (Response 200 (token_body (jwt_sign (cfg_mac cfg) [(''username'', JStr u)] jwt_secret (env_now env)))), d)"
proof -
  have "plain_text (js_prop (req_body req) ''username'')" using assms(1,2) by (simp add: plain_text_def)
  moreover have "bcrypt_key pw' = bcrypt_key pw"
    using assms(8-10) by (simp add: bcrypt_key_def)
  ultimately show ?thesis
    using assms by (simp add: login_user_found compare_stored_hash)
qed

theorem login_truncated_password_witness:
  "login_user demo_cfg demo_env (demo_login (JStr (long_pw CHR ''2''))) \<lparr>db_users = [demo_row (long_pw CHR ''1'')], db_books = []\<rparr> =
     (Sent (Response 200 (token_body (jwt_sign (cfg_mac demo_cfg) [(''username'', JStr ''alice'')] jwt_secret (env_now demo_env)))),
      \<lparr>db_users = [demo_row (long_pw CHR ''1'')], db_books = []\<rparr>)"
  by (rule login_truncated_password [where pw = "long_pw CHR ''1''" and pw' = "long_pw CHR ''2''"
        and rnd = "env_rnd demo_env" and u = "''alice''" and row = "demo_row (long_pw CHR ''1'')"])
     (simp_all add: demo_login_def demo_row_def js_prop_def demo_env_def long_pw_def)

text \<open>C10: The token the middleware reads is the text between the first and the second space of the Authorization header, and there is none when the header has no space.\<close>

theorem extract_token_split:
  "extract_token (Some s) =
     (if CHR '' '' \<in> set s
      then Some (takeWhile (\<lambda>c. c \<noteq> CHR '' '') (tl (dropWhile (\<lambda>c. c \<noteq> CHR '' '') s)))
      else None)"
proof (cases "CHR '' '' \<in> set s")
  case True
  obtain a b where s: "s = a @ CHR '' '' # b" and a: "CHR '' '' \<notin> set a"
    using True by (metis split_list_first)
  have "dropWhile (\<lambda>c. c \<noteq> CHR '' '') s = CHR '' '' # b" using s a by (simp add: dropWhile_first)
  moreover have "js_split (CHR '' '') s = a # js_split (CHR '' '') b" using s a by (simp add: js_split_sep)
  ultimately show ?thesis
    using True hd_split_acc [of "CHR '' ''" "[]" b] js_split_nonempty [of "CHR '' ''" b]
    by (auto simp: extract_token_def js_index_def js_split_def hd_conv_nth)
next
  case False
  then show ?thesis by (simp add: extract_token_no_space)
qed


text \<open>C12: Every JSON profile response holds the password hash stored for a user of the database, and the profile leaves the database unchanged.\<close>

theorem profile_exposes_hash:
  assumes "run_protected get_profile cfg env req d = (Sent (Response 200 (BJson v)), d')"
  shows "\<exists>row \<in> set (db_users d). js_prop v ''password'' = JStr (u_password row) \<and> d' = d"
proof -
  obtain req' where "get_profile cfg env req' d = (Sent (Response 200 (BJson v)), d')"
    using assms by (auto simp: run_protected_def invalid_jwt_def split: mw_result.splits dest: authenticate_token_reject)
  moreover from this have "d' = d" by (auto simp: get_profile_def split: sum.splits option.splits)
  ultimately show ?thesis
    by (auto simp: js_prop_def user_json_def dest!: get_profile_json)
qed

theorem profile_exposes_hash_witness:
  "\<exists>row \<in> set (db_users \<lparr>db_users = [demo_row ''secret''], db_books = []\<rparr>).
     js_prop (user_json (demo_row ''secret'')) ''password'' = JStr (u_password row) \<and>
     \<lparr>db_users = [demo_row ''secret''], db_books = []\<rparr> = \<lparr>db_users = [demo_row ''secret''], db_books = []\<rparr>"
proof -
  have run: "run_protected get_profile demo_cfg demo_env (demo_req\<lparr>req_auth := Some (''Bearer '' @ demo_token)\<rparr>)
      \<lparr>db_users = [demo_row ''secret''], db_books = []\<rparr> =
      (Sent (Response 200 (BJson (user_json (demo_row ''secret'')))), \<lparr>db_users = [demo_row ''secret''], db_books = []\<rparr>)"
    using authenticate_signed [where mac = "cfg_mac demo_cfg" and v = "JStr ''alice''"]
    by (simp add: run_protected_def demo_token_def demo_cfg_def get_profile_found demo_row_def)
  show ?thesis by (rule profile_exposes_hash [OF run])
qed



text \<open>C14: Logging in to an existing account without a password rejects the handler (bcrypt.compare throws): no response is sent and the database is unchanged.\<close>

theorem login_missing_password:
  assumes "js_prop (req_body req) ''username'' = JStr u" "SQ \<notin> set u"
    and "u \<in> u_username ` set (db_users d)" and "js_prop (req_body req) ''password'' = JUndef"
  shows "login_user cfg env req d = (Rejected ''data and hash arguments required'', d)"
proof -
  obtain row where "find (\<lambda>r. u_username r = u) (db_users d) = Some row"
    using assms(3) find_username_None by (cases "find (\<lambda>r. u_username r = u) (db_users d)") auto
  moreover have "plain_text (js_prop (req_body req) ''username'')" using assms(1,2) by (simp add: plain_text_def)
  ultimately show ?thesis
    using assms by (simp add: login_user_found bcrypt_compare_def bcrypt_error_msg_def)
qed

theorem login_missing_password_witness:
  "login_user demo_cfg demo_env (demo_login JUndef) \<lparr>db_users = [demo_row ''secret''], db_books = []\<rparr> =
     (Rejected ''data and hash arguments required'', \<lparr>db_users = [demo_row ''secret''], db_books = []\<rparr>)"
  by (rule login_missing_password [where u = "''alice''"]) (simp_all add: demo_login_def demo_row_def js_prop_def)

text \<open>C15: Registering without a password (undefined or null) rejects the handler before any statement runs: no response is sent and the database is unchanged.\<close>

theorem register_missing_password:
  assumes "js_prop (req_body req) ''password'' \<in> {JUndef, JNull}"
  shows "register_user cfg env req d = (Rejected ''data and salt arguments required'', d)"
  using assms by (auto simp: register_user_def Let_def bcrypt_hash_def bcrypt_error_msg_def)

theorem register_missing_password_witness:
  "register_user demo_cfg demo_env (demo_req\<lparr>req_body := JObj [(''username'', JStr ''bob'')]\<rparr>) demo_db =
     (Rejected ''data and salt arguments required'', demo_db)"
  by (rule register_missing_password) (simp add: js_prop_def)

text \<open>C17: Across the whole application, a request changes the database only if it is
  dispatched to registration or carries a token that verifies under the secret.\<close>

theorem app_change_needs_token:
  assumes "app cfg env hr d = (out, d')" and "d' \<noteq> d"
  shows "(\<exists>ps. dispatch (hr_method hr) (hr_path hr) = Some (RRegister, ps)) \<or>
         (\<exists>tok pl. extract_token (req_auth (hr_req hr)) = Some tok \<and>
                   jwt_verify (cfg_mac cfg) tok jwt_secret (env_now env) = Inr pl)"
proof -
  obtain r ps where disp: "dispatch (hr_method hr) (hr_path hr) = Some (r, ps)"
    and run: "(if protected r then run_protected (route_handler r) cfg env ((hr_req hr)\<lparr>req_params := ps\<rparr>) d
               else route_handler r cfg env ((hr_req hr)\<lparr>req_params := ps\<rparr>) d) = (out, d')"
    using assms by (auto simp: app_def Let_def split: option.splits if_splits)
  show ?thesis
  proof (cases "protected r")
    case True
    then have "run_protected (route_handler r) cfg env ((hr_req hr)\<lparr>req_params := ps\<rparr>) d = (out, d')"
      using run by simp
    from run_protected_changed [OF this assms(2)] show ?thesis by simp
  next
    case False
    then have "r = RRegister \<or> r = RLogin" by (simp add: protected_def)
    moreover have "r \<noteq> RLogin"
      using run False assms(2) login_user_db [of cfg env "(hr_req hr)\<lparr>req_params := ps\<rparr>" d]
      by (auto simp: route_handler_def)
    ultimately show ?thesis using disp by auto
  qed
qed

theorem app_change_needs_token_witness:
  "(\<exists>ps. dispatch (hr_method (demo_http MPost ''/users/'' demo_req)) (hr_path (demo_http MPost ''/users/'' demo_req)) =
          Some (RRegister, ps)) \<or>
   (\<exists>tok pl. extract_token (req_auth (hr_req (demo_http MPost ''/users/'' demo_req))) = Some tok \<and>
             jwt_verify (cfg_mac demo_cfg) tok jwt_secret (env_now demo_env) = Inr pl)"
proof -
  have reg: "register_user demo_cfg demo_env (demo_req\<lparr>req_params := []\<rparr>) demo_db =
      (send_text 200 ''User created successfully'',
       demo_db\<lparr>db_users := db_users demo_db @ [registered_row demo_cfg demo_env demo_body ''secret'']\<rparr>)"
    using register_user_new [where req = "demo_req\<lparr>req_params := []\<rparr>" and pw = "''secret''" and d = demo_db
        and cfg = demo_cfg and env = demo_env]
    by (simp add: demo_req_def demo_body_def js_prop_def plain_text_def demo_db_def)
  have disp: "dispatch MPost ''/users/'' = Some (RRegister, [])"
    by (simp add: dispatch_def path_segs_def js_split_def routes_def ascii_lower_def)
  have "app demo_cfg demo_env (demo_http MPost ''/users/'' demo_req) demo_db =
      (send_text 200 ''User created successfully'',
       demo_db\<lparr>db_users := db_users demo_db @ [registered_row demo_cfg demo_env demo_body ''secret'']\<rparr>)"
    using reg disp by (simp add: app_def demo_http_def protected_def route_handler_def)
  then show ?thesis
    by (rule app_change_needs_token) (simp add: demo_db_def)
qed

text \<open>C18: A book that POST /books/ adds is what GET /books/:bookId/ returns for the id the
  response carries: the row with that id and the values the statement pasted.\<close>

theorem add_book_get_book:
  assumes "add_book cfg env req d = (Sent (Response 200 (BJson (JObj [(''bookId'', JNum i)]))), d')"
  shows "\<exists>vs. stmt_values (book_raws (req_body req)) = Inr vs \<and>
              get_book cfg env' (req'\<lparr>req_params := [(''bookId'', int_str i)]\<rparr>) d' = (send_row (Some (mk_book i vs)), d')"
proof -
  obtain vs where vs: "stmt_values (book_raws (req_body req)) = Inr vs" "next_book_id (db_books d) = Inr i"
      and d': "d' = d\<lparr>db_books := db_books d @ [mk_book i vs]\<rparr>"
    using add_book_Sent [OF assms] by auto
  then show ?thesis
    using next_book_id_fresh [OF vs(2)]
    by (auto simp: get_book_def req_param_def find_book_appended)
qed

theorem add_book_get_book_witness:
  "\<exists>vs. stmt_values (book_raws (demo_book_body (JNum 3))) = Inr vs \<and>
        get_book demo_cfg demo_env (demo_req\<lparr>req_params := [(''bookId'', int_str 2)]\<rparr>)
          (demo_db\<lparr>db_books := db_books demo_db @ [mk_book 2 [SqlText ''Dune'', SqlInt 3, SqlInt 4, SqlInt 10, SqlInt 2,
             SqlText ''Desert planet'', SqlInt 412, SqlText ''1965'', SqlText ''English'', SqlInt 9, SqlText ''Amazon'']]\<rparr>) =
        (send_row (Some (mk_book 2 vs)),
         demo_db\<lparr>db_books := db_books demo_db @ [mk_book 2 [SqlText ''Dune'', SqlInt 3, SqlInt 4, SqlInt 10, SqlInt 2,
             SqlText ''Desert planet'', SqlInt 412, SqlText ''1965'', SqlText ''English'', SqlInt 9, SqlText ''Amazon'']]\<rparr>)"
proof -
  have v: "stmt_values (book_raws (demo_book_body (JNum 3))) = Inr [SqlText ''Dune'', SqlInt 3, SqlInt 4, SqlInt 10,
      SqlInt 2, SqlText ''Desert planet'', SqlInt 412, SqlText ''1965'', SqlText ''English'', SqlInt 9, SqlText ''Amazon'']"
    by (simp add: stmt_values_def book_raws_def book_fields_def demo_book_body_def js_prop_def paste_def)
  have n: "next_book_id (db_books demo_db) = Inr 2"
    by (simp add: next_book_id_def demo_db_def demo_book_def max_rowid_def)
  have "add_book demo_cfg demo_env (demo_req\<lparr>req_body := demo_book_body (JNum 3)\<rparr>) demo_db =
      (Sent (Response 200 (BJson (JObj [(''bookId'', JNum 2)]))),
       demo_db\<lparr>db_books := db_books demo_db @ [mk_book 2 [SqlText ''Dune'', SqlInt 3, SqlInt 4, SqlInt 10, SqlInt 2,
             SqlText ''Desert planet'', SqlInt 412, SqlText ''1965'', SqlText ''English'', SqlInt 9, SqlText ''Amazon'']]\<rparr>)"
    using v n by (simp add: add_book_def)
  then show ?thesis by (rule add_book_get_book [where req = "demo_req\<lparr>req_body := demo_book_body (JNum 3)\<rparr>", simplified])
qed

text \<open>C19: GET /books/ sends every row of the book table exactly once, in ascending
  order of book_id, and leaves the table unchanged.\<close>

theorem get_books_sorted:
  "\<exists>bs. get_books cfg env req d = (send_rows bs, d) \<and> sorted (map b_book_id bs) \<and> mset bs = mset (db_books d)"
  unfolding get_books_def
  by (intro exI [of _ "sort_key b_book_id (db_books d)"]) (simp add: sorted_sort_key)

text \<open>C20: Adding, updating and deleting books preserve the invariant that no two books
  share a book_id.\<close>

theorem books_unique_preserved:
  assumes "books_unique d"
  shows "books_unique (snd (add_book cfg env req d)) \<and> books_unique (snd (update_book cfg env req d)) \<and>
         books_unique (snd (delete_book cfg env req d))"
  using assms add_book_unique delete_book_unique update_book_ids by (simp add: books_unique_def)

theorem books_unique_preserved_witness:
  "books_unique demo_db \<and>
   books_unique (snd (add_book demo_cfg demo_env (demo_req\<lparr>req_body := demo_book_body (JNum 3)\<rparr>) demo_db)) \<and>
   books_unique (snd (update_book demo_cfg demo_env (demo_req\<lparr>req_body := demo_book_body (JNum 3)\<rparr>) demo_db)) \<and>
   books_unique (snd (delete_book demo_cfg demo_env (demo_req\<lparr>req_body := demo_book_body (JNum 3)\<rparr>) demo_db))"
proof -
  have u: "books_unique demo_db" by (simp add: books_unique_def demo_db_def)
  show ?thesis using books_unique_preserved [OF u] u by blast
qed

text \<open>C21: A book body without authorId makes the INSERT name the column undefined:
  the statement fails, the handler's promise rejects, no response is sent and
  the table is unchanged.\<close>

theorem add_book_missing_author:
  assumes "js_prop (req_body req) ''authorId'' = JUndef"
    and "\<forall>f \<in> {''title'', ''description'', ''dateOfPublication'', ''editionLanguage'', ''onlineStores''}.
           SQ \<notin> set (js_to_string (js_prop (req_body req) f))"
  shows "add_book cfg env req d = (Rejected ''SQLITE_ERROR: no such column: undefined'', d)"
proof -
  have "\<not> list_ex (\<lambda>(k, r). k = ColText \<and> sql_text_value r = None) (book_raws (req_body req))"
    using assms(2) by (simp add: book_raws_def book_fields_def)
  then show ?thesis
    using assms(1,2)
    by (simp add: add_book_def stmt_values_def book_raws_def book_fields_def paste_def sql_num_value_def
        no_such_column_def sql_outcome_def)
qed

theorem add_book_missing_author_witness:
  "add_book demo_cfg demo_env (demo_req\<lparr>req_body := demo_book_body JUndef\<rparr>) demo_db =
     (Rejected ''SQLITE_ERROR: no such column: undefined'', demo_db)"
  by (rule add_book_missing_author) (simp_all add: demo_book_body_def js_prop_def)

text \<open>C22: DELETE /books/:bookId/ for an id no book has answers Book Deleted Successfully
  and leaves the table unchanged: the route does not report a missing book.\<close>

theorem delete_book_absent:
  assumes "i \<notin> b_book_id ` set (db_books d)"
  shows "delete_book cfg env (req\<lparr>req_params := [(''bookId'', int_str i)]\<rparr>) d =
           (send_text 200 ''Book Deleted Successfully'', d)"
proof -
  have "filter (\<lambda>b. b_book_id b \<noteq> i) (db_books d) = db_books d"
    using assms by (auto simp: filter_id_conv)
  then show ?thesis by (simp add: delete_book_def req_param_def)
qed

theorem delete_book_absent_witness:
  "delete_book demo_cfg demo_env (demo_req\<lparr>req_params := [(''bookId'', int_str 7)]\<rparr>) demo_db =
     (send_text 200 ''Book Deleted Successfully'', demo_db)"
  by (rule delete_book_absent) (simp add: demo_db_def demo_book_def)

text \<open>The three steps of the demo registration, run at any state of the database.\<close>

lemma demo_step_start:
  "reg_step demo_cfg (reg_start demo_env demo_req) d =
     ((reg_start demo_env demo_req)\<lparr>th_pc := RegHashed (bcrypt_crypt (cfg_eks demo_cfg) ''secret'' (gen_salt 10 (env_rnd demo_env)))\<rparr>, d)"
  by (simp add: reg_step_def Let_def reg_start_def demo_req_def demo_body_def js_prop_def bcrypt_hash_str)

lemma demo_step_hashed:
  "u_username ` set (db_users d) = {} \<Longrightarrow>
   reg_step demo_cfg ((reg_start demo_env demo_req)\<lparr>th_pc := RegHashed h\<rparr>) d =
     ((reg_start demo_env demo_req)\<lparr>th_pc := RegChecked h\<rparr>, d)"
  by (simp add: reg_step_def Let_def reg_start_def demo_req_def demo_body_def js_prop_def db_get_user_def)

lemma demo_step_checked:
  "reg_step demo_cfg ((reg_start demo_env demo_req)\<lparr>th_pc := RegChecked (bcrypt_crypt (cfg_eks demo_cfg) ''secret'' (gen_salt 10 (env_rnd demo_env)))\<rparr>) d =
     ((reg_start demo_env demo_req)\<lparr>th_pc := RegDone (send_text 200 ''User created successfully'')\<rparr>,
      d\<lparr>db_users := db_users d @ [registered_row demo_cfg demo_env demo_body ''secret'']\<rparr>)"
  using quote_notin_bcrypt_hash [of "cfg_eks demo_cfg" "''secret''" "env_rnd demo_env"]
  by (simp add: reg_step_def Let_def reg_start_def demo_req_def demo_body_def js_prop_def db_insert_user_def
      registered_row_def)



text \<open>C24: Concurrent registrations of the same username can both pass the SELECT before
  either INSERT runs: from an empty user table, two identical requests interleaved
  this way finish with two rows for one username.\<close>

theorem register_race:
  "users_unique demo_db \<and>
   (\<exists>s. reg_steps demo_cfg ([reg_start demo_env demo_req, reg_start demo_env demo_req], demo_db) s \<and>
        list_all reg_done (fst s) \<and> \<not> users_unique (snd s))"
proof -
  let ?h = "bcrypt_crypt (cfg_eks demo_cfg) ''secret'' (gen_salt 10 (env_rnd demo_env))"
  let ?t = "reg_start demo_env demo_req"
  let ?ok = "?t\<lparr>th_pc := RegDone (send_text 200 ''User created successfully'')\<rparr>"
  let ?row = "registered_row demo_cfg demo_env demo_body ''secret''"
  have e: "u_username ` set (db_users demo_db) = {}" by (simp add: demo_db_def)
  have "reg_steps demo_cfg ([?t, ?t], demo_db) ([?t\<lparr>th_pc := RegHashed ?h\<rparr>, ?t], demo_db)"
    using reg_steps_next [OF reg_steps.refl, where cfg = demo_cfg and ts = "[?t, ?t]" and d = demo_db and i = 0] demo_step_start
    by (simp add: reg_done_def reg_start_def)
  then have "reg_steps demo_cfg ([?t, ?t], demo_db) ([?t\<lparr>th_pc := RegHashed ?h\<rparr>, ?t\<lparr>th_pc := RegHashed ?h\<rparr>], demo_db)"
    using reg_steps_next [of demo_cfg _ "[?t\<lparr>th_pc := RegHashed ?h\<rparr>, ?t]" demo_db 1] demo_step_start
    by (simp add: reg_done_def reg_start_def)
  then have "reg_steps demo_cfg ([?t, ?t], demo_db) ([?t\<lparr>th_pc := RegChecked ?h\<rparr>, ?t\<lparr>th_pc := RegHashed ?h\<rparr>], demo_db)"
    using reg_steps_next [of demo_cfg _ "[?t\<lparr>th_pc := RegHashed ?h\<rparr>, ?t\<lparr>th_pc := RegHashed ?h\<rparr>]" demo_db 0]
      demo_step_hashed [OF e]
    by (simp add: reg_done_def)
  then have "reg_steps demo_cfg ([?t, ?t], demo_db) ([?t\<lparr>th_pc := RegChecked ?h\<rparr>, ?t\<lparr>th_pc := RegChecked ?h\<rparr>], demo_db)"
    using reg_steps_next [of demo_cfg _ "[?t\<lparr>th_pc := RegChecked ?h\<rparr>, ?t\<lparr>th_pc := RegHashed ?h\<rparr>]" demo_db 1]
      demo_step_hashed [OF e]
    by (simp add: reg_done_def)
  then have "reg_steps demo_cfg ([?t, ?t], demo_db) ([?ok, ?t\<lparr>th_pc := RegChecked ?h\<rparr>], demo_db\<lparr>db_users := [?row]\<rparr>)"
    using reg_steps_next [of demo_cfg _ "[?t\<lparr>th_pc := RegChecked ?h\<rparr>, ?t\<lparr>th_pc := RegChecked ?h\<rparr>]" demo_db 0]
      demo_step_checked
    by (simp add: reg_done_def demo_db_def)
  then have run: "reg_steps demo_cfg ([?t, ?t], demo_db) ([?ok, ?ok], demo_db\<lparr>db_users := [?row, ?row]\<rparr>)"
    using reg_steps_next [of demo_cfg _ "[?ok, ?t\<lparr>th_pc := RegChecked ?h\<rparr>]" "demo_db\<lparr>db_users := [?row]\<rparr>" 1]
      demo_step_checked
    by (simp add: reg_done_def demo_db_def)
  have "\<not> users_unique (demo_db\<lparr>db_users := [?row, ?row]\<rparr>)" by (simp add: users_unique_def)
  moreover have "users_unique demo_db" by (simp add: users_unique_def demo_db_def)
  moreover have "list_all reg_done [?ok, ?ok]" by (simp add: reg_done_def)
  ultimately show ?thesis using run by (metis fst_conv snd_conv)
qed





end
